theory Spec2Isabelle
  imports Complex_Main
begin

section \<open>Data model of AbstractCardiacProblem\<close>

text \<open>
  The development embeds \<^verbatim>\<open>heart/src/problem/AbstractCardiacProblem.cpp\<close>.
  A finite C++ \<^verbatim>\<open>double\<close> is modelled by the real number it denotes. The class
  stores, compares and passes on the times it handles; the one place where it computes
  with them is the time-step test of \<^verbatim>\<open>PreSolveChecks\<close>, which is modelled with the
  rounding of IEEE 754 double precision. Pointers are addresses handed out by an
  allocation counter, and every \<^verbatim>\<open>delete\<close> / \<^verbatim>\<open>PetscTools::Destroy\<close> is
  appended to a log, so that releasing an allocation twice is visible in the model.
  Calls to \<^verbatim>\<open>HeartEventHandler\<close> and \<^verbatim>\<open>ProgressReporter\<close> (timing and progress
  instrumentation) and to \<^verbatim>\<open>PetscTools::Barrier\<close> and
  \<^verbatim>\<open>PetscTools::ReplicateException\<close> (synchronisation of the process group) are
  left out: the model is that of one process.
\<close>

type_synonym addr = nat
type_synonym Vec = addr

text \<open>
  The ways a call can fail to return: a Chaste \<^verbatim>\<open>Exception\<close> (the only kind the
  \<^verbatim>\<open>catch (Exception&)\<close> handlers of this file catch), a failed \<^verbatim>\<open>assert\<close>,
  the \<^verbatim>\<open>NEVER_REACHED\<close> macro, an exception of the standard library, and
  undefined behaviour (the dereference of a null pointer, \<^verbatim>\<open>back()\<close> of an empty
  vector).
\<close>

datatype failure =
    Exception string
  | AssertionFailure string
  | NeverReached
  | StdInvalidArgument
  | StdOutOfRange
  | UndefinedBehaviour

record mesh =
  NumNodes :: nat
  local_lo :: nat
  local_hi :: nat
  node_region :: "nat \<Rightarrow> nat"

record heart_config =
  SimulationDuration :: real
  PdeTimeStep :: real
  PrintingTimeStep :: real
  OutputDirectory :: string
  OutputFilenamePrefix :: string
  OutputVariables :: "string list"
  OutputUsingOriginalNodeOrdering :: bool
  PostProcessingRequested :: bool
  VisualizeWithMeshalyzer :: bool
  VisualizeWithCmgui :: bool
  VisualizeWithVtk :: bool
  VisualizeWithParallelVtk :: bool
  LoadMesh :: bool
  CreateMesh :: bool
  SpaceDimension :: nat
  CellularTransmuralHeterogeneitiesRequested :: bool

text \<open>
  One row of the checkpoint file: the value of the unlimited (time) dimension and the
  vectors stored under each column id.
\<close>

type_synonym row = "real \<times> (nat \<times> real list) list"

record h5file =
  h5_columns :: "string list"
  h5_fixed_dim :: nat
  h5_rows :: "row list"

record writer =
  w_extending :: bool
  w_define_mode :: bool
  w_estimate :: nat
  w_time :: "real option"
  w_pending :: "(nat \<times> real list) list"
  w_cursor :: nat
  w_chunk :: nat
  w_cache :: bool
  w_permuted :: bool

datatype bcc = UserBcc | DefaultZeroNeumann nat

text \<open>Calls made on the collaborators, in the order they happen.\<close>

datatype event =
    ModifierInitialiseAtStart nat
  | ModifierProcessSolution nat real Vec
  | ModifierFinaliseAtEnd nat
  | SolverSetTimeStep real
  | SolverSetTimeAdaptivityController nat
  | SolverSetTimes real real
  | SolverSetInitialCondition Vec
  | AtBeginningOfTimestep real
  | OnEndOfTimestep real
  | WriteInfo real
  | CloseWriter
  | PostProcessingFiles
  | ConvertMeshalyzer
  | ConvertCmgui
  | ConvertVtk
  | ConvertParallelVtk
  | CellFactorySetMesh
  | FillInCellularTransmuralAreas
  | SetElectrodes

text \<open>
  The collaborators of the class whose code is not part of this file, taken as
  parameters: the template argument \<^verbatim>\<open>PROBLEM_DIM\<close> and \<^verbatim>\<open>SPACE_DIM\<close>, the cell
  models of the tissue, the contents the vector factory gives a new vector, the solver,
  the hook \<^verbatim>\<open>SetUpAdditionalStoppingTimes\<close>, the mesh readers and generators, and
  \<^verbatim>\<open>HeartRegionCode::IsRegionBath\<close>.
\<close>

record env =
  PROBLEM_DIM :: nat
  SPACE_DIM :: nat
  cell_voltage :: "nat \<Rightarrow> real"
  cell_variable :: "nat \<Rightarrow> nat \<Rightarrow> string \<Rightarrow> real \<Rightarrow> real"
  factory_fill :: "nat \<Rightarrow> real"
  solver_Solve :: "real \<Rightarrow> real \<Rightarrow> real list \<Rightarrow> string + real list"
  AdditionalStoppingTimes :: "real list"
  MeshReaderResult :: "string + mesh"
  SlabMeshResult :: "string + mesh"
  ApplyPermutation_ok :: bool
  IsRegionBath :: "nat \<Rightarrow> bool"

text \<open>
  The fields of the class, followed by the world it acts on: the \<^verbatim>\<open>HeartConfig\<close>
  singleton, the allocator (\<open>next_addr\<close>, the log \<open>released\<close> of every release, the
  contents \<open>vec_data\<close> of the vectors), the checkpoint file at the configured path, and
  the trace of collaborator calls.
\<close>

record problem =
  mpMesh :: "mesh option"
  mAllocatedMemoryForMesh :: bool
  mWriteInfo :: bool
  mPrintOutput :: bool
  mpCardiacTissue :: "addr option"
  mpSolver :: "addr option"
  mSolution :: "Vec option"
  mCurrentTime :: real
  mpWriter :: "writer option"
  mNodesToOutput :: "nat list"
  mVoltageColumnId :: nat
  mExtraVariablesId :: "nat list"
  mpBoundaryConditionsContainer :: "bcc option"
  mpDefaultBoundaryConditionsContainer :: "bcc option"
  mpTimeAdaptivityController :: "nat option"
  mOutputModifiers :: "nat list"
  mHdf5DataWriterChunkSizeAndAlignment :: nat
  mUseHdf5DataWriterCache :: bool
  config :: heart_config
  next_addr :: addr
  released :: "addr list"
  vec_data :: "addr \<Rightarrow> real list"
  h5_file :: "h5file option"
  trace :: "event list"

subsection \<open>Allocation\<close>

definition alloc :: "problem \<Rightarrow> addr \<times> problem" where
  "alloc s = (next_addr s, s\<lparr>next_addr := Suc (next_addr s)\<rparr>)"

definition Destroy :: "addr \<Rightarrow> problem \<Rightarrow> problem" where
  "Destroy a s = s\<lparr>released := released s @ [a]\<rparr>"

definition emit :: "event \<Rightarrow> problem \<Rightarrow> problem" where
  "emit ev s = s\<lparr>trace := trace s @ [ev]\<rparr>"

text \<open>
  \<^verbatim>\<open>DistributedVectorFactory::CreateVec(stride)\<close>: a new vector with one entry per
  node and stacked unknown, holding whatever the factory provides.
\<close>

definition CreateVec :: "env \<Rightarrow> mesh \<Rightarrow> nat \<Rightarrow> problem \<Rightarrow> Vec \<times> problem" where
  "CreateVec e m stride s =
     (let (a, s1) = alloc s
      in (a, s1\<lparr>vec_data := (vec_data s1)(a := map (factory_fill e) [0 ..< NumNodes m * stride])\<rparr>))"

section \<open>Double-precision arithmetic\<close>

text \<open>
  A value of type \<^verbatim>\<open>double\<close> (IEEE 754 binary64): a finite number, an infinity with
  its sign (\<open>True\<close> for the negative one) or a NaN. The sign of a zero is not
  represented; in the operations below it would only decide the sign of a quotient by
  zero.
\<close>

datatype double = Finite real | Infinity bool | NaN

text \<open>
  The binary exponent of a number \<open>x\<close>: the \<open>e\<close> with \<open>2 ^ e \<le> \<bar>x\<bar> < 2 ^ (e + 1)\<close>,
  found by halving or doubling. It is not taken below \<open>-1022\<close>, the exponent of the
  smallest normal number (numbers below are subnormal and share its spacing), and an
  exponent of \<open>1024\<close> stands for every number beyond the range.
\<close>

fun halvings :: "nat \<Rightarrow> real \<Rightarrow> nat" where
  "halvings 0 x = 0"
| "halvings (Suc k) x = (if x < 2 then 0 else Suc (halvings k (x / 2)))"

fun doublings :: "nat \<Rightarrow> real \<Rightarrow> nat" where
  "doublings 0 x = 0"
| "doublings (Suc k) x = (if 1 \<le> x then 0 else Suc (doublings k (2 * x)))"

definition binary_exponent :: "real \<Rightarrow> int" where
  "binary_exponent x =
     (if 1 \<le> \<bar>x\<bar> then int (halvings 1024 \<bar>x\<bar>) else - int (doublings 1022 \<bar>x\<bar>))"

definition pow2 :: "int \<Rightarrow> real" where
  "pow2 k = (if 0 \<le> k then 2 ^ nat k else 1 / 2 ^ nat (- k))"

text \<open>To the nearest integer, a tie going to the even one.\<close>

definition round_half_even :: "real \<Rightarrow> int" where
  "round_half_even y =
     (let f = \<lfloor>y\<rfloor>
      in if y - of_int f < 1 / 2 then f
         else if 1 / 2 < y - of_int f then f + 1
         else if even f then f else f + 1)"

text \<open>
  The rounding every arithmetic operation ends with, in the default mode (to nearest, ties
  to even): the exact result is rounded to a multiple of the spacing of the doubles at
  its exponent, a significand of 53 bits, and a result that reaches \<open>2 ^ 1024\<close> is an
  infinity.
\<close>

definition round_to_double :: "real \<Rightarrow> double" where
  "round_to_double x =
     (let quantum = pow2 (binary_exponent x - 52);
          v = of_int (round_half_even (x / quantum)) * quantum
      in if 2 ^ 1024 \<le> \<bar>v\<bar> then Infinity (x < 0) else Finite v)"

text \<open>The real numbers that are doubles.\<close>

definition is_double :: "real \<Rightarrow> bool" where
  "is_double x \<longleftrightarrow> round_to_double x = Finite x"

text \<open>
  The operators \<^verbatim>\<open>/\<close>, \<^verbatim>\<open>*\<close> and \<^verbatim>\<open>-\<close> on doubles, each one rounded on its own
  (a product and a difference are not contracted into one fused operation).
\<close>

fun double_div :: "double \<Rightarrow> double \<Rightarrow> double" where
  "double_div (Finite x) (Finite y) =
     (if y = 0 then (if x = 0 then NaN else Infinity (x < 0)) else round_to_double (x / y))"
| "double_div (Finite x) (Infinity k) = Finite 0"
| "double_div (Infinity n) (Finite y) = Infinity (n \<noteq> (y < 0))"
| "double_div (Infinity n) (Infinity k) = NaN"
| "double_div NaN b = NaN"
| "double_div a NaN = NaN"

fun double_mul :: "double \<Rightarrow> double \<Rightarrow> double" where
  "double_mul (Finite x) (Finite y) = round_to_double (x * y)"
| "double_mul (Finite x) (Infinity k) = (if x = 0 then NaN else Infinity (k \<noteq> (x < 0)))"
| "double_mul (Infinity n) (Finite y) = (if y = 0 then NaN else Infinity (n \<noteq> (y < 0)))"
| "double_mul (Infinity n) (Infinity k) = Infinity (n \<noteq> k)"
| "double_mul NaN b = NaN"
| "double_mul a NaN = NaN"

fun double_sub :: "double \<Rightarrow> double \<Rightarrow> double" where
  "double_sub (Finite x) (Finite y) = round_to_double (x - y)"
| "double_sub (Finite x) (Infinity k) = Infinity (\<not> k)"
| "double_sub (Infinity n) (Finite y) = Infinity n"
| "double_sub (Infinity n) (Infinity k) = (if n = k then NaN else Infinity n)"
| "double_sub NaN b = NaN"
| "double_sub a NaN = NaN"

text \<open>
  C's \<^verbatim>\<open>round\<close>: to the nearest integer, halfway cases away from zero. The result is
  a double whenever the argument is.
\<close>

definition c_round :: "real \<Rightarrow> real" where
  "c_round x = (if 0 \<le> x then of_int \<lfloor>x + 1 / 2\<rfloor> else of_int \<lceil>x - 1 / 2\<rceil>)"

fun double_round :: "double \<Rightarrow> double" where
  "double_round (Finite x) = Finite (c_round x)"
| "double_round (Infinity n) = Infinity n"
| "double_round NaN = NaN"

fun double_fabs :: "double \<Rightarrow> double" where
  "double_fabs (Finite x) = Finite \<bar>x\<bar>"
| "double_fabs (Infinity n) = Infinity False"
| "double_fabs NaN = NaN"

text \<open>The comparison \<^verbatim>\<open>a > b\<close>, false when an operand is a NaN.\<close>

fun double_greater :: "double \<Rightarrow> double \<Rightarrow> bool" where
  "double_greater (Finite x) (Finite y) = (y < x)"
| "double_greater (Finite x) (Infinity k) = k"
| "double_greater (Infinity n) (Finite y) = (\<not> n)"
| "double_greater (Infinity n) (Infinity k) = (\<not> n \<and> k)"
| "double_greater NaN b = False"
| "double_greater a NaN = False"

section \<open>PreSolveChecks\<close>

text \<open>
  The left side of the last test,
  \<^verbatim>\<open>fabs(end_time - pde_time * round(end_time / pde_time))\<close>. The end time and the PDE
  time step are finite doubles read from the configuration. For a zero time step the
  quotient is an infinity or a NaN and its product with zero is a NaN; a quotient beyond
  the range is an infinity, and so is the residue then.
\<close>

definition time_step_residue :: "real \<Rightarrow> real \<Rightarrow> double" where
  "time_step_residue end_time pde_time =
     double_fabs
       (double_sub (Finite end_time)
          (double_mul (Finite pde_time)
             (double_round (double_div (Finite end_time) (Finite pde_time)))))"

text \<open>
  The literal \<^verbatim>\<open>1e-10\<close> is the double nearest to \<open>1 / 10 ^ 10\<close>. A NaN residue is
  not greater than it, so that the test does not throw for a zero time step.
\<close>

definition PreSolveChecks :: "problem \<Rightarrow> failure + unit" where
  "PreSolveChecks s =
     (if mpCardiacTissue s = None then
        Inl (Exception ''Cardiac tissue is null, Initialise() probably hasn't been called'')
      else if SimulationDuration (config s) \<le> mCurrentTime s then
        Inl (Exception ''End time should be in the future'')
      else if mPrintOutput s \<and>
              (OutputDirectory (config s) = [] \<or> OutputFilenamePrefix (config s) = []) then
        Inl (Exception ''Either explicitly specify not to print output (call PrintOutput(false)) or specify the output directory and filename prefix'')
      else
        let end_time = SimulationDuration (config s);
            pde_time = PdeTimeStep (config s)
        in if double_greater (time_step_residue end_time pde_time)
                (round_to_double (1 / 10 ^ 10)) then
             Inl (Exception ''PDE timestep does not seem to divide end time - check parameters'')
           else Inr ())"

section \<open>CreateInitialCondition\<close>

text \<open>
  \<^verbatim>\<open>DistributedVector::Stripe(ic, i)[idx]\<close> is the entry of stacked unknown \<open>i\<close> at
  node \<open>idx\<close>: position \<open>idx * PROBLEM_DIM + i\<close> of the vector. The body of the loop
  over the locally owned nodes:
\<close>

definition stripe_index :: "env \<Rightarrow> nat \<Rightarrow> nat \<Rightarrow> nat" where
  "stripe_index e i node = node * PROBLEM_DIM e + i"

definition seed_node :: "env \<Rightarrow> nat \<Rightarrow> real list \<Rightarrow> real list" where
  "seed_node e node d =
     (let d1 = d[stripe_index e 0 node := cell_voltage e node]
      in if PROBLEM_DIM e = 2 then d1[stripe_index e 1 node := 0] else d1)"

text \<open>
  The function is protected and only called by \<^verbatim>\<open>Solve\<close>, after
  \<^verbatim>\<open>PreSolveChecks\<close> has found the tissue, whose cells it reads.
\<close>

definition CreateInitialCondition :: "env \<Rightarrow> mesh \<Rightarrow> problem \<Rightarrow> Vec \<times> problem" where
  "CreateInitialCondition e m s =
     (let (initial_condition, s1) = CreateVec e m (PROBLEM_DIM e) s;
          d = fold (seed_node e) [local_lo m ..< local_hi m] (vec_data s1 initial_condition)
      in (initial_condition, s1\<lparr>vec_data := (vec_data s1)(initial_condition := d)\<rparr>))"

section \<open>TimeStepper\<close>

text \<open>
  Modelled from the spec: \<^verbatim>\<open>TimeStepper::GetNextTime\<close> (\<^verbatim>\<open>TimeStepper.hpp\<close> is
  included, the code of the class is not part of the sources). The spec gives the stepper
  as a finite sequence of time points: the next boundary is the minimum of the current
  time plus the regular interval and the next unvisited mandatory stopping time, clipped
  to the end time, and the sequence ends when the end time is reached. Comparisons are
  exact here. The spec describes the stepper for a positive interval.
\<close>

definition next_boundary :: "real \<Rightarrow> real \<Rightarrow> real \<Rightarrow> real list \<Rightarrow> real" where
  "next_boundary t end_time dt stops =
     min end_time (foldr min (filter (\<lambda>x. t < x) stops) (t + dt))"

text \<open>
  Modelled from the spec: the time points of \<^verbatim>\<open>TimeStepper\<close> from time \<open>t\<close> on,
  each the next boundary of the one before, until the end time is reached.
\<close>

fun stepper_points :: "nat \<Rightarrow> real \<Rightarrow> real \<Rightarrow> real \<Rightarrow> real list \<Rightarrow> real list" where
  "stepper_points 0 t end_time dt stops = []"
| "stepper_points (Suc k) t end_time dt stops =
     (if end_time \<le> t then []
      else let n = next_boundary t end_time dt stops
           in n # stepper_points k n end_time dt stops)"

text \<open>
  Modelled from the spec: the constructor of \<^verbatim>\<open>TimeStepper\<close>, giving the sequence of
  the times \<^verbatim>\<open>GetNextTime()\<close> takes until \<^verbatim>\<open>IsTimeAtEnd()\<close>. The number of steps
  is at most the number of regular intervals plus the number of stopping times.
\<close>

definition TimeStepper :: "real \<Rightarrow> real \<Rightarrow> real \<Rightarrow> real list \<Rightarrow> real list" where
  "TimeStepper start end_time dt stops =
     stepper_points (nat \<lceil>(end_time - start) / dt\<rceil> + length stops) start end_time dt stops"

section \<open>The checkpoint writer\<close>

text \<open>
  The classes \<^verbatim>\<open>Hdf5DataWriter\<close> and \<^verbatim>\<open>Hdf5DataReader\<close> are not part of the
  sources; their operations are modelled from the spec. A writer is opened either in
  define mode on a new, empty file or in extend mode on the existing file; columns are
  defined by name in define mode and looked up by name in extend mode; a row is one value
  of the unlimited dimension with the vectors put under the column ids, and it is
  appended to the file, whole, when the writer advances along the unlimited dimension;
  closing releases the handle.
\<close>

text \<open>
  Modelled from the spec: the constructor of \<^verbatim>\<open>Hdf5DataWriter\<close>, which opens the
  existing file to extend it or replaces it by a new one.
\<close>

definition Hdf5DataWriter :: "bool \<Rightarrow> problem \<Rightarrow> problem" where
  "Hdf5DataWriter ext s =
     s\<lparr>mpWriter := Some \<lparr>w_extending = ext, w_define_mode = \<not> ext, w_estimate = 0,
                          w_time = None, w_pending = [],
                          w_cursor = (if ext then (case h5_file s of None \<Rightarrow> 0
                                                     | Some f \<Rightarrow> length (h5_rows f)) else 0),
                          w_chunk = 0, w_cache = mUseHdf5DataWriterCache s,
                          w_permuted = False\<rparr>,
       h5_file := (if ext then h5_file s
                   else Some \<lparr>h5_columns = [], h5_fixed_dim = 0, h5_rows = []\<rparr>)\<rparr>"

definition update_writer :: "(writer \<Rightarrow> writer) \<Rightarrow> problem \<Rightarrow> problem" where
  "update_writer f s = s\<lparr>mpWriter := map_option f (mpWriter s)\<rparr>"

definition update_file :: "(h5file \<Rightarrow> h5file) \<Rightarrow> problem \<Rightarrow> problem" where
  "update_file f s = s\<lparr>h5_file := map_option f (h5_file s)\<rparr>"

definition file_columns :: "problem \<Rightarrow> string list" where
  "file_columns s = (case h5_file s of None \<Rightarrow> [] | Some f \<Rightarrow> h5_columns f)"

text \<open>Modelled from the spec: \<^verbatim>\<open>Hdf5DataWriter::DefineVariable\<close>, giving the column id.\<close>

definition DefineVariable :: "string \<Rightarrow> problem \<Rightarrow> nat \<times> problem" where
  "DefineVariable name s =
     (length (file_columns s), update_file (\<lambda>f. f\<lparr>h5_columns := h5_columns f @ [name]\<rparr>) s)"

fun index_of :: "string \<Rightarrow> string list \<Rightarrow> nat option" where
  "index_of name [] = None"
| "index_of name (c # cs) =
     (if c = name then Some 0 else map_option Suc (index_of name cs))"

text \<open>
  Modelled from the spec: \<^verbatim>\<open>Hdf5DataWriter::GetVariableByName\<close>, the lookup of a column
  by its name; a name the file does not hold has no column id, and the lookup throws.
\<close>

definition GetVariableByName :: "string \<Rightarrow> problem \<Rightarrow> failure + nat" where
  "GetVariableByName name s =
     (case index_of name (file_columns s) of
        None \<Rightarrow> Inl (Exception ''Variable does not exist in hdf5 definitions'')
      | Some i \<Rightarrow> Inr i)"

text \<open>
  Modelled from the spec: \<^verbatim>\<open>PutUnlimitedVariable\<close> and \<^verbatim>\<open>PutVector\<close> of
  \<^verbatim>\<open>Hdf5DataWriter\<close> set the time and one column of the row being written.
\<close>

definition PutUnlimitedVariable :: "real \<Rightarrow> problem \<Rightarrow> failure + problem" where
  "PutUnlimitedVariable t s =
     (case mpWriter s of None \<Rightarrow> Inl UndefinedBehaviour
      | Some w \<Rightarrow> Inr (s\<lparr>mpWriter := Some (w\<lparr>w_time := Some t\<rparr>)\<rparr>))"

text \<open>Modelled from the spec: \<^verbatim>\<open>Hdf5DataWriter::PutVector\<close>, see above.\<close>

definition PutVector :: "nat \<Rightarrow> real list \<Rightarrow> problem \<Rightarrow> failure + problem" where
  "PutVector col d s =
     (case mpWriter s of None \<Rightarrow> Inl UndefinedBehaviour
      | Some w \<Rightarrow> Inr (s\<lparr>mpWriter := Some (w\<lparr>w_pending := w_pending w @ [(col, d)]\<rparr>)\<rparr>))"

text \<open>
  Modelled from the spec: \<^verbatim>\<open>Hdf5DataWriter::AdvanceAlongUnlimitedDimension\<close> appends
  the row written, if any, and moves the cursor.
\<close>

definition AdvanceAlongUnlimitedDimension :: "problem \<Rightarrow> failure + problem" where
  "AdvanceAlongUnlimitedDimension s =
     (case mpWriter s of None \<Rightarrow> Inl UndefinedBehaviour
      | Some w \<Rightarrow>
          let s1 = (if w_time w = None \<and> w_pending w = [] then s
                    else update_file (\<lambda>f. f\<lparr>h5_rows := h5_rows f @
                           [(case w_time w of None \<Rightarrow> 0 | Some t \<Rightarrow> t, w_pending w)]\<rparr>) s)
          in Inr (s1\<lparr>mpWriter := Some (w\<lparr>w_time := None, w_pending := [],
                                          w_cursor := Suc (w_cursor w)\<rparr>)\<rparr>))"

text \<open>\<^verbatim>\<open>delete mpWriter; mpWriter = nullptr;\<close> closes the file when a writer is open.\<close>

definition delete_writer :: "problem \<Rightarrow> problem" where
  "delete_writer s =
     (case mpWriter s of None \<Rightarrow> s | Some w \<Rightarrow> (emit CloseWriter s)\<lparr>mpWriter := None\<rparr>)"

section \<open>DefineWriterColumns and InitialiseWriter\<close>

definition DefineWriterColumns :: "env \<Rightarrow> mesh \<Rightarrow> bool \<Rightarrow> problem \<Rightarrow> (failure + unit) \<times> problem" where
  "DefineWriterColumns e m extending s =
     (if mpWriter s = None then (Inl UndefinedBehaviour, s)
      else if \<not> extending then
        let fixed = (if mNodesToOutput s = [] then NumNodes m else length (mNodesToOutput s));
            s1 = update_file (\<lambda>f. f\<lparr>h5_fixed_dim := fixed\<rparr>) s;
            (column_id, s2) = DefineVariable ''V'' s1;
            s3 = s2\<lparr>mVoltageColumnId := column_id\<rparr>;
            stepper = TimeStepper (mCurrentTime s3) (SimulationDuration (config s3))
                        (PrintingTimeStep (config s3)) []
        in (Inr (), update_writer (\<lambda>w. w\<lparr>w_estimate := length stepper + 1\<rparr>) s3)
      else
        (case GetVariableByName ''V'' s of
           Inl x \<Rightarrow> (Inl x, s)
         | Inr column_id \<Rightarrow> (Inr (), s\<lparr>mVoltageColumnId := column_id\<rparr>)))"

definition ResumeConflict :: failure where
  "ResumeConflict = Exception ''Attempting to extend the file with results from the current time, but it already contains results up to a later time. Calling HeartConfig::Instance()->SetOutputDirectory() before Solve() will direct results elsewhere.''"

text \<open>
  The test for extension: the file is read only when a solution is held and the file
  exists. The times \<^verbatim>\<open>Hdf5DataReader::GetUnlimitedDimensionValues\<close> returns are those
  of the rows; \<^verbatim>\<open>times.back()\<close> is undefined for a file without rows.
\<close>

definition extension_check :: "problem \<Rightarrow> failure + bool" where
  "extension_check s =
     (if mSolution s \<noteq> None then
        (case h5_file s of
           None \<Rightarrow> Inr False
         | Some f \<Rightarrow>
             let times = map fst (h5_rows f)
             in if times = [] then Inl UndefinedBehaviour
                else if last times > mCurrentTime s then Inl ResumeConflict
                else Inr True)
      else Inr False)"

definition InitialiseWriter :: "env \<Rightarrow> mesh \<Rightarrow> problem \<Rightarrow> (failure + bool) \<times> problem" where
  "InitialiseWriter e m s =
     (if mpWriter s \<noteq> None then (Inl (AssertionFailure ''!mpWriter''), s)
      else case extension_check s of
        Inl x \<Rightarrow> (Inl x, s)
      | Inr extend_file \<Rightarrow>
          let s1 = Hdf5DataWriter extend_file s;
              s2 = (if \<not> extend_file \<and> mHdf5DataWriterChunkSizeAndAlignment s1 \<noteq> 0
                    then update_writer
                           (\<lambda>w. w\<lparr>w_chunk := mHdf5DataWriterChunkSizeAndAlignment s1\<rparr>) s1
                    else s1)
          in (case DefineWriterColumns e m extend_file s2 of
               (Inl x, s3) \<Rightarrow> (Inl x, s3)
             | (Inr _, s3) \<Rightarrow>
                 let s4 = (if OutputUsingOriginalNodeOrdering (config s3) then
                             (if ApplyPermutation_ok e
                              then update_writer (\<lambda>w. w\<lparr>w_permuted := True\<rparr>) s3
                              else s3\<lparr>config := (config s3)
                                       \<lparr>OutputUsingOriginalNodeOrdering := False\<rparr>\<rparr>)
                           else s3);
                     s5 = (if \<not> extend_file
                           then update_writer (\<lambda>w. w\<lparr>w_define_mode := False\<rparr>) s4
                           else s4)
                 in (Inr extend_file, s5)))"

section \<open>WriteExtraVariablesOneStep\<close>

text \<open>\<^verbatim>\<open>std::string::find\<close>: the position of the first occurrence, if any.\<close>

fun find_str :: "string \<Rightarrow> string \<Rightarrow> nat option" where
  "find_str pat [] = (if pat = [] then Some 0 else None)"
| "find_str pat (c # cs) =
     (if take (length pat) (c # cs) = pat then Some 0
      else map_option Suc (find_str pat cs))"

text \<open>
  \<^verbatim>\<open>std::stoi(str, nullptr)\<close>: leading white space is skipped, an optional sign and
  the longest run of decimal digits are read; no digit gives \<^verbatim>\<open>std::invalid_argument\<close>
  and a value outside \<^verbatim>\<open>int\<close> gives \<^verbatim>\<open>std::out_of_range\<close>.
\<close>

definition isspace :: "char \<Rightarrow> bool" where
  "isspace c = (of_char c = (32::nat) \<or> ((9::nat) \<le> of_char c \<and> of_char c \<le> (13::nat)))"

definition isdigit :: "char \<Rightarrow> bool" where
  "isdigit c = ((48::nat) \<le> of_char c \<and> of_char c \<le> (57::nat))"

definition digits_value :: "string \<Rightarrow> int" where
  "digits_value ds = foldl (\<lambda>a c. 10 * a + (int (of_char c) - 48)) 0 ds"

definition stoi :: "string \<Rightarrow> failure + int" where
  "stoi str =
     (let s1 = dropWhile isspace str;
          negative = (s1 \<noteq> [] \<and> hd s1 = CHR ''-'');
          s2 = (if s1 \<noteq> [] \<and> (hd s1 = CHR ''-'' \<or> hd s1 = CHR ''+'') then tl s1 else s1);
          ds = takeWhile isdigit s2
      in if ds = [] then Inl StdInvalidArgument
         else let v = (if negative then - digits_value ds else digits_value ds)
              in if v < - (2 ^ 31) \<or> 2 ^ 31 - 1 < v then Inl StdOutOfRange else Inr v)"

text \<open>
  The name of the variable and the index of the cell model it is read from. The index
  is held in a \<^verbatim>\<open>size_t\<close>, to which the \<^verbatim>\<open>int\<close> of \<^verbatim>\<open>stoi\<close> is converted.
\<close>

definition split_variable :: "string \<Rightarrow> failure + string \<times> nat" where
  "split_variable output_variable =
     (case find_str ''__IDX__'' output_variable of
        None \<Rightarrow> Inr (output_variable, 0)
      | Some cell_idx \<Rightarrow>
          (case stoi (drop (cell_idx + 7) output_variable) of
             Inl x \<Rightarrow> Inl x
           | Inr v \<Rightarrow> Inr (take cell_idx output_variable, nat (v mod 2 ^ 64))))"

text \<open>The loop over the locally owned nodes, gathering one variable.\<close>

fun gather :: "env \<Rightarrow> mesh \<Rightarrow> real \<Rightarrow> string \<Rightarrow> nat \<Rightarrow> nat list \<Rightarrow> real list
                 \<Rightarrow> failure + real list" where
  "gather e m t var_name cell_idx [] d = Inr d"
| "gather e m t var_name cell_idx (node # nodes) d =
     (if IsRegionBath e (node_region m node) then
        gather e m t var_name cell_idx nodes (d[node := 0])
      else if cell_idx < 3 then
        gather e m t var_name cell_idx nodes (d[node := cell_variable e cell_idx node var_name t])
      else Inl NeverReached)"

text \<open>The loop over the requested variables, each paired with its column id.\<close>

fun write_variables :: "env \<Rightarrow> mesh \<Rightarrow> (string \<times> nat) list \<Rightarrow> problem
                         \<Rightarrow> (failure + unit) \<times> problem" where
  "write_variables e m [] s = (Inr (), s)"
| "write_variables e m ((output_variable, column_id) # rest) s =
     (let (variable_data, s1) = CreateVec e m 1 s
      in case split_variable output_variable of
           Inl x \<Rightarrow> (Inl x, s1)
         | Inr (var_name, cell_idx) \<Rightarrow>
             (case gather e m (mCurrentTime s1) var_name cell_idx
                     [local_lo m ..< local_hi m] (vec_data s1 variable_data) of
                Inl x \<Rightarrow> (Inl x, s1)
              | Inr d \<Rightarrow>
                  (case PutVector column_id d
                          (s1\<lparr>vec_data := (vec_data s1)(variable_data := d)\<rparr>) of
                     Inl x \<Rightarrow> (Inl x, s1\<lparr>vec_data := (vec_data s1)(variable_data := d)\<rparr>)
                   | Inr s2 \<Rightarrow> write_variables e m rest (Destroy variable_data s2))))"

definition WriteExtraVariablesOneStep :: "env \<Rightarrow> mesh \<Rightarrow> problem \<Rightarrow> (failure + unit) \<times> problem" where
  "WriteExtraVariablesOneStep e m s =
     (let num_vars = length (mExtraVariablesId s);
          output_variables = (if num_vars > 0 then OutputVariables (config s) else [])
      in if length output_variables \<noteq> num_vars then
           (Inl (AssertionFailure ''output_variables.size() == num_vars''), s)
         else write_variables e m (zip output_variables (mExtraVariablesId s)) s)"

text \<open>
  Modelled from the spec: \<^verbatim>\<open>WriteOneStep\<close> is pure virtual in this class and its
  overrides are not part of the sources. One row holds the time, the field vector under
  the voltage column and the extra variables.
\<close>

definition WriteOneStep :: "env \<Rightarrow> mesh \<Rightarrow> real \<Rightarrow> Vec \<Rightarrow> problem \<Rightarrow> (failure + unit) \<times> problem" where
  "WriteOneStep e m time voltageVec s =
     (case PutUnlimitedVariable time s of
        Inl x \<Rightarrow> (Inl x, s)
      | Inr s1 \<Rightarrow>
          (case PutVector (mVoltageColumnId s1) (vec_data s1 voltageVec) s1 of
             Inl x \<Rightarrow> (Inl x, s1)
           | Inr s2 \<Rightarrow> WriteExtraVariablesOneStep e m s2))"

text \<open>\<^verbatim>\<open>WriteOneStep\<close> followed by \<^verbatim>\<open>mpWriter->AdvanceAlongUnlimitedDimension()\<close>.\<close>

definition write_and_advance :: "env \<Rightarrow> mesh \<Rightarrow> real \<Rightarrow> Vec \<Rightarrow> problem \<Rightarrow> (failure + unit) \<times> problem" where
  "write_and_advance e m time voltageVec s =
     (case WriteOneStep e m time voltageVec s of
        (Inl x, s1) \<Rightarrow> (Inl x, s1)
      | (Inr _, s1) \<Rightarrow>
          (case AdvanceAlongUnlimitedDimension s1 of
             Inl x \<Rightarrow> (Inl x, s1)
           | Inr s2 \<Rightarrow> (Inr (), s2)))"

section \<open>CloseFilesAndPostProcess\<close>

definition emit_if :: "bool \<Rightarrow> event \<Rightarrow> problem \<Rightarrow> problem" where
  "emit_if b ev s = (if b then emit ev s else s)"

definition CloseFilesAndPostProcess :: "problem \<Rightarrow> problem" where
  "CloseFilesAndPostProcess s =
     (if \<not> mPrintOutput s then s
      else
        let s1 = delete_writer s;
            s2 = emit_if (PostProcessingRequested (config s1)) PostProcessingFiles s1
        in if mNodesToOutput s2 = [] then
             (emit_if (VisualizeWithParallelVtk (config s2)) ConvertParallelVtk
               (emit_if (VisualizeWithVtk (config s2)) ConvertVtk
                 (emit_if (VisualizeWithCmgui (config s2)) ConvertCmgui
                   (emit_if (VisualizeWithMeshalyzer (config s2)) ConvertMeshalyzer s2))))
           else s2)"

section \<open>Solve\<close>

text \<open>
  The handler of a failed \<^verbatim>\<open>InitialiseWriter\<close>: the writer is deleted and its
  pointer cleared, the solver is deleted (its pointer is left as it is), and the initial
  condition is destroyed when it is not the held solution.
\<close>

definition delete_solver :: "problem \<Rightarrow> problem" where
  "delete_solver s = (case mpSolver s of None \<Rightarrow> s | Some a \<Rightarrow> Destroy a s)"

definition writer_failure_handler :: "Vec \<Rightarrow> problem \<Rightarrow> problem" where
  "writer_failure_handler initial_condition s =
     (let s1 = delete_writer s;
          s2 = delete_solver s1
      in if mSolution s2 \<noteq> Some initial_condition then Destroy initial_condition s2 else s2)"

text \<open>The block \<^verbatim>\<open>if (mPrintOutput) { ... }\<close> before the loop.\<close>

definition open_output :: "env \<Rightarrow> mesh \<Rightarrow> Vec \<Rightarrow> problem \<Rightarrow> (failure + unit) \<times> problem" where
  "open_output e m initial_condition s =
     (if mPrintOutput s then
        (case InitialiseWriter e m s of
           (Inl (Exception msg), s1) \<Rightarrow>
             (Inl (Exception msg), writer_failure_handler initial_condition s1)
         | (Inl x, s1) \<Rightarrow> (Inl x, s1)
         | (Inr extending_file, s1) \<Rightarrow>
             if \<not> (mSolution s1 \<noteq> None \<and> extending_file)
             then write_and_advance e m (mCurrentTime s1) initial_condition s1
             else (Inr (), s1))
      else (Inr (), s))"

text \<open>The handler of a failed \<^verbatim>\<open>mpSolver->Solve()\<close>, up to the re-throw.\<close>

definition solver_failure_handler :: "Vec \<Rightarrow> problem \<Rightarrow> problem" where
  "solver_failure_handler initial_condition s =
     (let s1 = (delete_solver s)\<lparr>mpSolver := None\<rparr>;
          s2 = (if Some initial_condition \<noteq> mSolution s1
                then Destroy initial_condition s1 else s1)
      in CloseFilesAndPostProcess s2)"

text \<open>Every registered output modifier is given the time and the solution.\<close>

definition notify_modifiers :: "real \<Rightarrow> Vec \<Rightarrow> problem \<Rightarrow> problem" where
  "notify_modifiers time solution s =
     fold (\<lambda>p. emit (ModifierProcessSolution p time solution)) (mOutputModifiers s) s"

definition finalise_modifiers :: "problem \<Rightarrow> problem" where
  "finalise_modifiers s = fold (\<lambda>p. emit (ModifierFinaliseAtEnd p)) (mOutputModifiers s) s"

text \<open>
  What the loop does with the vector the solver returned: it becomes the held solution,
  the old initial condition is destroyed, the time advances to the next time of the
  stepper, and progress is reported to the user and to the output modifiers.
\<close>

definition adopt_solution :: "real list \<Rightarrow> Vec \<Rightarrow> real \<Rightarrow> problem \<Rightarrow> Vec \<times> problem" where
  "adopt_solution d initial_condition next_time s =
     (let (solution, s1) = alloc s;
          s2 = s1\<lparr>vec_data := (vec_data s1)(solution := d), mSolution := Some solution\<rparr>;
          s3 = Destroy initial_condition s2;
          s4 = s3\<lparr>mCurrentTime := next_time\<rparr>;
          s5 = emit_if (mWriteInfo s4) (WriteInfo next_time) s4
      in (solution, notify_modifiers next_time solution s5))"

text \<open>
  One pass of the loop, from time \<open>t\<close> to the next time of the stepper. The solver
  returns a new vector or throws; the pass returns the initial condition of the next one.
\<close>

definition Solve_step :: "env \<Rightarrow> mesh \<Rightarrow> real \<Rightarrow> real \<Rightarrow> Vec \<Rightarrow> problem \<Rightarrow> (failure + Vec) \<times> problem" where
  "Solve_step e m t next_time initial_condition s =
     (let s1 = emit (AtBeginningOfTimestep t)
                 (emit (SolverSetInitialCondition initial_condition)
                   (emit (SolverSetTimes t next_time) s))
      in case solver_Solve e t next_time (vec_data s1 initial_condition) of
           Inl msg \<Rightarrow> (Inl (Exception msg), solver_failure_handler initial_condition s1)
         | Inr d \<Rightarrow>
             let (solution, s2) = adopt_solution d initial_condition next_time s1
             in if mPrintOutput s2 then
                  (case write_and_advance e m next_time solution s2 of
                     (Inl x, s3) \<Rightarrow> (Inl x, s3)
                   | (Inr _, s3) \<Rightarrow> (Inr solution, emit (OnEndOfTimestep next_time) s3))
                else (Inr solution, emit (OnEndOfTimestep next_time) s2))"

text \<open>The loop \<^verbatim>\<open>while (!stepper.IsTimeAtEnd())\<close> over the remaining time points.\<close>

fun Solve_loop :: "env \<Rightarrow> mesh \<Rightarrow> real \<Rightarrow> real list \<Rightarrow> Vec \<Rightarrow> problem \<Rightarrow> (failure + Vec) \<times> problem" where
  "Solve_loop e m t [] initial_condition s = (Inr initial_condition, s)"
| "Solve_loop e m t (next_time # rest) initial_condition s =
     (case Solve_step e m t next_time initial_condition s of
        (Inl x, s1) \<Rightarrow> (Inl x, s1)
      | (Inr solution, s1) \<Rightarrow> Solve_loop e m next_time rest solution s1)"

text \<open>What follows the loop on normal completion.\<close>

definition Solve_finish :: "problem \<Rightarrow> problem" where
  "Solve_finish s =
     (let s1 = (delete_solver s)\<lparr>mpSolver := None\<rparr>;
          s2 = finalise_modifiers s1
      in CloseFilesAndPostProcess s2)"

text \<open>
  \<^verbatim>\<open>auto initial_condition = mSolution ? mSolution : CreateInitialCondition();\<close>
\<close>

definition initial_condition_of :: "env \<Rightarrow> mesh \<Rightarrow> problem \<Rightarrow> Vec \<times> problem" where
  "initial_condition_of e m s =
     (case mSolution s of
        Some v \<Rightarrow> (v, s)
      | None \<Rightarrow> CreateInitialCondition e m s)"

text \<open>The default boundary conditions, set up when the user supplied none.\<close>

definition default_boundary_conditions :: "env \<Rightarrow> problem \<Rightarrow> problem" where
  "default_boundary_conditions e s =
     (if mpBoundaryConditionsContainer s = None
      then s\<lparr>mpDefaultBoundaryConditionsContainer := Some (DefaultZeroNeumann (PROBLEM_DIM e)),
              mpBoundaryConditionsContainer := Some (DefaultZeroNeumann (PROBLEM_DIM e))\<rparr>
      else s)"

text \<open>
  The output modifiers are initialised and given the initial condition, and the solver
  is given its time step and the adaptivity controller.
\<close>

definition start_modifiers :: "Vec \<Rightarrow> problem \<Rightarrow> problem" where
  "start_modifiers initial_condition s =
     fold (\<lambda>p s'. emit (ModifierProcessSolution p (mCurrentTime s') initial_condition)
                     (emit (ModifierInitialiseAtStart p) s'))
       (mOutputModifiers s) s"

definition configure_solver :: "problem \<Rightarrow> problem" where
  "configure_solver s =
     (let s1 = emit (SolverSetTimeStep (PdeTimeStep (config s))) s
      in case mpTimeAdaptivityController s1 of
           None \<Rightarrow> s1
         | Some c \<Rightarrow> emit (SolverSetTimeAdaptivityController c) s1)"

text \<open>\<^verbatim>\<open>Solve\<close> from the end of the output block.\<close>

definition Solve_run :: "env \<Rightarrow> mesh \<Rightarrow> real list \<Rightarrow> Vec \<Rightarrow> problem \<Rightarrow> (failure + unit) \<times> problem" where
  "Solve_run e m stepper initial_condition s =
     (let s1 = configure_solver (start_modifiers initial_condition s)
      in case Solve_loop e m (mCurrentTime s1) stepper initial_condition s1 of
           (Inl x, s2) \<Rightarrow> (Inl x, s2)
         | (Inr _, s2) \<Rightarrow> (Inr (), Solve_finish s2))"

text \<open>
  \<^verbatim>\<open>Solve\<close> up to the end of the output block: the checks, the stepper, the
  boundary conditions, the solver, the initial condition and the writer. The mesh is
  dereferenced throughout; a null mesh under a non-null tissue does not arise from
  \<^verbatim>\<open>Initialise\<close> and is undefined behaviour.
\<close>

definition Solve_prepare :: "env \<Rightarrow> problem \<Rightarrow> (failure + mesh \<times> real list \<times> Vec) \<times> problem" where
  "Solve_prepare e s =
     (case PreSolveChecks s of
        Inl x \<Rightarrow> (Inl x, s)
      | Inr _ \<Rightarrow>
          (case mpMesh s of
             None \<Rightarrow> (Inl UndefinedBehaviour, s)
           | Some m \<Rightarrow>
               let stepper = TimeStepper (mCurrentTime s) (SimulationDuration (config s))
                               (PrintingTimeStep (config s)) (AdditionalStoppingTimes e);
                   s1 = default_boundary_conditions e s
               in if mpSolver s1 \<noteq> None then
                    (Inl (AssertionFailure ''mpSolver == nullptr''), s1)
                  else
                    let (solver, s2) = alloc s1;
                        s3 = s2\<lparr>mpSolver := Some solver\<rparr>;
                        (initial_condition, s4) = initial_condition_of e m s3
                    in (case open_output e m initial_condition s4 of
                          (Inl x, s5) \<Rightarrow> (Inl x, s5)
                        | (Inr _, s5) \<Rightarrow> (Inr (m, stepper, initial_condition), s5))))"

text \<open>
  \<^verbatim>\<open>Solve\<close> returns the failure it ends with, or \<open>Inr ()\<close>, and the state it leaves.
\<close>

definition Solve :: "env \<Rightarrow> problem \<Rightarrow> (failure + unit) \<times> problem" where
  "Solve e s =
     (case Solve_prepare e s of
        (Inl x, s1) \<Rightarrow> (Inl x, s1)
      | (Inr (m, stepper, initial_condition), s1) \<Rightarrow>
          Solve_run e m stepper initial_condition s1)"

section \<open>Initialise\<close>

text \<open>
  The mesh a call of \<^verbatim>\<open>CreateMeshFromHeartConfig\<close> leaves before it is constructed.
\<close>

definition new_mesh :: mesh where
  "new_mesh = \<lparr>NumNodes = 0, local_lo = 0, local_hi = 0, node_region = (\<lambda>_. 0)\<rparr>"

text \<open>
  The exception of the handler in \<^verbatim>\<open>Initialise\<close>: the fixed text, a newline, and
  the short message of the exception caught.
\<close>

definition No_mesh_given :: "string \<Rightarrow> failure" where
  "No_mesh_given short_message =
     Exception (''No mesh given: define it in XML parameters file or call SetMesh()'' @
                [CHR 0x0A] @ short_message)"

definition CreateMeshFromHeartConfig :: "problem \<Rightarrow> problem" where
  "CreateMeshFromHeartConfig s = s\<lparr>mpMesh := Some new_mesh\<rparr>"

text \<open>
  The first part of \<^verbatim>\<open>Initialise\<close>: a mesh that was supplied is kept, otherwise one
  is obtained from the configuration, and any \<^verbatim>\<open>Exception\<close> on the way is turned
  into "No mesh given". The state returned with a failure is the one the call leaves.
\<close>

definition obtain_mesh :: "env \<Rightarrow> problem \<Rightarrow> (failure + unit) \<times> problem" where
  "obtain_mesh e s =
     (if mpMesh s \<noteq> None then (Inr (), s)
      else if LoadMesh (config s) then
        (let s1 = CreateMeshFromHeartConfig s
         in case MeshReaderResult e of
              Inl msg \<Rightarrow> (Inl (No_mesh_given msg), s1)
            | Inr m \<Rightarrow> (Inr (), s1\<lparr>mpMesh := Some m, mAllocatedMemoryForMesh := True\<rparr>))
      else if CreateMesh (config s) then
        (let s1 = CreateMeshFromHeartConfig s
         in if SpaceDimension (config s1) \<noteq> SPACE_DIM e then
              (Inl (AssertionFailure ''HeartConfig::Instance()->GetSpaceDimension() == SPACE_DIM''), s1)
            else if SpaceDimension (config s1) \<in> {1, 2, 3} then
              (case SlabMeshResult e of
                 Inl msg \<Rightarrow> (Inl (No_mesh_given msg), s1)
               | Inr m \<Rightarrow> (Inr (), s1\<lparr>mpMesh := Some m, mAllocatedMemoryForMesh := True\<rparr>))
            else (Inl NeverReached, s1))
      else (Inl NeverReached, s))"

definition Initialise :: "env \<Rightarrow> problem \<Rightarrow> (failure + unit) \<times> problem" where
  "Initialise e s =
     (case obtain_mesh e s of
        (Inl x, s1) \<Rightarrow> (Inl x, s1)
      | (Inr _, s1) \<Rightarrow>
          let s2 = emit CellFactorySetMesh s1;
              s3 = emit_if (CellularTransmuralHeterogeneitiesRequested (config s2))
                     FillInCellularTransmuralAreas s2;
              s4 = (case mpCardiacTissue s3 of None \<Rightarrow> s3 | Some a \<Rightarrow> Destroy a s3);
              (tissue, s5) = alloc s4;
              s6 = s5\<lparr>mpCardiacTissue := Some tissue\<rparr>;
              s7 = (case mSolution s6 of
                      None \<Rightarrow> s6
                    | Some v \<Rightarrow> (Destroy v s6)\<lparr>mSolution := None\<rparr>);
              s8 = s7\<lparr>mCurrentTime := 0\<rparr>
          in (Inr (), emit SetElectrodes s8))"

section \<open>Invariants of the allocator\<close>

text \<open>
  The allocator is in order when no address has been released twice, every released
  address has been allocated, and the held solution, if any, is allocated and not
  released.
\<close>

definition heap_ok :: "problem \<Rightarrow> bool" where
  "heap_ok s \<longleftrightarrow>
     distinct (released s) \<and> (\<forall>a \<in> set (released s). a < next_addr s) \<and>
     (\<forall>v. mSolution s = Some v \<longrightarrow> v < next_addr s \<and> v \<notin> set (released s))"

text \<open>
  At the head of the loop of \<^verbatim>\<open>Solve\<close>, moreover, the initial condition is
  allocated and not released, the held solution is null or the initial condition, and the
  solver is allocated, not released and not the initial condition.
\<close>

definition loop_inv :: "Vec \<Rightarrow> problem \<Rightarrow> bool" where
  "loop_inv ic s \<longleftrightarrow>
     distinct (released s) \<and> (\<forall>a \<in> set (released s). a < next_addr s) \<and>
     ic < next_addr s \<and> ic \<notin> set (released s) \<and>
     (mSolution s = None \<or> mSolution s = Some ic) \<and>
     (\<exists>sv. mpSolver s = Some sv \<and> sv < next_addr s \<and> sv \<notin> set (released s) \<and> sv \<noteq> ic)"

text \<open>
  Writing output changes the writer and the file, and allocates, fills and releases
  temporary vectors: the addresses released are new and released once, and the vectors
  allocated before keep their contents.
\<close>

definition output_step :: "problem \<Rightarrow> problem \<Rightarrow> bool" where
  "output_step s s' \<longleftrightarrow>
     (\<exists>n new wr vd hf.
        s' = s\<lparr>next_addr := n, released := released s @ new, mpWriter := wr,
               vec_data := vd, h5_file := hf\<rparr> \<and>
        next_addr s \<le> n \<and> distinct new \<and> (\<forall>a \<in> set new. next_addr s \<le> a \<and> a < n) \<and>
        (\<forall>a < next_addr s. vd a = vec_data s a))"

text \<open>The events of \<^verbatim>\<open>CloseFilesAndPostProcess\<close> after the writer is closed.\<close>

definition post_processing_events :: "problem \<Rightarrow> event list" where
  "post_processing_events s =
     (if PostProcessingRequested (config s) then [PostProcessingFiles] else []) @
     (if mNodesToOutput s = [] then
        (if VisualizeWithMeshalyzer (config s) then [ConvertMeshalyzer] else []) @
        (if VisualizeWithCmgui (config s) then [ConvertCmgui] else []) @
        (if VisualizeWithVtk (config s) then [ConvertVtk] else []) @
        (if VisualizeWithParallelVtk (config s) then [ConvertParallelVtk] else [])
      else [])"

text \<open>A writer is idle between rows: no time has been put and no vector is pending.\<close>

definition writer_idle :: "problem \<Rightarrow> bool" where
  "writer_idle s \<longleftrightarrow> (\<exists>w. mpWriter s = Some w \<and> w_time w = None \<and> w_pending w = [])"

section \<open>The specification's reading of the time-step check\<close>

text \<open>
  The spec asks that an interval evenly divides a span of time to within the tolerance
  \<open>1e-10\<close>; this is that condition, in the form of the test in \<^verbatim>\<open>PreSolveChecks\<close>.
\<close>

definition divides_within_tolerance :: "real \<Rightarrow> real \<Rightarrow> bool" where
  "divides_within_tolerance interval duration =
     (\<bar>duration - interval * c_round (duration / interval)\<bar> \<le> 1 / 10 ^ 10)"

text \<open>
  A mesh can be obtained from the configuration when it asks to load one and the reader
  succeeds, or else asks to create one of the dimension of the problem and the slab is
  constructed.
\<close>

definition mesh_obtainable :: "env \<Rightarrow> heart_config \<Rightarrow> bool" where
  "mesh_obtainable e c =
     ((LoadMesh c \<and> \<not> isl (MeshReaderResult e)) \<or>
      (\<not> LoadMesh c \<and> CreateMesh c \<and> SpaceDimension c = SPACE_DIM e \<and>
       SpaceDimension c \<in> {1, 2, 3} \<and> \<not> isl (SlabMeshResult e)))"

section \<open>Example data\<close>

text \<open>
  A mesh of two nodes, both owned locally, the second in a bath region; collaborators
  with simple behaviour; a configuration that ends at time 10 and prints every 3; and a
  problem as \<^verbatim>\<open>Initialise\<close> leaves it.
\<close>

definition example_mesh :: mesh where
  "example_mesh = \<lparr>NumNodes = 2, local_lo = 0, local_hi = 2, node_region = (\<lambda>n. n)\<rparr>"

definition example_env :: env where
  "example_env =
     \<lparr>PROBLEM_DIM = 1, SPACE_DIM = 1,
      cell_voltage = (\<lambda>node. - 80 - real node),
      cell_variable = (\<lambda>cell_idx node name t. real (10 * cell_idx + node + 5)),
      factory_fill = (\<lambda>_. 7),
      solver_Solve = (\<lambda>t0 t1 d. Inr (map (\<lambda>x. x + 1) d)),
      AdditionalStoppingTimes = [],
      MeshReaderResult = Inr example_mesh,
      SlabMeshResult = Inr example_mesh,
      ApplyPermutation_ok = True,
      IsRegionBath = (\<lambda>region. region = 1)\<rparr>"

definition failing_env :: env where
  "failing_env = example_env\<lparr>solver_Solve := (\<lambda>t0 t1 d. Inl ''solver diverged'')\<rparr>"

definition example_config :: heart_config where
  "example_config =
     \<lparr>SimulationDuration = 10, PdeTimeStep = 1, PrintingTimeStep = 3,
      OutputDirectory = ''out'', OutputFilenamePrefix = ''results'', OutputVariables = [],
      OutputUsingOriginalNodeOrdering = False, PostProcessingRequested = True,
      VisualizeWithMeshalyzer = True, VisualizeWithCmgui = False, VisualizeWithVtk = False,
      VisualizeWithParallelVtk = False, LoadMesh = False, CreateMesh = False,
      SpaceDimension = 1, CellularTransmuralHeterogeneitiesRequested = False\<rparr>"

definition example_problem :: problem where
  "example_problem =
     \<lparr>mpMesh = Some example_mesh, mAllocatedMemoryForMesh = False, mWriteInfo = False,
      mPrintOutput = True, mpCardiacTissue = Some 0, mpSolver = None, mSolution = None,
      mCurrentTime = 0, mpWriter = None, mNodesToOutput = [], mVoltageColumnId = 0,
      mExtraVariablesId = [], mpBoundaryConditionsContainer = None,
      mpDefaultBoundaryConditionsContainer = None, mpTimeAdaptivityController = None,
      mOutputModifiers = [], mHdf5DataWriterChunkSizeAndAlignment = 0,
      mUseHdf5DataWriterCache = False, config = example_config, next_addr = 1,
      released = [], vec_data = (\<lambda>_. []), h5_file = None, trace = []\<rparr>"

text \<open>
  A problem that holds a solution at time 3, with output directed to a checkpoint file
  that already has results up to time 5.
\<close>

definition later_file :: h5file where
  "later_file =
     \<lparr>h5_columns = [''V''], h5_fixed_dim = 2,
      h5_rows = [(0, [(0, [- 80, - 81])]), (5, [(0, [- 70, - 71])])]\<rparr>"

definition conflicting_problem :: problem where
  "conflicting_problem =
     example_problem\<lparr>mSolution := Some 1, mCurrentTime := 3, next_addr := 2,
                     vec_data := (\<lambda>_. [])(1 := [- 75, - 76]),
                     h5_file := Some later_file\<rparr>"

text \<open>
  A problem with two extra output variables, one read from the primary cell model and one
  from the third, and an open writer.
\<close>

definition example_writer :: writer where
  "example_writer =
     \<lparr>w_extending = False, w_define_mode = False, w_estimate = 5, w_time = Some 3,
      w_pending = [(0, [- 75, - 76])], w_cursor = 1, w_chunk = 0, w_cache = False,
      w_permuted = False\<rparr>"

definition extra_variables_problem :: problem where
  "extra_variables_problem =
     example_problem\<lparr>mCurrentTime := 3, mpWriter := Some example_writer,
                     mExtraVariablesId := [1, 2],
                     config := example_config\<lparr>OutputVariables := [''Ca'', ''Ca__IDX__2'']\<rparr>\<rparr>"

text \<open>A fresh problem whose end time equals the printing interval.\<close>

definition one_step_problem :: problem where
  "one_step_problem = example_problem\<lparr>config := example_config\<lparr>SimulationDuration := 3\<rparr>\<rparr>"

text \<open>A problem that holds a solution at time 3 and writes no output.\<close>

definition resumed_problem :: problem where
  "resumed_problem = conflicting_problem\<lparr>mPrintOutput := False\<rparr>"

text \<open>
  A problem before its first \<^verbatim>\<open>Initialise\<close>, to which no mesh was supplied and whose
  configuration asks to load one, and a mesh reader that cannot open the file.
\<close>

definition unmeshed_problem :: problem where
  "unmeshed_problem =
     example_problem\<lparr>mpMesh := None, mpCardiacTissue := None, next_addr := 0,
                     config := example_config\<lparr>LoadMesh := True\<rparr>\<rparr>"

definition unreadable_env :: env where
  "unreadable_env = example_env\<lparr>MeshReaderResult := Inl ''Could not open data file''\<rparr>"

section \<open>What each operation leaves unchanged\<close>

lemma emit_frame [simp]:
  "released (emit ev s) = released s"
  "next_addr (emit ev s) = next_addr s"
  "mSolution (emit ev s) = mSolution s"
  "mpSolver (emit ev s) = mpSolver s"
  "mpWriter (emit ev s) = mpWriter s"
  "h5_file (emit ev s) = h5_file s"
  "mPrintOutput (emit ev s) = mPrintOutput s"
  "mCurrentTime (emit ev s) = mCurrentTime s"
  "config (emit ev s) = config s"
  "vec_data (emit ev s) = vec_data s"
  "mExtraVariablesId (emit ev s) = mExtraVariablesId s"
  "mVoltageColumnId (emit ev s) = mVoltageColumnId s"
  "mOutputModifiers (emit ev s) = mOutputModifiers s"
  "mpMesh (emit ev s) = mpMesh s"
  "mpCardiacTissue (emit ev s) = mpCardiacTissue s"
  "mWriteInfo (emit ev s) = mWriteInfo s"
  "mNodesToOutput (emit ev s) = mNodesToOutput s"
  "mpTimeAdaptivityController (emit ev s) = mpTimeAdaptivityController s"
  "mpBoundaryConditionsContainer (emit ev s) = mpBoundaryConditionsContainer s"
  by (simp_all add: emit_def)

lemma emit_trace [simp]: "trace (emit ev s) = trace s @ [ev]"
  by (simp add: emit_def)

lemma emit_if_frame [simp]:
  "released (emit_if b ev s) = released s"
  "next_addr (emit_if b ev s) = next_addr s"
  "mSolution (emit_if b ev s) = mSolution s"
  "mpSolver (emit_if b ev s) = mpSolver s"
  "mpWriter (emit_if b ev s) = mpWriter s"
  "h5_file (emit_if b ev s) = h5_file s"
  "mPrintOutput (emit_if b ev s) = mPrintOutput s"
  "mCurrentTime (emit_if b ev s) = mCurrentTime s"
  "config (emit_if b ev s) = config s"
  "vec_data (emit_if b ev s) = vec_data s"
  "mExtraVariablesId (emit_if b ev s) = mExtraVariablesId s"
  "mVoltageColumnId (emit_if b ev s) = mVoltageColumnId s"
  "mOutputModifiers (emit_if b ev s) = mOutputModifiers s"
  "mpMesh (emit_if b ev s) = mpMesh s"
  "mpCardiacTissue (emit_if b ev s) = mpCardiacTissue s"
  "mWriteInfo (emit_if b ev s) = mWriteInfo s"
  "mNodesToOutput (emit_if b ev s) = mNodesToOutput s"
  "mpTimeAdaptivityController (emit_if b ev s) = mpTimeAdaptivityController s"
  "mpBoundaryConditionsContainer (emit_if b ev s) = mpBoundaryConditionsContainer s"
  by (simp_all add: emit_if_def)

lemma emit_if_trace [simp]: "trace (emit_if b ev s) = trace s @ (if b then [ev] else [])"
  by (simp add: emit_if_def)

lemma Destroy_frame [simp]:
  "next_addr (Destroy a s) = next_addr s"
  "mSolution (Destroy a s) = mSolution s"
  "mpSolver (Destroy a s) = mpSolver s"
  "mpWriter (Destroy a s) = mpWriter s"
  "h5_file (Destroy a s) = h5_file s"
  "mPrintOutput (Destroy a s) = mPrintOutput s"
  "mCurrentTime (Destroy a s) = mCurrentTime s"
  "config (Destroy a s) = config s"
  "vec_data (Destroy a s) = vec_data s"
  "mExtraVariablesId (Destroy a s) = mExtraVariablesId s"
  "mVoltageColumnId (Destroy a s) = mVoltageColumnId s"
  "mOutputModifiers (Destroy a s) = mOutputModifiers s"
  "mpMesh (Destroy a s) = mpMesh s"
  "mpCardiacTissue (Destroy a s) = mpCardiacTissue s"
  "mWriteInfo (Destroy a s) = mWriteInfo s"
  "mNodesToOutput (Destroy a s) = mNodesToOutput s"
  "mpTimeAdaptivityController (Destroy a s) = mpTimeAdaptivityController s"
  "mpBoundaryConditionsContainer (Destroy a s) = mpBoundaryConditionsContainer s"
  "trace (Destroy a s) = trace s"
  by (simp_all add: Destroy_def)

lemma Destroy_released [simp]: "released (Destroy a s) = released s @ [a]"
  by (simp add: Destroy_def)

lemma update_writer_frame [simp]:
  "released (update_writer g s) = released s"
  "next_addr (update_writer g s) = next_addr s"
  "mSolution (update_writer g s) = mSolution s"
  "mpSolver (update_writer g s) = mpSolver s"
  "h5_file (update_writer g s) = h5_file s"
  "mPrintOutput (update_writer g s) = mPrintOutput s"
  "mCurrentTime (update_writer g s) = mCurrentTime s"
  "config (update_writer g s) = config s"
  "vec_data (update_writer g s) = vec_data s"
  "mExtraVariablesId (update_writer g s) = mExtraVariablesId s"
  "mVoltageColumnId (update_writer g s) = mVoltageColumnId s"
  "mOutputModifiers (update_writer g s) = mOutputModifiers s"
  "mpMesh (update_writer g s) = mpMesh s"
  "mpCardiacTissue (update_writer g s) = mpCardiacTissue s"
  "mWriteInfo (update_writer g s) = mWriteInfo s"
  "mNodesToOutput (update_writer g s) = mNodesToOutput s"
  "mpTimeAdaptivityController (update_writer g s) = mpTimeAdaptivityController s"
  "mpBoundaryConditionsContainer (update_writer g s) = mpBoundaryConditionsContainer s"
  "trace (update_writer g s) = trace s"
  by (simp_all add: update_writer_def)

lemma update_writer_writer [simp]: "mpWriter (update_writer g s) = map_option g (mpWriter s)"
  by (simp add: update_writer_def)

lemma update_file_frame [simp]:
  "released (update_file g s) = released s"
  "next_addr (update_file g s) = next_addr s"
  "mSolution (update_file g s) = mSolution s"
  "mpSolver (update_file g s) = mpSolver s"
  "mpWriter (update_file g s) = mpWriter s"
  "mPrintOutput (update_file g s) = mPrintOutput s"
  "mCurrentTime (update_file g s) = mCurrentTime s"
  "config (update_file g s) = config s"
  "vec_data (update_file g s) = vec_data s"
  "mExtraVariablesId (update_file g s) = mExtraVariablesId s"
  "mVoltageColumnId (update_file g s) = mVoltageColumnId s"
  "mOutputModifiers (update_file g s) = mOutputModifiers s"
  "mpMesh (update_file g s) = mpMesh s"
  "mpCardiacTissue (update_file g s) = mpCardiacTissue s"
  "mWriteInfo (update_file g s) = mWriteInfo s"
  "mNodesToOutput (update_file g s) = mNodesToOutput s"
  "mpTimeAdaptivityController (update_file g s) = mpTimeAdaptivityController s"
  "mpBoundaryConditionsContainer (update_file g s) = mpBoundaryConditionsContainer s"
  "trace (update_file g s) = trace s"
  by (simp_all add: update_file_def)

lemma update_file_file [simp]: "h5_file (update_file g s) = map_option g (h5_file s)"
  by (simp add: update_file_def)

lemma default_boundary_conditions_frame [simp]:
  "released (default_boundary_conditions e s) = released s"
  "next_addr (default_boundary_conditions e s) = next_addr s"
  "mSolution (default_boundary_conditions e s) = mSolution s"
  "mpSolver (default_boundary_conditions e s) = mpSolver s"
  "mpWriter (default_boundary_conditions e s) = mpWriter s"
  "h5_file (default_boundary_conditions e s) = h5_file s"
  "mPrintOutput (default_boundary_conditions e s) = mPrintOutput s"
  "mCurrentTime (default_boundary_conditions e s) = mCurrentTime s"
  "config (default_boundary_conditions e s) = config s"
  "vec_data (default_boundary_conditions e s) = vec_data s"
  "mExtraVariablesId (default_boundary_conditions e s) = mExtraVariablesId s"
  "mVoltageColumnId (default_boundary_conditions e s) = mVoltageColumnId s"
  "mOutputModifiers (default_boundary_conditions e s) = mOutputModifiers s"
  "mpMesh (default_boundary_conditions e s) = mpMesh s"
  "mpCardiacTissue (default_boundary_conditions e s) = mpCardiacTissue s"
  "mWriteInfo (default_boundary_conditions e s) = mWriteInfo s"
  "mNodesToOutput (default_boundary_conditions e s) = mNodesToOutput s"
  "mpTimeAdaptivityController (default_boundary_conditions e s) = mpTimeAdaptivityController s"
  "trace (default_boundary_conditions e s) = trace s"
  by (simp_all add: default_boundary_conditions_def)

lemma delete_writer_frame [simp]:
  "released (delete_writer s) = released s"
  "next_addr (delete_writer s) = next_addr s"
  "mSolution (delete_writer s) = mSolution s"
  "mpSolver (delete_writer s) = mpSolver s"
  "h5_file (delete_writer s) = h5_file s"
  "mPrintOutput (delete_writer s) = mPrintOutput s"
  "mCurrentTime (delete_writer s) = mCurrentTime s"
  "config (delete_writer s) = config s"
  "vec_data (delete_writer s) = vec_data s"
  "mExtraVariablesId (delete_writer s) = mExtraVariablesId s"
  "mVoltageColumnId (delete_writer s) = mVoltageColumnId s"
  "mOutputModifiers (delete_writer s) = mOutputModifiers s"
  "mpMesh (delete_writer s) = mpMesh s"
  "mpCardiacTissue (delete_writer s) = mpCardiacTissue s"
  "mWriteInfo (delete_writer s) = mWriteInfo s"
  "mNodesToOutput (delete_writer s) = mNodesToOutput s"
  "mpTimeAdaptivityController (delete_writer s) = mpTimeAdaptivityController s"
  "mpBoundaryConditionsContainer (delete_writer s) = mpBoundaryConditionsContainer s"
  by (simp_all add: delete_writer_def split: option.split)

lemma delete_writer_writer [simp]: "mpWriter (delete_writer s) = None"
  by (simp add: delete_writer_def split: option.split)

lemma delete_writer_trace [simp]:
  "trace (delete_writer s) = trace s @ (if mpWriter s = None then [] else [CloseWriter])"
  by (simp add: delete_writer_def split: option.split)

lemma delete_solver_frame [simp]:
  "next_addr (delete_solver s) = next_addr s"
  "mSolution (delete_solver s) = mSolution s"
  "mpSolver (delete_solver s) = mpSolver s"
  "mpWriter (delete_solver s) = mpWriter s"
  "h5_file (delete_solver s) = h5_file s"
  "mPrintOutput (delete_solver s) = mPrintOutput s"
  "mCurrentTime (delete_solver s) = mCurrentTime s"
  "config (delete_solver s) = config s"
  "vec_data (delete_solver s) = vec_data s"
  "mExtraVariablesId (delete_solver s) = mExtraVariablesId s"
  "mVoltageColumnId (delete_solver s) = mVoltageColumnId s"
  "mOutputModifiers (delete_solver s) = mOutputModifiers s"
  "mpMesh (delete_solver s) = mpMesh s"
  "mpCardiacTissue (delete_solver s) = mpCardiacTissue s"
  "mWriteInfo (delete_solver s) = mWriteInfo s"
  "mNodesToOutput (delete_solver s) = mNodesToOutput s"
  "mpTimeAdaptivityController (delete_solver s) = mpTimeAdaptivityController s"
  "mpBoundaryConditionsContainer (delete_solver s) = mpBoundaryConditionsContainer s"
  "trace (delete_solver s) = trace s"
  by (simp_all add: delete_solver_def split: option.split)

lemma delete_solver_released [simp]:
  "released (delete_solver s) = released s @ (case mpSolver s of None \<Rightarrow> [] | Some a \<Rightarrow> [a])"
  by (simp add: delete_solver_def split: option.split)

lemma fold_emit:
  "fold (\<lambda>p. emit (g p)) ps s = s\<lparr>trace := trace s @ map g ps\<rparr>"
  by (induction ps arbitrary: s) (simp_all add: emit_def)

lemma notify_modifiers_eq:
  "notify_modifiers time solution s =
     s\<lparr>trace := trace s @ map (\<lambda>p. ModifierProcessSolution p time solution) (mOutputModifiers s)\<rparr>"
  by (simp add: notify_modifiers_def fold_emit)

lemma finalise_modifiers_eq:
  "finalise_modifiers s = s\<lparr>trace := trace s @ map ModifierFinaliseAtEnd (mOutputModifiers s)\<rparr>"
  by (simp add: finalise_modifiers_def fold_emit)

lemma fold_start_modifiers:
  "fold (\<lambda>p s'. emit (ModifierProcessSolution p (mCurrentTime s') ic)
                   (emit (ModifierInitialiseAtStart p) s')) ps s =
     s\<lparr>trace := trace s @
          concat (map (\<lambda>p. [ModifierInitialiseAtStart p,
                              ModifierProcessSolution p (mCurrentTime s) ic]) ps)\<rparr>"
  by (induction ps arbitrary: s) (simp_all add: emit_def)

lemma start_modifiers_eq:
  "start_modifiers ic s =
     s\<lparr>trace := trace s @
          concat (map (\<lambda>p. [ModifierInitialiseAtStart p,
                              ModifierProcessSolution p (mCurrentTime s) ic])
                    (mOutputModifiers s))\<rparr>"
  by (simp add: start_modifiers_def fold_start_modifiers)

lemma notify_modifiers_frame [simp]:
  "released (notify_modifiers time solution s) = released s"
  "next_addr (notify_modifiers time solution s) = next_addr s"
  "mSolution (notify_modifiers time solution s) = mSolution s"
  "mpSolver (notify_modifiers time solution s) = mpSolver s"
  "mpWriter (notify_modifiers time solution s) = mpWriter s"
  "h5_file (notify_modifiers time solution s) = h5_file s"
  "mPrintOutput (notify_modifiers time solution s) = mPrintOutput s"
  "mCurrentTime (notify_modifiers time solution s) = mCurrentTime s"
  "config (notify_modifiers time solution s) = config s"
  "vec_data (notify_modifiers time solution s) = vec_data s"
  "mExtraVariablesId (notify_modifiers time solution s) = mExtraVariablesId s"
  "mVoltageColumnId (notify_modifiers time solution s) = mVoltageColumnId s"
  "mOutputModifiers (notify_modifiers time solution s) = mOutputModifiers s"
  "mpMesh (notify_modifiers time solution s) = mpMesh s"
  "mpCardiacTissue (notify_modifiers time solution s) = mpCardiacTissue s"
  "mWriteInfo (notify_modifiers time solution s) = mWriteInfo s"
  "mNodesToOutput (notify_modifiers time solution s) = mNodesToOutput s"
  "mpTimeAdaptivityController (notify_modifiers time solution s) = mpTimeAdaptivityController s"
  "mpBoundaryConditionsContainer (notify_modifiers time solution s) = mpBoundaryConditionsContainer s"
  by (simp_all add: notify_modifiers_eq)

lemma finalise_modifiers_frame [simp]:
  "released (finalise_modifiers s) = released s"
  "next_addr (finalise_modifiers s) = next_addr s"
  "mSolution (finalise_modifiers s) = mSolution s"
  "mpSolver (finalise_modifiers s) = mpSolver s"
  "mpWriter (finalise_modifiers s) = mpWriter s"
  "h5_file (finalise_modifiers s) = h5_file s"
  "mPrintOutput (finalise_modifiers s) = mPrintOutput s"
  "mCurrentTime (finalise_modifiers s) = mCurrentTime s"
  "config (finalise_modifiers s) = config s"
  "vec_data (finalise_modifiers s) = vec_data s"
  "mExtraVariablesId (finalise_modifiers s) = mExtraVariablesId s"
  "mVoltageColumnId (finalise_modifiers s) = mVoltageColumnId s"
  "mOutputModifiers (finalise_modifiers s) = mOutputModifiers s"
  "mpMesh (finalise_modifiers s) = mpMesh s"
  "mpCardiacTissue (finalise_modifiers s) = mpCardiacTissue s"
  "mWriteInfo (finalise_modifiers s) = mWriteInfo s"
  "mNodesToOutput (finalise_modifiers s) = mNodesToOutput s"
  "mpTimeAdaptivityController (finalise_modifiers s) = mpTimeAdaptivityController s"
  "mpBoundaryConditionsContainer (finalise_modifiers s) = mpBoundaryConditionsContainer s"
  by (simp_all add: finalise_modifiers_eq)

lemma start_modifiers_frame [simp]:
  "released (start_modifiers ic s) = released s"
  "next_addr (start_modifiers ic s) = next_addr s"
  "mSolution (start_modifiers ic s) = mSolution s"
  "mpSolver (start_modifiers ic s) = mpSolver s"
  "mpWriter (start_modifiers ic s) = mpWriter s"
  "h5_file (start_modifiers ic s) = h5_file s"
  "mPrintOutput (start_modifiers ic s) = mPrintOutput s"
  "mCurrentTime (start_modifiers ic s) = mCurrentTime s"
  "config (start_modifiers ic s) = config s"
  "vec_data (start_modifiers ic s) = vec_data s"
  "mExtraVariablesId (start_modifiers ic s) = mExtraVariablesId s"
  "mVoltageColumnId (start_modifiers ic s) = mVoltageColumnId s"
  "mOutputModifiers (start_modifiers ic s) = mOutputModifiers s"
  "mpMesh (start_modifiers ic s) = mpMesh s"
  "mpCardiacTissue (start_modifiers ic s) = mpCardiacTissue s"
  "mWriteInfo (start_modifiers ic s) = mWriteInfo s"
  "mNodesToOutput (start_modifiers ic s) = mNodesToOutput s"
  "mpTimeAdaptivityController (start_modifiers ic s) = mpTimeAdaptivityController s"
  "mpBoundaryConditionsContainer (start_modifiers ic s) = mpBoundaryConditionsContainer s"
  by (simp_all add: start_modifiers_eq)

lemma configure_solver_frame [simp]:
  "released (configure_solver s) = released s"
  "next_addr (configure_solver s) = next_addr s"
  "mSolution (configure_solver s) = mSolution s"
  "mpSolver (configure_solver s) = mpSolver s"
  "mpWriter (configure_solver s) = mpWriter s"
  "h5_file (configure_solver s) = h5_file s"
  "mPrintOutput (configure_solver s) = mPrintOutput s"
  "mCurrentTime (configure_solver s) = mCurrentTime s"
  "config (configure_solver s) = config s"
  "vec_data (configure_solver s) = vec_data s"
  "mExtraVariablesId (configure_solver s) = mExtraVariablesId s"
  "mVoltageColumnId (configure_solver s) = mVoltageColumnId s"
  "mOutputModifiers (configure_solver s) = mOutputModifiers s"
  "mpMesh (configure_solver s) = mpMesh s"
  "mpCardiacTissue (configure_solver s) = mpCardiacTissue s"
  "mWriteInfo (configure_solver s) = mWriteInfo s"
  "mNodesToOutput (configure_solver s) = mNodesToOutput s"
  "mpTimeAdaptivityController (configure_solver s) = mpTimeAdaptivityController s"
  "mpBoundaryConditionsContainer (configure_solver s) = mpBoundaryConditionsContainer s"
  by (simp_all add: configure_solver_def Let_def split: option.split)

lemma CloseFilesAndPostProcess_frame [simp]:
  "released (CloseFilesAndPostProcess s) = released s"
  "next_addr (CloseFilesAndPostProcess s) = next_addr s"
  "mSolution (CloseFilesAndPostProcess s) = mSolution s"
  "mpSolver (CloseFilesAndPostProcess s) = mpSolver s"
  "h5_file (CloseFilesAndPostProcess s) = h5_file s"
  "mPrintOutput (CloseFilesAndPostProcess s) = mPrintOutput s"
  "mCurrentTime (CloseFilesAndPostProcess s) = mCurrentTime s"
  "config (CloseFilesAndPostProcess s) = config s"
  "vec_data (CloseFilesAndPostProcess s) = vec_data s"
  "mExtraVariablesId (CloseFilesAndPostProcess s) = mExtraVariablesId s"
  "mVoltageColumnId (CloseFilesAndPostProcess s) = mVoltageColumnId s"
  "mOutputModifiers (CloseFilesAndPostProcess s) = mOutputModifiers s"
  "mpMesh (CloseFilesAndPostProcess s) = mpMesh s"
  "mpCardiacTissue (CloseFilesAndPostProcess s) = mpCardiacTissue s"
  "mWriteInfo (CloseFilesAndPostProcess s) = mWriteInfo s"
  "mNodesToOutput (CloseFilesAndPostProcess s) = mNodesToOutput s"
  "mpTimeAdaptivityController (CloseFilesAndPostProcess s) = mpTimeAdaptivityController s"
  "mpBoundaryConditionsContainer (CloseFilesAndPostProcess s) = mpBoundaryConditionsContainer s"
  by (simp_all add: CloseFilesAndPostProcess_def Let_def)

lemma CloseFilesAndPostProcess_writer [simp]:
  "mPrintOutput s \<Longrightarrow> mpWriter (CloseFilesAndPostProcess s) = None"
  by (simp add: CloseFilesAndPostProcess_def Let_def)

section \<open>Rounding to double precision\<close>

text \<open>
  The binary exponent and the rounding are computed by rewriting on numerals; an integer
  of magnitude up to \<open>2 ^ 53\<close> is a double, so that a quotient, a product and a difference
  with such a value are exact.
\<close>

lemma halvings_numeral:
  "halvings (numeral k) x = (if x < 2 then 0 else Suc (halvings (pred_numeral k) (x / 2)))"
  by (simp add: numeral_eq_Suc)

lemma doublings_numeral:
  "doublings (numeral k) x = (if 1 \<le> x then 0 else Suc (doublings (pred_numeral k) (2 * x)))"
  by (simp add: numeral_eq_Suc)

lemmas double_eval = round_to_double_def binary_exponent_def pow2_def round_half_even_def
  halvings_numeral doublings_numeral Let_def c_round_def time_step_residue_def

lemma halvings_bounds:
  "1 \<le> x \<Longrightarrow> x < 2 ^ k \<Longrightarrow> 2 ^ halvings k x \<le> x \<and> x < 2 ^ Suc (halvings k x)"
proof (induction k arbitrary: x)
  case 0
  then show ?case by simp
next
  case (Suc k)
  show ?case
  proof (cases "x < 2")
    case True
    then show ?thesis using Suc.prems by simp
  next
    case False
    then have "1 \<le> x / 2" and "x / 2 < 2 ^ k" using Suc.prems by simp_all
    from Suc.IH [OF this] show ?thesis using False by simp
  qed
qed

lemma doublings_zero: "doublings k 0 = k"
  by (induction k) simp_all

lemma round_half_even_of_int: "round_half_even (of_int k) = k"
  by (simp add: round_half_even_def)

lemma round_to_double_0: "round_to_double 0 = Finite 0"
  by (simp add: round_to_double_def Let_def round_half_even_def)

lemma round_to_double_of_int:
  assumes "\<bar>n\<bar> \<le> 2 ^ 53"
  shows "round_to_double (of_int n) = Finite (of_int n)"
proof (cases "n = 0")
  case True
  then show ?thesis by (simp add: round_to_double_0)
next
  case False
  let ?x = "\<bar>real_of_int n\<bar>"
  let ?h = "halvings 1024 ?x"
  have one: "1 \<le> ?x" using False by (simp flip: of_int_abs)
  have le: "?x \<le> 2 ^ 53"
  proof -
    have "real_of_int \<bar>n\<bar> \<le> real_of_int (2 ^ 53)" using assms by (simp only: of_int_le_iff)
    then show ?thesis by simp
  qed
  have "(2::real) ^ 53 < 2 ^ 1024" by (rule power_strict_increasing) simp_all
  then have lt: "?x < 2 ^ 1024" using le by linarith
  note b = halvings_bounds [OF one lt]
  have "(2::real) ^ ?h \<le> 2 ^ 53" using b le by linarith
  then have h: "?h \<le> 53" by (rule power_le_imp_le_exp [rotated]) simp
  have e: "binary_exponent (of_int n) = int ?h" using one by (simp add: binary_exponent_def)
  have small: "\<not> (2::real) ^ 1024 \<le> \<bar>real_of_int n\<bar>" using lt by simp
  show ?thesis
  proof (cases "?h \<le> 52")
    case True
    have q: "pow2 (int ?h - 52) = 1 / 2 ^ (52 - ?h)"
    proof (cases "?h = 52")
      case True
      then show ?thesis by (simp add: pow2_def)
    next
      case False
      then have "?h < 52" using True by simp
      then have "nat (52 - int ?h) = 52 - ?h" by simp
      then show ?thesis using \<open>?h < 52\<close> by (simp add: pow2_def)
    qed
    have "real_of_int n / (1 / 2 ^ (52 - ?h)) = of_int (n * 2 ^ (52 - ?h))" by simp
    then have r: "round_half_even (real_of_int n / (1 / 2 ^ (52 - ?h))) = n * 2 ^ (52 - ?h)"
      by (simp only: round_half_even_of_int)
    have v: "of_int (n * 2 ^ (52 - ?h)) * (1 / 2 ^ (52 - ?h)) = real_of_int n" by simp
    show ?thesis
      unfolding round_to_double_def Let_def e q r v using small by simp
  next
    case False
    then have h53: "?h = 53" using h by simp
    have "(2::real) ^ 53 \<le> ?x" using b h53 by simp
    then have "?x = 2 ^ 53" using le by simp
    then have "real_of_int \<bar>n\<bar> = real_of_int (2 ^ 53)" by simp
    then have "\<bar>n\<bar> = 2 ^ 53" by (simp only: of_int_eq_iff)
    then have "even \<bar>n\<bar>" by simp
    then have "even n" by simp
    then obtain k where k: "n = 2 * k" by (elim evenE)
    have q: "pow2 (int ?h - 52) = 2" unfolding h53 by (simp add: pow2_def)
    have "real_of_int n / 2 = of_int k" using k by simp
    then have r: "round_half_even (real_of_int n / 2) = k" by (simp only: round_half_even_of_int)
    have v: "of_int k * 2 = real_of_int n" using k by simp
    show ?thesis
      unfolding round_to_double_def Let_def e q r v using small by simp
  qed
qed

lemma is_double_of_int: "\<bar>n\<bar> \<le> 2 ^ 53 \<Longrightarrow> is_double (of_int n)"
  by (simp add: is_double_def round_to_double_of_int)

lemma tolerance_value:
  "round_to_double (1 / 10 ^ 10) = Finite (7737125245533627 / 77371252455336267181195264)"
  by (simp add: double_eval)

lemma tolerance_numeral:
  "round_to_double (1 / 10000000000) = Finite (7737125245533627 / 77371252455336267181195264)"
  using tolerance_value by simp

lemma time_step_residue_multiple:
  assumes "is_double end_time" and "end_time = pde_time * of_int n" and "\<bar>n\<bar> \<le> 2 ^ 53"
  shows "time_step_residue end_time pde_time = (if pde_time = 0 then NaN else Finite 0)"
proof (cases "pde_time = 0")
  case True
  then show ?thesis using assms(2) by (simp add: time_step_residue_def)
next
  case False
  have q: "end_time / pde_time = of_int n" using False assms(2) by simp
  have c: "c_round (of_int n) = of_int n" by (simp add: c_round_def ceiling_def)
  have e: "round_to_double (pde_time * real_of_int n) = Finite (pde_time * real_of_int n)"
    using assms(1,2) by (simp add: is_double_def)
  have z: "end_time - pde_time * real_of_int n = 0" using assms(2) by simp
  show ?thesis
    using False
    by (simp add: time_step_residue_def q round_to_double_of_int [OF assms(3)] c e z
          round_to_double_0)
qed

lemma time_step_residue_zero_step: "time_step_residue end_time 0 = NaN"
  by (simp add: time_step_residue_def)

lemma pow2_powi: "pow2 k = 2 powi k"
  by (simp add: pow2_def power_int_def inverse_eq_divide power_one_over)

lemma pow2_pos: "0 < pow2 k"
  by (simp add: pow2_powi)

lemma round_half_even_le: "y \<le> of_int N \<Longrightarrow> round_half_even y \<le> N"
proof -
  assume a: "y \<le> of_int N"
  have f: "\<lfloor>y\<rfloor> \<le> N" using a by (simp add: floor_le_iff) 
  show ?thesis
  proof (cases "\<lfloor>y\<rfloor> = N")
    case True
    then have "y = of_int N" using a by (metis of_int_floor_le order_antisym)
    then show ?thesis by (simp add: round_half_even_def)
  next
    case False
    then have "\<lfloor>y\<rfloor> + 1 \<le> N" using f by simp
    then show ?thesis using f by (simp add: round_half_even_def Let_def)
  qed
qed

lemma round_half_even_ge: "of_int N \<le> y \<Longrightarrow> N \<le> round_half_even y"
proof -
  assume "of_int N \<le> y"
  then have "N \<le> \<lfloor>y\<rfloor>" by (simp add: le_floor_iff)
  then show ?thesis by (simp add: round_half_even_def Let_def)
qed

lemma binary_exponent_le:
  assumes "\<bar>x\<bar> \<le> 2 ^ k" and "k < 1024"
  shows "binary_exponent x \<le> int k"
proof (cases "1 \<le> \<bar>x\<bar>")
  case True
  have "(2::real) ^ k < 2 ^ 1024" using assms(2) by (intro power_strict_increasing) simp_all
  then have lt: "\<bar>x\<bar> < 2 ^ 1024" using assms(1) by linarith
  note b = halvings_bounds [OF True lt]
  have "(2::real) ^ halvings 1024 \<bar>x\<bar> \<le> 2 ^ k" using b assms(1) by linarith
  then have "halvings 1024 \<bar>x\<bar> \<le> k" by (rule power_le_imp_le_exp [rotated]) simp
  then show ?thesis using True by (simp add: binary_exponent_def)
next
  case False
  then show ?thesis by (simp add: binary_exponent_def)
qed

lemma round_to_double_bound:
  assumes "\<bar>x\<bar> \<le> 2 ^ k" and "k < 1024"
  shows "\<exists>v. round_to_double x = Finite v \<and> \<bar>v\<bar> \<le> 2 ^ k"
proof -
  let ?q = "pow2 (binary_exponent x - 52)"
  let ?m = "round_half_even (x / ?q)"
  let ?N = "(2::int) ^ (nat (int k - (binary_exponent x - 52)))"
  have e: "binary_exponent x \<le> int k" using assms by (rule binary_exponent_le)
  have q: "0 < ?q" by (rule pow2_pos)
  have "2 powi (int k) = (2::real) powi (int k - (binary_exponent x - 52)) * 2 powi (binary_exponent x - 52)"
    by (simp flip: power_int_add)
  moreover have "(2::real) powi (int k - (binary_exponent x - 52)) = of_int ?N"
    using e by (simp add: power_int_def)
  ultimately have N: "(2::real) ^ k = of_int ?N * ?q" by (simp add: pow2_powi)
  have up: "x / ?q \<le> of_int ?N"
  proof -
    have "x \<le> of_int ?N * ?q" using assms(1) N by linarith
    then show ?thesis using q by (simp add: pos_divide_le_eq)
  qed
  have lo: "of_int (- ?N) \<le> x / ?q"
  proof -
    have "- (of_int ?N * ?q) \<le> x" using assms(1) N by linarith
    then show ?thesis using q by (simp add: pos_le_divide_eq)
  qed
  have m1: "?m \<le> ?N" using up by (rule round_half_even_le)
  have m2: "- ?N \<le> ?m" using lo by (rule round_half_even_ge)
  have "\<bar>?m\<bar> \<le> ?N" using m1 m2 by linarith
  then have "\<bar>real_of_int ?m\<bar> \<le> real_of_int ?N" by (simp only: flip: of_int_abs of_int_le_iff)
  then have "\<bar>real_of_int ?m\<bar> * ?q \<le> real_of_int ?N * ?q" using q by (simp add: mult_right_mono)
  then have v: "\<bar>real_of_int ?m * ?q\<bar> \<le> 2 ^ k" using q N by (simp add: abs_mult)
  have "(2::real) ^ k < 2 ^ 1024" using assms(2) by (intro power_strict_increasing) simp_all
  then have "\<not> 2 ^ 1024 \<le> \<bar>real_of_int ?m * ?q\<bar>" using v by linarith
  then show ?thesis using v by (simp add: round_to_double_def Let_def)
qed

lemma c_round_int: "\<exists>r. c_round x = of_int r \<and> (\<forall>N. \<bar>x\<bar> \<le> of_int N \<longrightarrow> \<bar>r\<bar> \<le> N)"
proof (cases "0 \<le> x")
  case True
  have "\<forall>N. \<bar>x\<bar> \<le> of_int N \<longrightarrow> \<bar>\<lfloor>x + 1 / 2\<rfloor>\<bar> \<le> N"
  proof (intro allI impI)
    fix N :: int
    assume "\<bar>x\<bar> \<le> of_int N"
    then have "x + 1 / 2 < of_int (N + 1)" using True by simp
    then have "\<lfloor>x + 1 / 2\<rfloor> < N + 1" by (simp only: floor_less_iff)
    moreover have "0 \<le> \<lfloor>x + 1 / 2\<rfloor>" using True by simp
    ultimately show "\<bar>\<lfloor>x + 1 / 2\<rfloor>\<bar> \<le> N" by simp
  qed
  then show ?thesis using True by (intro exI [of _ "\<lfloor>x + 1 / 2\<rfloor>"]) (simp add: c_round_def)
next
  case False
  have "\<forall>N. \<bar>x\<bar> \<le> of_int N \<longrightarrow> \<bar>\<lceil>x - 1 / 2\<rceil>\<bar> \<le> N"
  proof (intro allI impI)
    fix N :: int
    assume "\<bar>x\<bar> \<le> of_int N"
    then have "of_int (- N - 1) < x - 1 / 2" using False by simp
    then have "- N - 1 < \<lceil>x - 1 / 2\<rceil>" by (simp only: less_ceiling_iff)
    moreover have "\<lceil>x - 1 / 2\<rceil> \<le> 0" using False by (simp add: ceiling_le_iff)
    ultimately show "\<bar>\<lceil>x - 1 / 2\<rceil>\<bar> \<le> N" by simp
  qed
  then show ?thesis using False by (intro exI [of _ "\<lceil>x - 1 / 2\<rceil>"]) (simp add: c_round_def)
qed

lemma time_step_residue_integers:
  assumes "\<bar>a\<bar> \<le> 2 ^ 26" and "\<bar>b\<bar> \<le> 2 ^ 26" and "b \<noteq> 0" and "\<not> b dvd a"
  shows "\<exists>d. time_step_residue (of_int a) (of_int b) = Finite d \<and> 1 \<le> d"
proof -
  have b1: "1 \<le> \<bar>real_of_int b\<bar>" using assms(3) by (simp flip: of_int_abs)
  have "\<bar>real_of_int a\<bar> \<le> 2 ^ 26"
  proof -
    have "real_of_int \<bar>a\<bar> \<le> real_of_int (2 ^ 26)" using assms(1) by (simp only: of_int_le_iff)
    then show ?thesis by simp
  qed
  moreover have "\<bar>real_of_int a / real_of_int b\<bar> \<le> \<bar>real_of_int a\<bar>"
    using b1 by (simp add: divide_le_eq_1 field_simps abs_mult mult_le_cancel_left1)
  ultimately have "\<bar>real_of_int a / real_of_int b\<bar> \<le> 2 ^ 26" by linarith
  from round_to_double_bound [OF this]
  obtain v where v: "round_to_double (real_of_int a / real_of_int b) = Finite v"
    and vb: "\<bar>v\<bar> \<le> 2 ^ 26" by auto
  obtain r where r: "c_round v = of_int r" and rb: "\<forall>N. \<bar>v\<bar> \<le> of_int N \<longrightarrow> \<bar>r\<bar> \<le> N"
    using c_round_int by blast
  have "\<bar>v\<bar> \<le> real_of_int (2 ^ 26)" using vb by simp
  then have r26: "\<bar>r\<bar> \<le> 2 ^ 26" using rb by blast
  have "\<bar>b * r\<bar> \<le> 2 ^ 26 * 2 ^ 26"
    unfolding abs_mult using assms(2) r26 by (intro mult_mono) simp_all
  then have br: "\<bar>b * r\<bar> \<le> 2 ^ 52" by simp
  then have p: "round_to_double (real_of_int b * real_of_int r)
                 = Finite (real_of_int b * real_of_int r)"
    using round_to_double_of_int [of "b * r"] by simp
  have "\<bar>a - b * r\<bar> \<le> 2 ^ 53" using assms(1) br by simp
  then have d: "round_to_double (real_of_int a - real_of_int b * real_of_int r)
                 = Finite (real_of_int a - real_of_int b * real_of_int r)"
    using round_to_double_of_int [of "a - b * r"] by simp
  have "a \<noteq> b * r" using assms(4) by auto
  then have "1 \<le> \<bar>a - b * r\<bar>" by simp
  then have "real_of_int 1 \<le> real_of_int \<bar>a - b * r\<bar>" by (simp only: of_int_le_iff)
  then have one: "1 \<le> \<bar>real_of_int (a - b * r)\<bar>" by simp
  have "time_step_residue (of_int a) (of_int b) = Finite \<bar>real_of_int (a - b * r)\<bar>"
    using assms(3) by (simp add: time_step_residue_def v r p d)
  then show ?thesis using one by blast
qed

lemma PreSolveChecks_future:
  "PreSolveChecks s = Inr () \<Longrightarrow> mCurrentTime s < SimulationDuration (config s)"
  by (cases "mpCardiacTissue s = None"; cases "SimulationDuration (config s) \<le> mCurrentTime s")
     (simp_all add: PreSolveChecks_def)

lemma PreSolveChecks_whole_steps:
  assumes "mpCardiacTissue s \<noteq> None" and "mCurrentTime s < SimulationDuration (config s)"
    and "mPrintOutput s \<longrightarrow>
           OutputDirectory (config s) \<noteq> [] \<and> OutputFilenamePrefix (config s) \<noteq> []"
    and "is_double (SimulationDuration (config s))"
    and "SimulationDuration (config s) = PdeTimeStep (config s) * of_int n"
    and "\<bar>n\<bar> \<le> 2 ^ 53"
  shows "PreSolveChecks s = Inr ()"
proof -
  have "\<not> double_greater
          (time_step_residue (SimulationDuration (config s)) (PdeTimeStep (config s)))
          (round_to_double (1 / 10 ^ 10))"
    unfolding time_step_residue_multiple [OF assms(4-6)] tolerance_value by simp
  then show ?thesis using assms(1-3) by (auto simp: PreSolveChecks_def Let_def)
qed

lemma PreSolveChecks_unit_step:
  assumes "mpCardiacTissue s \<noteq> None" and "mCurrentTime s < SimulationDuration (config s)"
    and "mPrintOutput s \<longrightarrow>
           OutputDirectory (config s) \<noteq> [] \<and> OutputFilenamePrefix (config s) \<noteq> []"
    and "PdeTimeStep (config s) = 1" and "SimulationDuration (config s) = of_int n"
    and "\<bar>n\<bar> \<le> 2 ^ 53"
  shows "PreSolveChecks s = Inr ()"
proof (rule PreSolveChecks_whole_steps [OF assms(1-3)])
  show "is_double (SimulationDuration (config s))"
    unfolding assms(5) using assms(6) by (rule is_double_of_int)
  show "SimulationDuration (config s) = PdeTimeStep (config s) * of_int n"
    by (simp add: assms(4,5))
  show "\<bar>n\<bar> \<le> 2 ^ 53" by (rule assms(6))
qed

section \<open>The initial condition\<close>

lemma seed_node_length [simp]: "length (seed_node e n d) = length d"
  by (simp add: seed_node_def Let_def)

lemma fold_seed_length [simp]: "length (fold (seed_node e) ns d) = length d"
  by (induction ns arbitrary: d) simp_all

lemma seed_node_nth:
  "j < length d \<Longrightarrow>
   seed_node e n d ! j =
     (if PROBLEM_DIM e = 2 \<and> j = n * 2 + 1 then 0
      else if j = n * PROBLEM_DIM e then cell_voltage e n else d ! j)"
  by (auto simp: seed_node_def stripe_index_def Let_def nth_list_update)

lemma fold_seed_nth:
  "0 < PROBLEM_DIM e \<Longrightarrow> j < length d \<Longrightarrow>
   fold (seed_node e) ns d ! j =
     (if PROBLEM_DIM e = 2 \<and> (\<exists>n\<in>set ns. j = n * 2 + 1) then 0
      else if \<exists>n\<in>set ns. j = n * PROBLEM_DIM e then cell_voltage e (j div PROBLEM_DIM e)
      else d ! j)"
proof (induction ns arbitrary: d)
  case Nil
  then show ?case by simp
next
  case (Cons n ns)
  have len: "j < length (seed_node e n d)" using Cons.prems by simp
  show ?case
    using Cons.IH [OF Cons.prems(1) len] Cons.prems
    by (auto simp: seed_node_nth)
qed

lemma CreateInitialCondition_data:
  "vec_data (snd (CreateInitialCondition e m s)) (fst (CreateInitialCondition e m s)) =
     fold (seed_node e) [local_lo m ..< local_hi m]
       (map (factory_fill e) [0 ..< NumNodes m * PROBLEM_DIM e])"
  by (simp add: CreateInitialCondition_def CreateVec_def alloc_def Let_def split_def)

lemma stripe_in_range:
  "node < NumNodes m \<Longrightarrow> i < PROBLEM_DIM e \<Longrightarrow> stripe_index e i node < NumNodes m * PROBLEM_DIM e"
proof -
  assume a: "node < NumNodes m" and b: "i < PROBLEM_DIM e"
  have "node * PROBLEM_DIM e + i < Suc node * PROBLEM_DIM e" using b by simp
  also have "\<dots> \<le> NumNodes m * PROBLEM_DIM e" using a by (intro mult_le_mono1) simp
  finally show ?thesis by (simp add: stripe_index_def)
qed

lemma stripe_not_first:
  "0 < i \<Longrightarrow> i < PROBLEM_DIM e \<Longrightarrow> stripe_index e i node \<noteq> n * PROBLEM_DIM e"
proof
  assume a: "0 < i" and b: "i < PROBLEM_DIM e" and c: "stripe_index e i node = n * PROBLEM_DIM e"
  have "(node * PROBLEM_DIM e + i) mod PROBLEM_DIM e = (n * PROBLEM_DIM e) mod PROBLEM_DIM e"
    using c by (simp add: stripe_index_def)
  then have "i = 0" using b by simp
  then show False using a by simp
qed

lemma even_not_odd [simp]: "((node::nat) * 2 = Suc (n * 2)) = False"
  by presburger

lemma unknowns_beyond_first_kept:
  assumes "0 < PROBLEM_DIM e" and "PROBLEM_DIM e \<noteq> 2"
    and "node < NumNodes m" and "0 < i" and "i < PROBLEM_DIM e"
  shows "vec_data (snd (CreateInitialCondition e m s)) (fst (CreateInitialCondition e m s))
           ! stripe_index e i node = factory_fill e (stripe_index e i node)"
proof -
  have r: "stripe_index e i node < NumNodes m * PROBLEM_DIM e"
    using assms by (intro stripe_in_range) simp_all
  have "\<not> (\<exists>k\<in>set [local_lo m ..< local_hi m]. stripe_index e i node = k * PROBLEM_DIM e)"
    using assms stripe_not_first by blast
  then show ?thesis
    using assms r by (simp add: CreateInitialCondition_data fold_seed_nth)
qed

lemma second_unknown_zero:
  assumes "PROBLEM_DIM e = 2"
    and "local_lo m \<le> node" and "node < local_hi m" and "node < NumNodes m"
  shows "vec_data (snd (CreateInitialCondition e m s)) (fst (CreateInitialCondition e m s))
           ! stripe_index e 1 node = 0"
proof -
  have "stripe_index e 1 node < NumNodes m * PROBLEM_DIM e"
    using assms by (intro stripe_in_range) simp_all
  then show ?thesis
    using assms
    by (simp add: CreateInitialCondition_data fold_seed_nth) (auto simp: stripe_index_def)
qed

lemma first_unknown_voltage:
  assumes "0 < PROBLEM_DIM e"
    and "local_lo m \<le> node" and "node < local_hi m" and "node < NumNodes m"
  shows "vec_data (snd (CreateInitialCondition e m s)) (fst (CreateInitialCondition e m s))
           ! stripe_index e 0 node = cell_voltage e node"
proof -
  have "stripe_index e 0 node < NumNodes m * PROBLEM_DIM e"
    using assms by (intro stripe_in_range) simp_all
  then show ?thesis
    using assms
    by (simp add: CreateInitialCondition_data fold_seed_nth) (auto simp: stripe_index_def)
qed

section \<open>Opening the writer\<close>

lemma index_of_member: "name \<in> set cs \<Longrightarrow> \<exists>i. index_of name cs = Some i"
  by (induction cs) auto

lemma extension_check_conflict:
  assumes "mSolution s = Some v" and "h5_file s = Some f" and "h5_rows f \<noteq> []"
    and "mCurrentTime s < fst (last (h5_rows f))"
  shows "extension_check s = Inl ResumeConflict"
  using assms by (simp add: extension_check_def last_map)

lemma extension_check_extend:
  assumes "mSolution s = Some v" and "h5_file s = Some f" and "h5_rows f \<noteq> []"
    and "fst (last (h5_rows f)) \<le> mCurrentTime s"
  shows "extension_check s = Inr True"
  using assms by (simp add: extension_check_def last_map)

lemma InitialiseWriter_conflict:
  assumes "mSolution s = Some v" and "h5_file s = Some f" and "h5_rows f \<noteq> []"
    and "mCurrentTime s < fst (last (h5_rows f))" and "mpWriter s = None"
  shows "InitialiseWriter e m s = (Inl ResumeConflict, s)"
  using extension_check_conflict [OF assms(1-4)] assms(5)
  by (simp add: InitialiseWriter_def)

lemma DefineWriterColumns_extending:
  assumes "mpWriter s = Some w" and "h5_file s = Some f"
    and "index_of ''V'' (h5_columns f) = Some i"
  shows "DefineWriterColumns e m True s = (Inr (), s\<lparr>mVoltageColumnId := i\<rparr>)"
  using assms by (simp add: DefineWriterColumns_def GetVariableByName_def file_columns_def)

lemma InitialiseWriter_extend:
  assumes "mSolution s = Some v" and "h5_file s = Some f" and "h5_rows f \<noteq> []"
    and "fst (last (h5_rows f)) \<le> mCurrentTime s" and "mpWriter s = None"
    and "''V'' \<in> set (h5_columns f)"
  shows "fst (InitialiseWriter e m s) = Inr True \<and>
         h5_file (snd (InitialiseWriter e m s)) = Some f \<and>
         mSolution (snd (InitialiseWriter e m s)) = Some v \<and>
         (\<exists>w. mpWriter (snd (InitialiseWriter e m s)) = Some w \<and> w_extending w \<and>
              \<not> w_define_mode w \<and> w_cursor w = length (h5_rows f))"
proof -
  let ?s1 = "Hdf5DataWriter True s"
  have w: "mpWriter ?s1 \<noteq> None" and f: "h5_file ?s1 = Some f"
    using assms by (simp_all add: Hdf5DataWriter_def)
  obtain w1 where w1: "mpWriter ?s1 = Some w1" using w by blast
  obtain i where i: "index_of ''V'' (h5_columns f) = Some i"
    using index_of_member [OF assms(6)] by blast
  have d: "DefineWriterColumns e m True ?s1 = (Inr (), ?s1\<lparr>mVoltageColumnId := i\<rparr>)"
    using DefineWriterColumns_extending [OF w1 f i] .
  show ?thesis
    using extension_check_extend [OF assms(1-4)] assms(1,2,5) d
    by (simp add: InitialiseWriter_def Let_def update_writer_def)
       (simp add: Hdf5DataWriter_def)
qed

lemma Solve_resume_conflict_state:
  assumes "PreSolveChecks s = Inr ()" and "mpMesh s = Some m" and "mpSolver s = None"
    and "mPrintOutput s"
    and "mSolution s = Some v" and "h5_file s = Some f" and "h5_rows f \<noteq> []"
    and "mCurrentTime s < fst (last (h5_rows f))" and "mpWriter s = None"
  shows "Solve e s =
           (Inl ResumeConflict,
            (default_boundary_conditions e s)
              \<lparr>next_addr := Suc (next_addr s), mpSolver := Some (next_addr s),
               released := released s @ [next_addr s]\<rparr>)"
proof -
  define s3 where "s3 = (default_boundary_conditions e s)
                          \<lparr>next_addr := Suc (next_addr s), mpSolver := Some (next_addr s)\<rparr>"
  have c: "InitialiseWriter e m s3 = (Inl ResumeConflict, s3)"
    using assms by (intro InitialiseWriter_conflict [where v = v and f = f])
      (simp_all add: s3_def)
  have o: "open_output e m v s3 = (Inl ResumeConflict, writer_failure_handler v s3)"
    using assms c by (simp add: open_output_def ResumeConflict_def s3_def)
  have "Solve e s = (Inl ResumeConflict, writer_failure_handler v s3)"
    using assms o
    by (simp add: Solve_def Solve_prepare_def Let_def alloc_def initial_condition_of_def
          s3_def)
  moreover have "writer_failure_handler v s3 =
      (default_boundary_conditions e s)
              \<lparr>next_addr := Suc (next_addr s), mpSolver := Some (next_addr s),
               released := released s @ [next_addr s]\<rparr>"
    using assms
    by (simp add: writer_failure_handler_def Let_def s3_def delete_writer_def
          delete_solver_def Destroy_def)
  ultimately show ?thesis by simp
qed

lemma Solve_resume_conflict:
  assumes "PreSolveChecks s = Inr ()" and "mpMesh s = Some m" and "mpSolver s = None"
    and "mPrintOutput s"
    and "mSolution s = Some v" and "h5_file s = Some f" and "h5_rows f \<noteq> []"
    and "mCurrentTime s < fst (last (h5_rows f))" and "mpWriter s = None"
  shows "fst (Solve e s) = Inl ResumeConflict \<and>
         h5_file (snd (Solve e s)) = Some f \<and>
         mpWriter (snd (Solve e s)) = None \<and>
         mpSolver (snd (Solve e s)) = Some (next_addr s) \<and>
         released (snd (Solve e s)) = released s @ [next_addr s] \<and>
         mSolution (snd (Solve e s)) = Some v"
  using assms by (simp add: Solve_resume_conflict_state [OF assms])

lemma PreSolveChecks_cong:
  assumes "mpCardiacTissue s' = mpCardiacTissue s" and "mCurrentTime s' = mCurrentTime s"
    and "config s' = config s" and "mPrintOutput s' = mPrintOutput s"
  shows "PreSolveChecks s' = PreSolveChecks s"
  by (simp only: PreSolveChecks_def assms)

lemma Solve_stale_solver:
  assumes "PreSolveChecks s = Inr ()" and "mpMesh s = Some m" and "mpSolver s \<noteq> None"
  shows "fst (Solve e s) = Inl (AssertionFailure ''mpSolver == nullptr'')"
  using assms by (simp add: Solve_def Solve_prepare_def Let_def)

section \<open>Gathering the extra variables\<close>

lemma gather_result:
  "gather e m t name idx ns d = Inr d' \<Longrightarrow>
   length d' = length d \<and>
   (\<forall>n < length d. d' ! n =
      (if n \<in> set ns
       then (if IsRegionBath e (node_region m n) then 0 else cell_variable e idx n name t)
       else d ! n)) \<and>
   ((\<exists>n \<in> set ns. \<not> IsRegionBath e (node_region m n)) \<longrightarrow> idx < 3)"
proof (induction ns arbitrary: d)
  case Nil
  then show ?case by simp
next
  case (Cons a ns)
  show ?case
  proof (cases "IsRegionBath e (node_region m a)")
    case True
    then have g: "gather e m t name idx ns (d[a := 0]) = Inr d'"
      using Cons.prems by simp
    show ?thesis
      using Cons.IH [OF g] True by (auto simp: nth_list_update)
  next
    case False
    then have i: "idx < 3" using Cons.prems by (simp split: if_splits)
    then have g: "gather e m t name idx ns (d[a := cell_variable e idx a name t]) = Inr d'"
      using Cons.prems False by simp
    show ?thesis
      using Cons.IH [OF g] False i by (auto simp: nth_list_update)
  qed
qed

lemma CreateVec_state:
  "CreateVec e m stride s =
     (next_addr s,
      s\<lparr>next_addr := Suc (next_addr s),
        vec_data := (vec_data s)(next_addr s := map (factory_fill e) [0 ..< NumNodes m * stride])\<rparr>)"
  by (simp add: CreateVec_def alloc_def)

lemma write_variables_Cons_Inr:
  assumes "write_variables e m ((v, c) # vcs) s = (Inr (), s')" and "mpWriter s = Some w"
  shows "\<exists>name idx d s2.
           split_variable v = Inr (name, idx) \<and>
           gather e m (mCurrentTime s) name idx [local_lo m ..< local_hi m]
             (map (factory_fill e) [0 ..< NumNodes m]) = Inr d \<and>
           mpWriter s2 = Some (w\<lparr>w_pending := w_pending w @ [(c, d)]\<rparr>) \<and>
           mCurrentTime s2 = mCurrentTime s \<and>
           write_variables e m vcs s2 = (Inr (), s')"
proof -
  obtain name idx where sp: "split_variable v = Inr (name, idx)"
    using assms(1) by (cases "split_variable v") (auto simp: CreateVec_state)
  obtain d where g: "gather e m (mCurrentTime s) name idx [local_lo m ..< local_hi m]
             (map (factory_fill e) [0 ..< NumNodes m]) = Inr d"
    using assms(1)
    by (cases "gather e m (mCurrentTime s) name idx [local_lo m ..< local_hi m]
             (map (factory_fill e) [0 ..< NumNodes m])")
       (auto simp: CreateVec_state sp)
  show ?thesis
    using assms sp g
    by (auto simp: CreateVec_state PutVector_def intro!: exI
          [of _ "Destroy (next_addr s)
                  (s\<lparr>next_addr := Suc (next_addr s),
                     vec_data := (vec_data s)(next_addr s := d),
                     mpWriter := Some (w\<lparr>w_pending := w_pending w @ [(c, d)]\<rparr>)\<rparr>)"])
qed

lemma write_variables_pending:
  "write_variables e m vcs s = (Inr (), s') \<Longrightarrow> mpWriter s = Some w \<Longrightarrow>
   \<exists>ds. mpWriter s' = Some (w\<lparr>w_pending := w_pending w @ zip (map snd vcs) ds\<rparr>) \<and>
        length ds = length vcs \<and>
        (\<forall>k < length vcs. \<exists>name idx.
           split_variable (fst (vcs ! k)) = Inr (name, idx) \<and>
           gather e m (mCurrentTime s) name idx [local_lo m ..< local_hi m]
             (map (factory_fill e) [0 ..< NumNodes m]) = Inr (ds ! k))"
proof (induction vcs arbitrary: s w)
  case Nil
  then show ?case by simp
next
  case (Cons vc vcs)
  obtain v c where vc: "vc = (v, c)" by (cases vc)
  obtain name idx d s2 where sp: "split_variable v = Inr (name, idx)"
    and g: "gather e m (mCurrentTime s) name idx [local_lo m ..< local_hi m]
             (map (factory_fill e) [0 ..< NumNodes m]) = Inr d"
    and w1: "mpWriter s2 = Some (w\<lparr>w_pending := w_pending w @ [(c, d)]\<rparr>)"
    and t: "mCurrentTime s2 = mCurrentTime s"
    and rest: "write_variables e m vcs s2 = (Inr (), s')"
    using write_variables_Cons_Inr [OF Cons.prems(1) [unfolded vc] Cons.prems(2)] by blast
  let ?w1 = "w\<lparr>w_pending := w_pending w @ [(c, d)]\<rparr>"
  obtain ds where ds: "mpWriter s' = Some (?w1\<lparr>w_pending := w_pending ?w1 @ zip (map snd vcs) ds\<rparr>)"
      "length ds = length vcs"
      "\<forall>k < length vcs. \<exists>name idx.
           split_variable (fst (vcs ! k)) = Inr (name, idx) \<and>
           gather e m (mCurrentTime s2) name idx [local_lo m ..< local_hi m]
             (map (factory_fill e) [0 ..< NumNodes m]) = Inr (ds ! k)"
    using Cons.IH [OF rest w1] by blast
  have "\<forall>k < length (vc # vcs). \<exists>name idx.
           split_variable (fst ((vc # vcs) ! k)) = Inr (name, idx) \<and>
           gather e m (mCurrentTime s) name idx [local_lo m ..< local_hi m]
             (map (factory_fill e) [0 ..< NumNodes m]) = Inr ((d # ds) ! k)"
  proof (intro allI impI)
    fix k assume "k < length (vc # vcs)"
    then show "\<exists>name idx.
           split_variable (fst ((vc # vcs) ! k)) = Inr (name, idx) \<and>
           gather e m (mCurrentTime s) name idx [local_lo m ..< local_hi m]
             (map (factory_fill e) [0 ..< NumNodes m]) = Inr ((d # ds) ! k)"
      using ds(3) sp g t by (cases k) (auto simp: vc)
  qed
  moreover have "mpWriter s' = Some (w\<lparr>w_pending := w_pending w @ zip (map snd (vc # vcs)) (d # ds)\<rparr>)"
    using ds(1) by (simp add: vc)
  moreover have "length (d # ds) = length (vc # vcs)" using ds(2) by simp
  ultimately show ?case by blast
qed

lemma gather_ok: "idx < 3 \<Longrightarrow> \<exists>d'. gather e m t name idx ns d = Inr d'"
  by (induction ns arbitrary: d) simp_all

lemma write_variables_ok:
  "mpWriter s \<noteq> None \<Longrightarrow>
   \<forall>vc \<in> set vcs. \<exists>name idx. split_variable (fst vc) = Inr (name, idx) \<and> idx < 3 \<Longrightarrow>
   fst (write_variables e m vcs s) = Inr ()"
proof (induction vcs arbitrary: s)
  case Nil
  then show ?case by simp
next
  case (Cons vc vcs)
  obtain v c where vc: "vc = (v, c)" by (cases vc)
  obtain name idx where sp: "split_variable v = Inr (name, idx)" and i: "idx < 3"
    using Cons.prems(2) vc by auto
  obtain w where w: "mpWriter s = Some w" using Cons.prems(1) by blast
  obtain d where g: "gather e m (mCurrentTime s) name idx [local_lo m ..< local_hi m]
             (map (factory_fill e) [0 ..< NumNodes m]) = Inr d"
    using gather_ok [OF i] by blast
  let ?s2 = "Destroy (next_addr s)
                  (s\<lparr>next_addr := Suc (next_addr s),
                     vec_data := (vec_data s)(next_addr s := d),
                     mpWriter := Some (w\<lparr>w_pending := w_pending w @ [(c, d)]\<rparr>)\<rparr>)"
  have step: "write_variables e m (vc # vcs) s = write_variables e m vcs ?s2"
    using sp g w by (simp add: vc CreateVec_state PutVector_def)
  have "fst (write_variables e m vcs ?s2) = Inr ()"
    using Cons.prems(2) by (intro Cons.IH) simp_all
  then show ?case by (simp only: step)
qed

section \<open>Writing output leaves the allocator in order\<close>

lemma output_step_refl: "output_step s s"
  unfolding output_step_def
  by (rule exI [of _ "next_addr s"], rule exI [of _ "[]"], rule exI [of _ "mpWriter s"],
      rule exI [of _ "vec_data s"], rule exI [of _ "h5_file s"]) simp

lemma output_step_trans:
  assumes "output_step s s1" and "output_step s1 s2"
  shows "output_step s s2"
proof -
  obtain n1 new1 wr1 vd1 hf1 where
    s1: "s1 = s\<lparr>next_addr := n1, released := released s @ new1, mpWriter := wr1,
                 vec_data := vd1, h5_file := hf1\<rparr>"
    and a1: "next_addr s \<le> n1" "distinct new1"
        "\<forall>a \<in> set new1. next_addr s \<le> a \<and> a < n1" "\<forall>a < next_addr s. vd1 a = vec_data s a"
    using assms(1) unfolding output_step_def by blast
  obtain n2 new2 wr2 vd2 hf2 where
    s2: "s2 = s1\<lparr>next_addr := n2, released := released s1 @ new2, mpWriter := wr2,
                  vec_data := vd2, h5_file := hf2\<rparr>"
    and a2: "next_addr s1 \<le> n2" "distinct new2"
        "\<forall>a \<in> set new2. next_addr s1 \<le> a \<and> a < n2" "\<forall>a < next_addr s1. vd2 a = vec_data s1 a"
    using assms(2) unfolding output_step_def by blast
  have n: "next_addr s1 = n1" and v: "vec_data s1 = vd1" by (simp_all add: s1)
  have eq: "s2 = s\<lparr>next_addr := n2, released := released s @ (new1 @ new2), mpWriter := wr2,
                   vec_data := vd2, h5_file := hf2\<rparr>"
    by (simp add: s2 s1)
  have d: "distinct (new1 @ new2)"
    using a1(2,3) a2(2,3) n by fastforce
  have r: "\<forall>a \<in> set (new1 @ new2). next_addr s \<le> a \<and> a < n2"
    using a1(1,3) a2(1,3) n by fastforce
  have k: "\<forall>a < next_addr s. vd2 a = vec_data s a"
    using a1(1,4) a2(4) n v by fastforce
  have le: "next_addr s \<le> n2" using a1(1) a2(1) n by simp
  show ?thesis
    unfolding output_step_def
    by (rule exI [of _ n2], rule exI [of _ "new1 @ new2"], rule exI [of _ wr2],
        rule exI [of _ vd2], rule exI [of _ hf2]) (intro conjI eq le d r k)
qed

lemma output_step_frame:
  assumes "output_step s s'"
  shows "mSolution s' = mSolution s" and "mpSolver s' = mpSolver s"
    and "mPrintOutput s' = mPrintOutput s" and "mCurrentTime s' = mCurrentTime s"
    and "config s' = config s" and "trace s' = trace s"
    and "mVoltageColumnId s' = mVoltageColumnId s"
    and "mExtraVariablesId s' = mExtraVariablesId s"
    and "mOutputModifiers s' = mOutputModifiers s" and "mWriteInfo s' = mWriteInfo s"
    and "mNodesToOutput s' = mNodesToOutput s" and "mpMesh s' = mpMesh s"
    and "mpCardiacTissue s' = mpCardiacTissue s"
    and "next_addr s \<le> next_addr s'"
    and "\<forall>a < next_addr s. vec_data s' a = vec_data s a"
  using assms unfolding output_step_def by auto

lemma output_step_writer: "output_step s (s\<lparr>mpWriter := wr\<rparr>)"
  unfolding output_step_def
  by (rule exI [of _ "next_addr s"], rule exI [of _ "[]"], rule exI [of _ wr],
      rule exI [of _ "vec_data s"], rule exI [of _ "h5_file s"]) simp

lemma output_step_file: "output_step s (s\<lparr>h5_file := hf\<rparr>)"
  unfolding output_step_def
  by (rule exI [of _ "next_addr s"], rule exI [of _ "[]"], rule exI [of _ "mpWriter s"],
      rule exI [of _ "vec_data s"], rule exI [of _ hf]) simp

lemma output_step_alloc:
  "output_step s (s\<lparr>next_addr := Suc (next_addr s), vec_data := (vec_data s)(next_addr s := d)\<rparr>)"
  unfolding output_step_def
  by (rule exI [of _ "Suc (next_addr s)"], rule exI [of _ "[]"], rule exI [of _ "mpWriter s"],
      rule exI [of _ "(vec_data s)(next_addr s := d)"], rule exI [of _ "h5_file s"]) simp

lemma output_step_temporary:
  "output_step s
     (Destroy (next_addr s)
        (s\<lparr>next_addr := Suc (next_addr s), vec_data := (vec_data s)(next_addr s := d),
           mpWriter := wr\<rparr>))"
  unfolding output_step_def
  by (rule exI [of _ "Suc (next_addr s)"], rule exI [of _ "[next_addr s]"], rule exI [of _ wr],
      rule exI [of _ "(vec_data s)(next_addr s := d)"], rule exI [of _ "h5_file s"])
     (simp add: Destroy_def)

lemma write_variables_output_step: "output_step s (snd (write_variables e m vcs s))"
proof (induction vcs arbitrary: s)
  case Nil
  show ?case by (simp add: output_step_refl)
next
  case (Cons vc vcs)
  obtain v c where vc: "vc = (v, c)" by (cases vc)
  let ?a = "next_addr s"
  let ?fill = "map (factory_fill e) [0 ..< NumNodes m]"
  have s1: "output_step s (s\<lparr>next_addr := Suc ?a, vec_data := (vec_data s)(?a := ?fill)\<rparr>)"
    by (rule output_step_alloc)
  show ?case
  proof (cases "split_variable v")
    case (Inl x)
    then show ?thesis using s1 by (simp add: vc CreateVec_state)
  next
    case (Inr p)
    obtain name idx where p: "p = (name, idx)" by (cases p)
    show ?thesis
    proof (cases "gather e m (mCurrentTime s) name idx [local_lo m ..< local_hi m] ?fill")
      case (Inl x)
      then show ?thesis using s1 Inr by (simp add: vc p CreateVec_state)
    next
      case g: (Inr d)
      show ?thesis
      proof (cases "mpWriter s")
        case None
        have "output_step s (s\<lparr>next_addr := Suc ?a, vec_data := (vec_data s)(?a := d)\<rparr>)"
          by (rule output_step_alloc)
        then show ?thesis
          using Inr g None by (simp add: vc p CreateVec_state PutVector_def)
      next
        case (Some w)
        let ?s2 = "Destroy ?a (s\<lparr>next_addr := Suc ?a, vec_data := (vec_data s)(?a := d),
                       mpWriter := Some (w\<lparr>w_pending := w_pending w @ [(c, d)]\<rparr>)\<rparr>)"
        have step: "write_variables e m (vc # vcs) s = write_variables e m vcs ?s2"
          using Inr g Some by (simp add: vc p CreateVec_state PutVector_def)
        have "output_step s ?s2" by (rule output_step_temporary)
        then show ?thesis
          unfolding step using Cons.IH [of ?s2] by (rule output_step_trans)
      qed
    qed
  qed
qed

lemma WriteExtraVariablesOneStep_output_step:
  "output_step s (snd (WriteExtraVariablesOneStep e m s))"
  by (simp add: WriteExtraVariablesOneStep_def Let_def write_variables_output_step
        output_step_refl del: write_variables.simps)

lemma WriteOneStep_output_step: "output_step s (snd (WriteOneStep e m time v s))"
proof (cases "mpWriter s")
  case None
  then show ?thesis
    by (simp add: WriteOneStep_def PutUnlimitedVariable_def output_step_refl)
next
  case (Some w)
  let ?w2 = "w\<lparr>w_time := Some time, w_pending := w_pending w @ [(mVoltageColumnId s, vec_data s v)]\<rparr>"
  let ?s2 = "s\<lparr>mpWriter := Some ?w2\<rparr>"
  have eq: "WriteOneStep e m time v s = WriteExtraVariablesOneStep e m ?s2"
    using Some by (simp add: WriteOneStep_def PutUnlimitedVariable_def PutVector_def)
  have "output_step s ?s2" by (rule output_step_writer)
  then show ?thesis
    unfolding eq using WriteExtraVariablesOneStep_output_step [of ?s2 e m]
    by (rule output_step_trans)
qed

lemma AdvanceAlongUnlimitedDimension_state:
  "mpWriter s = Some w \<Longrightarrow>
   AdvanceAlongUnlimitedDimension s =
     Inr (s\<lparr>h5_file := (if w_time w = None \<and> w_pending w = [] then h5_file s
                        else map_option
                               (\<lambda>f. f\<lparr>h5_rows := h5_rows f @
                                     [(case w_time w of None \<Rightarrow> 0 | Some t \<Rightarrow> t,
                                       w_pending w)]\<rparr>) (h5_file s)),
            mpWriter := Some (w\<lparr>w_time := None, w_pending := [],
                                 w_cursor := Suc (w_cursor w)\<rparr>)\<rparr>)"
  by (simp add: AdvanceAlongUnlimitedDimension_def Let_def update_file_def)

lemma AdvanceAlongUnlimitedDimension_output_step:
  assumes "AdvanceAlongUnlimitedDimension s = Inr s'"
  shows "output_step s s'"
proof -
  obtain w where w: "mpWriter s = Some w"
    using assms by (cases "mpWriter s") (simp_all add: AdvanceAlongUnlimitedDimension_def)
  obtain hf wr where "s' = s\<lparr>h5_file := hf, mpWriter := wr\<rparr>"
    using assms unfolding AdvanceAlongUnlimitedDimension_state [OF w] by blast
  then have "s' = (s\<lparr>mpWriter := wr\<rparr>)\<lparr>h5_file := hf\<rparr>" by simp
  then show ?thesis
    using output_step_trans [OF output_step_writer output_step_file] by simp
qed

lemma write_and_advance_output_step:
  "output_step s (snd (write_and_advance e m time v s))"
proof (cases "WriteOneStep e m time v s")
  case (Pair r s1)
  have o1: "output_step s s1" using WriteOneStep_output_step [of s e m time v] Pair by simp
  show ?thesis
  proof (cases r)
    case (Inl x)
    then show ?thesis using o1 Pair by (simp add: write_and_advance_def)
  next
    case (Inr u)
    show ?thesis
    proof (cases "AdvanceAlongUnlimitedDimension s1")
      case (Inl x)
      then show ?thesis using o1 Pair Inr by (simp add: write_and_advance_def)
    next
      case a: (Inr s2)
      have "output_step s1 s2" using a by (rule AdvanceAlongUnlimitedDimension_output_step)
      then have "output_step s s2" using o1 output_step_trans by blast
      then show ?thesis using Pair Inr a by (simp add: write_and_advance_def)
    qed
  qed
qed

lemma heap_ok_output_step:
  assumes "heap_ok s" and "output_step s s'"
  shows "heap_ok s'"
proof -
  obtain n new wr vd hf where
    s': "s' = s\<lparr>next_addr := n, released := released s @ new, mpWriter := wr,
                 vec_data := vd, h5_file := hf\<rparr>"
    and a: "next_addr s \<le> n" "distinct new" "\<forall>a \<in> set new. next_addr s \<le> a \<and> a < n"
    using assms(2) unfolding output_step_def by blast
  show ?thesis
    using assms(1) a unfolding heap_ok_def s' by fastforce
qed

lemma loop_inv_output_step:
  assumes "loop_inv ic s" and "output_step s s'"
  shows "loop_inv ic s'"
proof -
  obtain n new wr vd hf where
    s': "s' = s\<lparr>next_addr := n, released := released s @ new, mpWriter := wr,
                 vec_data := vd, h5_file := hf\<rparr>"
    and a: "next_addr s \<le> n" "distinct new" "\<forall>a \<in> set new. next_addr s \<le> a \<and> a < n"
    using assms(2) unfolding output_step_def by blast
  show ?thesis
    using assms(1) a unfolding loop_inv_def s' by fastforce
qed

lemma loop_inv_heap_ok: "loop_inv ic s \<Longrightarrow> heap_ok s"
  unfolding loop_inv_def heap_ok_def by auto

lemma loop_inv_cong:
  assumes "released s' = released s" and "next_addr s' = next_addr s"
    and "mSolution s' = mSolution s" and "mpSolver s' = mpSolver s"
  shows "loop_inv ic s' = loop_inv ic s"
  by (simp only: loop_inv_def assms)

lemma heap_ok_cong:
  assumes "released s' = released s" and "next_addr s' = next_addr s"
    and "mSolution s' = mSolution s"
  shows "heap_ok s' = heap_ok s"
  by (simp only: heap_ok_def assms)

section \<open>The allocator through Solve\<close>

lemma Hdf5DataWriter_frame [simp]:
  "released (Hdf5DataWriter ext s) = released s"
  "next_addr (Hdf5DataWriter ext s) = next_addr s"
  "mSolution (Hdf5DataWriter ext s) = mSolution s"
  "mpSolver (Hdf5DataWriter ext s) = mpSolver s"
  "mPrintOutput (Hdf5DataWriter ext s) = mPrintOutput s"
  "mCurrentTime (Hdf5DataWriter ext s) = mCurrentTime s"
  "vec_data (Hdf5DataWriter ext s) = vec_data s"
  "trace (Hdf5DataWriter ext s) = trace s"
  "mNodesToOutput (Hdf5DataWriter ext s) = mNodesToOutput s"
  "mExtraVariablesId (Hdf5DataWriter ext s) = mExtraVariablesId s"
  "mOutputModifiers (Hdf5DataWriter ext s) = mOutputModifiers s"
  "mWriteInfo (Hdf5DataWriter ext s) = mWriteInfo s"
  "config (Hdf5DataWriter ext s) = config s"
  by (simp_all add: Hdf5DataWriter_def)

lemma DefineWriterColumns_frame:
  "released (snd (DefineWriterColumns e m ext s)) = released s"
  "next_addr (snd (DefineWriterColumns e m ext s)) = next_addr s"
  "mSolution (snd (DefineWriterColumns e m ext s)) = mSolution s"
  "mpSolver (snd (DefineWriterColumns e m ext s)) = mpSolver s"
  "mPrintOutput (snd (DefineWriterColumns e m ext s)) = mPrintOutput s"
  "mCurrentTime (snd (DefineWriterColumns e m ext s)) = mCurrentTime s"
  "vec_data (snd (DefineWriterColumns e m ext s)) = vec_data s"
  "trace (snd (DefineWriterColumns e m ext s)) = trace s"
  "mNodesToOutput (snd (DefineWriterColumns e m ext s)) = mNodesToOutput s"
  "mExtraVariablesId (snd (DefineWriterColumns e m ext s)) = mExtraVariablesId s"
  "mOutputModifiers (snd (DefineWriterColumns e m ext s)) = mOutputModifiers s"
  "mWriteInfo (snd (DefineWriterColumns e m ext s)) = mWriteInfo s"
  "config (snd (DefineWriterColumns e m ext s)) = config s"
  by (simp_all add: DefineWriterColumns_def DefineVariable_def Let_def split: sum.split)

lemma InitialiseWriter_frame:
  "released (snd (InitialiseWriter e m s)) = released s"
  "next_addr (snd (InitialiseWriter e m s)) = next_addr s"
  "mSolution (snd (InitialiseWriter e m s)) = mSolution s"
  "mpSolver (snd (InitialiseWriter e m s)) = mpSolver s"
  "mPrintOutput (snd (InitialiseWriter e m s)) = mPrintOutput s"
  "mCurrentTime (snd (InitialiseWriter e m s)) = mCurrentTime s"
  "vec_data (snd (InitialiseWriter e m s)) = vec_data s"
  "trace (snd (InitialiseWriter e m s)) = trace s"
  "mNodesToOutput (snd (InitialiseWriter e m s)) = mNodesToOutput s"
  "mExtraVariablesId (snd (InitialiseWriter e m s)) = mExtraVariablesId s"
  "mOutputModifiers (snd (InitialiseWriter e m s)) = mOutputModifiers s"
  "mWriteInfo (snd (InitialiseWriter e m s)) = mWriteInfo s"
  "config (snd (InitialiseWriter e m s)) = config s \<or>
   config (snd (InitialiseWriter e m s)) =
     (config s)\<lparr>OutputUsingOriginalNodeOrdering := False\<rparr>"
proof -
  let ?P = "\<lambda>s'. released s' = released s \<and> next_addr s' = next_addr s \<and>
     mSolution s' = mSolution s \<and> mpSolver s' = mpSolver s \<and> mPrintOutput s' = mPrintOutput s \<and>
     mCurrentTime s' = mCurrentTime s \<and> vec_data s' = vec_data s \<and> trace s' = trace s \<and>
     mNodesToOutput s' = mNodesToOutput s \<and> mExtraVariablesId s' = mExtraVariablesId s \<and>
     mOutputModifiers s' = mOutputModifiers s \<and> mWriteInfo s' = mWriteInfo s"
  let ?C = "\<lambda>s'. config s' = config s \<or>
      config s' = (config s)\<lparr>OutputUsingOriginalNodeOrdering := False\<rparr>"
  have "?P (snd (InitialiseWriter e m s)) \<and> ?C (snd (InitialiseWriter e m s))"
  proof (cases "mpWriter s \<noteq> None")
    case True
    then show ?thesis by (simp add: InitialiseWriter_def)
  next
    case False
    show ?thesis
    proof (cases "extension_check s")
      case (Inl x)
      then show ?thesis using False by (simp add: InitialiseWriter_def)
    next
      case (Inr ext)
      define s2 where "s2 = (if \<not> ext \<and> mHdf5DataWriterChunkSizeAndAlignment (Hdf5DataWriter ext s) \<noteq> 0
                    then update_writer
                           (\<lambda>w. w\<lparr>w_chunk := mHdf5DataWriterChunkSizeAndAlignment (Hdf5DataWriter ext s)\<rparr>)
                           (Hdf5DataWriter ext s)
                    else Hdf5DataWriter ext s)"
      have p2: "?P s2" by (simp add: s2_def)
      obtain r s3 where d: "DefineWriterColumns e m ext s2 = (r, s3)"
        by (cases "DefineWriterColumns e m ext s2")
      have p3: "?P s3"
        using p2 DefineWriterColumns_frame [of e m ext s2] d by simp
      have c3: "config s3 = config s"
        using DefineWriterColumns_frame(13) [of e m ext s2] d by (simp add: s2_def)
      have eq: "InitialiseWriter e m s =
          (case (r, s3) of
               (Inl x, s3) \<Rightarrow> (Inl x, s3)
             | (Inr _, s3) \<Rightarrow>
                 let s4 = (if OutputUsingOriginalNodeOrdering (config s3) then
                             (if ApplyPermutation_ok e
                              then update_writer (\<lambda>w. w\<lparr>w_permuted := True\<rparr>) s3
                              else s3\<lparr>config := (config s3)
                                       \<lparr>OutputUsingOriginalNodeOrdering := False\<rparr>\<rparr>)
                           else s3);
                     s5 = (if \<not> ext
                           then update_writer (\<lambda>w. w\<lparr>w_define_mode := False\<rparr>) s4
                           else s4)
                 in (Inr ext, s5))"
        using False Inr d by (simp add: InitialiseWriter_def s2_def Let_def)
      show ?thesis
        unfolding eq using p3 c3 by (cases r) (simp_all add: Let_def)
    qed
  qed
  then show
    "released (snd (InitialiseWriter e m s)) = released s"
    "next_addr (snd (InitialiseWriter e m s)) = next_addr s"
    "mSolution (snd (InitialiseWriter e m s)) = mSolution s"
    "mpSolver (snd (InitialiseWriter e m s)) = mpSolver s"
    "mPrintOutput (snd (InitialiseWriter e m s)) = mPrintOutput s"
    "mCurrentTime (snd (InitialiseWriter e m s)) = mCurrentTime s"
    "vec_data (snd (InitialiseWriter e m s)) = vec_data s"
    "trace (snd (InitialiseWriter e m s)) = trace s"
    "mNodesToOutput (snd (InitialiseWriter e m s)) = mNodesToOutput s"
    "mExtraVariablesId (snd (InitialiseWriter e m s)) = mExtraVariablesId s"
    "mOutputModifiers (snd (InitialiseWriter e m s)) = mOutputModifiers s"
    "mWriteInfo (snd (InitialiseWriter e m s)) = mWriteInfo s"
    "config (snd (InitialiseWriter e m s)) = config s \<or>
     config (snd (InitialiseWriter e m s)) =
       (config s)\<lparr>OutputUsingOriginalNodeOrdering := False\<rparr>"
    by simp_all
qed

lemma post_processing_events_cong:
  assumes "config s' = config s \<or>
           config s' = (config s)\<lparr>OutputUsingOriginalNodeOrdering := False\<rparr>"
    and "mNodesToOutput s' = mNodesToOutput s"
  shows "post_processing_events s' = post_processing_events s"
  using assms by (auto simp: post_processing_events_def)

lemma InitialiseWriter_post_processing_events:
  "post_processing_events (snd (InitialiseWriter e m s)) = post_processing_events s"
  using InitialiseWriter_frame(9,13) [of e m s] by (rule post_processing_events_cong [rotated])

lemma adopt_solution_state:
  "adopt_solution d ic nt s =
     (next_addr s,
      s\<lparr>next_addr := Suc (next_addr s),
        vec_data := (vec_data s)(next_addr s := d),
        mSolution := Some (next_addr s),
        released := released s @ [ic],
        mCurrentTime := nt,
        trace := trace s @ (if mWriteInfo s then [WriteInfo nt] else []) @
                 map (\<lambda>p. ModifierProcessSolution p nt (next_addr s)) (mOutputModifiers s)\<rparr>)"
  by (simp add: adopt_solution_def alloc_def Destroy_def emit_if_def emit_def
        notify_modifiers_eq Let_def)

lemma adopt_solution_inv:
  assumes "loop_inv ic s"
  shows "loop_inv (fst (adopt_solution d ic nt s)) (snd (adopt_solution d ic nt s))"
  using assms unfolding loop_inv_def adopt_solution_state by fastforce

lemma solver_failure_handler_heap:
  "released (solver_failure_handler ic s) =
     released s @ (case mpSolver s of None \<Rightarrow> [] | Some a \<Rightarrow> [a])
                @ (if Some ic \<noteq> mSolution s then [ic] else [])"
  "next_addr (solver_failure_handler ic s) = next_addr s"
  "mSolution (solver_failure_handler ic s) = mSolution s"
  "mpSolver (solver_failure_handler ic s) = None"
  by (simp_all add: solver_failure_handler_def Let_def)

lemma solver_failure_handler_inv:
  assumes "loop_inv ic s"
  shows "heap_ok (solver_failure_handler ic s)"
  using assms unfolding loop_inv_def heap_ok_def solver_failure_handler_heap by fastforce

lemma writer_failure_handler_heap:
  "released (writer_failure_handler ic s) =
     released s @ (case mpSolver s of None \<Rightarrow> [] | Some a \<Rightarrow> [a])
                @ (if mSolution s \<noteq> Some ic then [ic] else [])"
  "next_addr (writer_failure_handler ic s) = next_addr s"
  "mSolution (writer_failure_handler ic s) = mSolution s"
  "mpSolver (writer_failure_handler ic s) = mpSolver s"
  by (simp_all add: writer_failure_handler_def Let_def)

lemma writer_failure_handler_inv:
  assumes "loop_inv ic s"
  shows "heap_ok (writer_failure_handler ic s)"
  using assms unfolding loop_inv_def heap_ok_def writer_failure_handler_heap by fastforce

lemma Solve_step_inv:
  assumes "loop_inv ic s"
  shows "case Solve_step e m t nt ic s of
           (Inl x, s') \<Rightarrow> heap_ok s'
         | (Inr ic', s') \<Rightarrow> loop_inv ic' s'"
proof -
  define s1 where "s1 = emit (AtBeginningOfTimestep t)
                 (emit (SolverSetInitialCondition ic) (emit (SolverSetTimes t nt) s))"
  have "loop_inv ic s1 = loop_inv ic s"
    by (rule loop_inv_cong) (simp_all add: s1_def)
  then have i1: "loop_inv ic s1" using assms by simp
  show ?thesis
  proof (cases "solver_Solve e t nt (vec_data s1 ic)")
    case (Inl msg)
    then show ?thesis
      using solver_failure_handler_inv [OF i1]
      by (simp add: Solve_step_def s1_def [symmetric])
  next
    case (Inr d)
    obtain a s2 where ad: "adopt_solution d ic nt s1 = (a, s2)"
      by (cases "adopt_solution d ic nt s1")
    have i2: "loop_inv a s2" using adopt_solution_inv [OF i1, of d nt] ad by simp
    show ?thesis
    proof (cases "mPrintOutput s2")
      case False
      have "loop_inv a (emit (OnEndOfTimestep nt) s2) = loop_inv a s2"
        by (rule loop_inv_cong) simp_all
      then have "loop_inv a (emit (OnEndOfTimestep nt) s2)" using i2 by simp
      then show ?thesis
        using Inr ad False by (simp add: Solve_step_def s1_def [symmetric])
    next
      case True
      obtain r s3 where w: "write_and_advance e m nt a s2 = (r, s3)"
        by (cases "write_and_advance e m nt a s2")
      have o: "output_step s2 s3"
        using write_and_advance_output_step [of s2 e m nt a] w by simp
      have i3: "loop_inv a s3" using i2 o by (rule loop_inv_output_step)
      have "loop_inv a (emit (OnEndOfTimestep nt) s3) = loop_inv a s3"
        by (rule loop_inv_cong) simp_all
      then have "loop_inv a (emit (OnEndOfTimestep nt) s3)" using i3 by simp
      then show ?thesis
        using Inr ad True w loop_inv_heap_ok [OF i3]
        by (cases r) (simp_all add: Solve_step_def s1_def [symmetric])
    qed
  qed
qed

lemma Solve_loop_inv:
  "loop_inv ic s \<Longrightarrow>
   (case Solve_loop e m t pts ic s of
      (Inl x, s') \<Rightarrow> heap_ok s'
    | (Inr ic', s') \<Rightarrow> loop_inv ic' s')"
proof (induction pts arbitrary: t ic s)
  case Nil
  then show ?case by simp
next
  case (Cons nt pts)
  obtain r s1 where st: "Solve_step e m t nt ic s = (r, s1)"
    by (cases "Solve_step e m t nt ic s")
  show ?case
  proof (cases r)
    case (Inl x)
    then show ?thesis using Solve_step_inv [OF Cons.prems, of e m t nt] st by simp
  next
    case (Inr ic')
    then have "loop_inv ic' s1" using Solve_step_inv [OF Cons.prems, of e m t nt] st by simp
    then show ?thesis using Cons.IH [of ic' s1 nt] st Inr by simp
  qed
qed

lemma Solve_finish_inv:
  assumes "loop_inv ic s"
  shows "heap_ok (Solve_finish s)"
proof -
  have "released (Solve_finish s) = released s @ (case mpSolver s of None \<Rightarrow> [] | Some a \<Rightarrow> [a])"
    "next_addr (Solve_finish s) = next_addr s" "mSolution (Solve_finish s) = mSolution s"
    by (simp_all add: Solve_finish_def Let_def)
  then show ?thesis
    using assms unfolding loop_inv_def heap_ok_def by fastforce
qed

lemma Solve_run_inv:
  assumes "loop_inv ic s"
  shows "heap_ok (snd (Solve_run e m pts ic s))"
proof -
  let ?s1 = "configure_solver (start_modifiers ic s)"
  have "loop_inv ic ?s1 = loop_inv ic s" by (rule loop_inv_cong) simp_all
  then have i1: "loop_inv ic ?s1" using assms by simp
  obtain r s2 where l: "Solve_loop e m (mCurrentTime ?s1) pts ic ?s1 = (r, s2)"
    by (cases "Solve_loop e m (mCurrentTime ?s1) pts ic ?s1")
  show ?thesis
  proof (cases r)
    case (Inl x)
    then show ?thesis
      using Solve_loop_inv [OF i1, of e m "mCurrentTime ?s1" pts] l
      by (simp add: Solve_run_def Let_def)
  next
    case (Inr ic')
    then have "loop_inv ic' s2"
      using Solve_loop_inv [OF i1, of e m "mCurrentTime ?s1" pts] l by simp
    then show ?thesis
      using Solve_finish_inv l Inr by (simp add: Solve_run_def Let_def)
  qed
qed

lemma open_output_inv:
  assumes "loop_inv ic s"
  shows "case open_output e m ic s of
           (Inl x, s') \<Rightarrow> heap_ok s'
         | (Inr u, s') \<Rightarrow> loop_inv ic s'"
proof (cases "mPrintOutput s")
  case False
  then show ?thesis using assms by (simp add: open_output_def)
next
  case True
  obtain r s1 where iw: "InitialiseWriter e m s = (r, s1)"
    by (cases "InitialiseWriter e m s")
  have "loop_inv ic s1 = loop_inv ic s"
    using InitialiseWriter_frame(1-4) [of e m s] iw by (intro loop_inv_cong) simp_all
  then have i1: "loop_inv ic s1" using assms by simp
  show ?thesis
  proof (cases r)
    case (Inl x)
    show ?thesis
    proof (cases x)
      case (Exception msg)
      then show ?thesis
        using True iw Inl writer_failure_handler_inv [OF i1] by (simp add: open_output_def)
    qed (use True iw Inl loop_inv_heap_ok [OF i1] in \<open>simp_all add: open_output_def\<close>)
  next
    case (Inr extending_file)
    show ?thesis
    proof (cases "\<not> (mSolution s1 \<noteq> None \<and> extending_file)")
      case False
      then obtain v where "mSolution s1 = Some v" and "extending_file" by auto
      then show ?thesis using True iw Inr i1 by (simp add: open_output_def)
    next
      case w: True
      obtain r2 s2 where wa: "write_and_advance e m (mCurrentTime s1) ic s1 = (r2, s2)"
        by (cases "write_and_advance e m (mCurrentTime s1) ic s1")
      have "output_step s1 s2"
        using write_and_advance_output_step [of s1 e m "mCurrentTime s1" ic] wa by simp
      then have i2: "loop_inv ic s2" using i1 loop_inv_output_step by blast
      have eq: "open_output e m ic s = (r2, s2)"
        using True iw Inr w wa by (simp add: open_output_def)
      show ?thesis
        unfolding eq using i2 loop_inv_heap_ok [OF i2] by (cases r2) simp_all
    qed
  qed
qed

lemma initial_condition_of_inv:
  assumes "heap_ok s" and "mpSolver s = Some sv" and "sv < next_addr s"
    and "sv \<notin> set (released s)" and "Some sv \<noteq> mSolution s"
  shows "loop_inv (fst (initial_condition_of e m s)) (snd (initial_condition_of e m s))"
proof (cases "mSolution s")
  case None
  have "CreateInitialCondition e m s =
          (next_addr s,
           s\<lparr>next_addr := Suc (next_addr s),
             vec_data := (vec_data s)
               (next_addr s := fold (seed_node e) [local_lo m ..< local_hi m]
                  (map (factory_fill e) [0 ..< NumNodes m * PROBLEM_DIM e]))\<rparr>)"
    by (simp add: CreateInitialCondition_def CreateVec_state)
  then show ?thesis
    using None assms unfolding loop_inv_def heap_ok_def initial_condition_of_def by fastforce
next
  case (Some v)
  then show ?thesis
    using assms unfolding loop_inv_def heap_ok_def initial_condition_of_def by fastforce
qed

lemma Solve_prepare_inv:
  assumes "heap_ok s"
  shows "case Solve_prepare e s of
           (Inl x, s') \<Rightarrow> heap_ok s'
         | (Inr (m, pts, ic), s') \<Rightarrow> loop_inv ic s'"
proof (cases "PreSolveChecks s")
  case (Inl x)
  then show ?thesis using assms by (simp add: Solve_prepare_def)
next
  case (Inr u)
  show ?thesis
  proof (cases "mpMesh s")
    case None
    then show ?thesis using assms Inr by (simp add: Solve_prepare_def)
  next
    case (Some m)
    let ?s1 = "default_boundary_conditions e s"
    have "heap_ok ?s1 = heap_ok s" by (rule heap_ok_cong) simp_all
    then have h1: "heap_ok ?s1" using assms by simp
    show ?thesis
    proof (cases "mpSolver s = None")
      case False
      then show ?thesis using Inr Some h1 by (simp add: Solve_prepare_def Let_def)
    next
      case True
      let ?s3 = "?s1\<lparr>next_addr := Suc (next_addr s), mpSolver := Some (next_addr s)\<rparr>"
      have h3: "heap_ok ?s3" using assms unfolding heap_ok_def by (simp add: less_Suc_eq)
      have fresh: "Some (next_addr s) \<noteq> mSolution ?s3"
        using assms unfolding heap_ok_def by (cases "mSolution s") auto
      have nr: "next_addr s \<notin> set (released ?s3)"
        using assms unfolding heap_ok_def by auto
      obtain ic s4 where ico: "initial_condition_of e m ?s3 = (ic, s4)"
        by (cases "initial_condition_of e m ?s3")
      have i4: "loop_inv ic s4"
        using initial_condition_of_inv [OF h3 _ _ nr fresh, where e = e and m = m] ico
        by simp
      obtain r s5 where oo: "open_output e m ic s4 = (r, s5)"
        by (cases "open_output e m ic s4")
      have eq: "Solve_prepare e s =
          (case r of Inl x \<Rightarrow> (Inl x, s5)
           | Inr u \<Rightarrow> (Inr (m, TimeStepper (mCurrentTime s) (SimulationDuration (config s))
                               (PrintingTimeStep (config s)) (AdditionalStoppingTimes e), ic), s5))"
        using Inr Some True ico oo
        by (simp add: Solve_prepare_def Let_def alloc_def split: sum.split)
      show ?thesis
        unfolding eq using open_output_inv [OF i4, of e m] oo by (cases r) simp_all
    qed
  qed
qed

lemma Solve_inv:
  assumes "heap_ok s"
  shows "heap_ok (snd (Solve e s))"
proof (cases "Solve_prepare e s")
  case (Pair r s1)
  show ?thesis
  proof (cases r)
    case (Inl x)
    then show ?thesis using Solve_prepare_inv [OF assms, of e] Pair by (simp add: Solve_def)
  next
    case (Inr p)
    obtain m pts ic where p: "p = (m, pts, ic)" by (cases p)
    have "loop_inv ic s1" using Solve_prepare_inv [OF assms, of e] Pair Inr p by simp
    then show ?thesis using Solve_run_inv Pair Inr p by (simp add: Solve_def)
  qed
qed

section \<open>The rows written by Solve\<close>

lemma write_variables_Cons_cases:
  obtains (stop) d where
      "snd (write_variables e m ((v, c) # vcs) s) =
         s\<lparr>next_addr := Suc (next_addr s), vec_data := (vec_data s)(next_addr s := d)\<rparr>"
    | (continue) d w where "mpWriter s = Some w"
      "write_variables e m ((v, c) # vcs) s =
         write_variables e m vcs
           (Destroy (next_addr s)
              (s\<lparr>next_addr := Suc (next_addr s), vec_data := (vec_data s)(next_addr s := d),
                 mpWriter := Some (w\<lparr>w_pending := w_pending w @ [(c, d)]\<rparr>)\<rparr>))"
proof -
  let ?fill = "map (factory_fill e) [0 ..< NumNodes m]"
  show ?thesis
  proof (cases "split_variable v")
    case (Inl x)
    then have "snd (write_variables e m ((v, c) # vcs) s) =
         s\<lparr>next_addr := Suc (next_addr s), vec_data := (vec_data s)(next_addr s := ?fill)\<rparr>"
      by (simp add: CreateVec_state)
    then show ?thesis by (rule stop)
  next
    case (Inr p)
    obtain name idx where p: "p = (name, idx)" by (cases p)
    show ?thesis
    proof (cases "gather e m (mCurrentTime s) name idx [local_lo m ..< local_hi m] ?fill")
      case (Inl x)
      then have "snd (write_variables e m ((v, c) # vcs) s) =
         s\<lparr>next_addr := Suc (next_addr s), vec_data := (vec_data s)(next_addr s := ?fill)\<rparr>"
        using Inr by (simp add: p CreateVec_state)
      then show ?thesis by (rule stop)
    next
      case g: (Inr d)
      show ?thesis
      proof (cases "mpWriter s")
        case None
        then have "snd (write_variables e m ((v, c) # vcs) s) =
           s\<lparr>next_addr := Suc (next_addr s), vec_data := (vec_data s)(next_addr s := d)\<rparr>"
          using Inr g by (simp add: p CreateVec_state PutVector_def)
        then show ?thesis by (rule stop)
      next
        case (Some w)
        then have "write_variables e m ((v, c) # vcs) s =
           write_variables e m vcs
             (Destroy (next_addr s)
                (s\<lparr>next_addr := Suc (next_addr s), vec_data := (vec_data s)(next_addr s := d),
                   mpWriter := Some (w\<lparr>w_pending := w_pending w @ [(c, d)]\<rparr>)\<rparr>))"
          using Inr g by (simp add: p CreateVec_state PutVector_def)
        then show ?thesis using Some by (intro continue)
      qed
    qed
  qed
qed

lemma write_variables_file: "h5_file (snd (write_variables e m vcs s)) = h5_file s"
proof (induction vcs arbitrary: s)
  case Nil
  show ?case by simp
next
  case (Cons vc vcs)
  obtain v c where vc: "vc = (v, c)" by (cases vc)
  show ?case
  proof (cases rule: write_variables_Cons_cases [of e m v c vcs s])
    case (stop d)
    have "h5_file (snd (write_variables e m ((v, c) # vcs) s)) = h5_file s"
      unfolding stop by simp
    then show ?thesis by (simp only: vc)
  next
    case (continue d w)
    have "h5_file (snd (write_variables e m ((v, c) # vcs) s)) = h5_file s"
      unfolding continue(2) by (simp add: Cons.IH)
    then show ?thesis by (simp only: vc)
  qed
qed

lemma WriteExtraVariablesOneStep_file:
  "h5_file (snd (WriteExtraVariablesOneStep e m s)) = h5_file s"
  by (simp add: WriteExtraVariablesOneStep_def Let_def write_variables_file
        del: write_variables.simps)

lemma WriteExtraVariablesOneStep_pending:
  assumes "fst (WriteExtraVariablesOneStep e m s) = Inr ()" and "mpWriter s = Some w"
  shows "\<exists>p. mpWriter (snd (WriteExtraVariablesOneStep e m s)) =
               Some (w\<lparr>w_pending := w_pending w @ p\<rparr>)"
proof (cases "length (if 0 < length (mExtraVariablesId s) then OutputVariables (config s) else [])
               = length (mExtraVariablesId s)")
  case False
  then show ?thesis using assms by (simp add: WriteExtraVariablesOneStep_def Let_def)
next
  case True
  let ?vcs = "zip (if 0 < length (mExtraVariablesId s) then OutputVariables (config s) else [])
                (mExtraVariablesId s)"
  have eq: "WriteExtraVariablesOneStep e m s = write_variables e m ?vcs s"
    using True by (simp add: WriteExtraVariablesOneStep_def Let_def del: write_variables.simps)
  have "write_variables e m ?vcs s = (Inr (), snd (WriteExtraVariablesOneStep e m s))"
    using assms(1) unfolding eq by (cases "write_variables e m ?vcs s") simp
  from write_variables_pending [OF this assms(2)] show ?thesis by blast
qed

lemma write_and_advance_row:
  assumes "fst (write_and_advance e m time v s) = Inr ()"
    and "mpWriter s = Some w" and "w_time w = None" and "w_pending w = []"
    and "h5_file s = Some f"
  shows "\<exists>extras w'.
           h5_file (snd (write_and_advance e m time v s)) =
             Some (f\<lparr>h5_rows := h5_rows f @
                        [(time, (mVoltageColumnId s, vec_data s v) # extras)]\<rparr>) \<and>
           mpWriter (snd (write_and_advance e m time v s)) = Some w' \<and>
           w_time w' = None \<and> w_pending w' = []"
proof -
  let ?w2 = "w\<lparr>w_time := Some time, w_pending := w_pending w @ [(mVoltageColumnId s, vec_data s v)]\<rparr>"
  let ?s2 = "s\<lparr>mpWriter := Some ?w2\<rparr>"
  have eq: "WriteOneStep e m time v s = WriteExtraVariablesOneStep e m ?s2"
    using assms(2) by (simp add: WriteOneStep_def PutUnlimitedVariable_def PutVector_def)
  obtain r s3 where x: "WriteExtraVariablesOneStep e m ?s2 = (r, s3)"
    by (cases "WriteExtraVariablesOneStep e m ?s2")
  have r: "r = Inr ()"
    using assms(1) eq x by (cases r) (simp_all add: write_and_advance_def)
  have f3: "h5_file s3 = Some f"
    using WriteExtraVariablesOneStep_file [of e m ?s2] x assms(5) by simp
  obtain p where w3: "mpWriter s3 = Some (?w2\<lparr>w_pending := w_pending ?w2 @ p\<rparr>)"
    using WriteExtraVariablesOneStep_pending [of e m ?s2 ?w2] x r by auto
  let ?w3 = "?w2\<lparr>w_pending := w_pending ?w2 @ p\<rparr>"
  have a: "AdvanceAlongUnlimitedDimension s3 =
     Inr (s3\<lparr>h5_file := (if w_time ?w3 = None \<and> w_pending ?w3 = [] then h5_file s3
                        else map_option
                               (\<lambda>f. f\<lparr>h5_rows := h5_rows f @
                                     [(case w_time ?w3 of None \<Rightarrow> 0 | Some t \<Rightarrow> t,
                                       w_pending ?w3)]\<rparr>) (h5_file s3)),
            mpWriter := Some (?w3\<lparr>w_time := None, w_pending := [],
                                 w_cursor := Suc (w_cursor ?w3)\<rparr>)\<rparr>)"
    by (rule AdvanceAlongUnlimitedDimension_state [OF w3])
  have res: "write_and_advance e m time v s =
     (Inr (), s3\<lparr>h5_file := Some (f\<lparr>h5_rows := h5_rows f @
                        [(time, (mVoltageColumnId s, vec_data s v) # p)]\<rparr>),
            mpWriter := Some (?w3\<lparr>w_time := None, w_pending := [],
                                 w_cursor := Suc (w_cursor ?w3)\<rparr>)\<rparr>)"
    using eq x r a f3 assms(4) by (simp add: write_and_advance_def)
  show ?thesis
    unfolding res
    by (rule exI [of _ p],
        rule exI [of _ "?w3\<lparr>w_time := None, w_pending := [], w_cursor := Suc (w_cursor ?w3)\<rparr>"])
       simp
qed

lemma write_and_advance_idle_row:
  assumes "fst (write_and_advance e m time v s) = Inr ()"
    and "writer_idle s" and "h5_file s = Some f"
  shows "\<exists>extras.
           h5_file (snd (write_and_advance e m time v s)) =
             Some (f\<lparr>h5_rows := h5_rows f @
                        [(time, (mVoltageColumnId s, vec_data s v) # extras)]\<rparr>) \<and>
           writer_idle (snd (write_and_advance e m time v s))"
proof -
  obtain w where w: "mpWriter s = Some w" "w_time w = None" "w_pending w = []"
    using assms(2) unfolding writer_idle_def by blast
  from write_and_advance_row [OF assms(1) w assms(3)] show ?thesis
    unfolding writer_idle_def by blast
qed

lemma Solve_step_rows:
  assumes "Solve_step e m t nt ic s = (Inr ic', s')"
    and "mPrintOutput s" and "writer_idle s" and "h5_file s = Some f"
  shows "\<exists>extras.
           h5_file s' = Some (f\<lparr>h5_rows := h5_rows f @
                                 [(nt, (mVoltageColumnId s, vec_data s' ic') # extras)]\<rparr>) \<and>
           writer_idle s' \<and> mPrintOutput s' \<and> mVoltageColumnId s' = mVoltageColumnId s \<and>
           mSolution s' = Some ic' \<and> mCurrentTime s' = nt \<and>
           solver_Solve e t nt (vec_data s ic) = Inr (vec_data s' ic')"
proof -
  define s1 where "s1 = emit (AtBeginningOfTimestep t)
                 (emit (SolverSetInitialCondition ic) (emit (SolverSetTimes t nt) s))"
  obtain d where d: "solver_Solve e t nt (vec_data s1 ic) = Inr d"
    using assms(1)
    by (cases "solver_Solve e t nt (vec_data s1 ic)")
       (simp_all add: Solve_step_def s1_def [symmetric])
  let ?a = "next_addr s1"
  obtain s2 where ad: "adopt_solution d ic nt s1 = (?a, s2)"
    and s2: "mpWriter s2 = mpWriter s" "h5_file s2 = h5_file s" "mPrintOutput s2 = mPrintOutput s"
      "mVoltageColumnId s2 = mVoltageColumnId s" "mSolution s2 = Some ?a"
      "mCurrentTime s2 = nt" "next_addr s2 = Suc ?a" "vec_data s2 ?a = d"
    by (simp add: adopt_solution_state s1_def)
  have idle2: "writer_idle s2" using assms(3) s2(1) by (simp add: writer_idle_def)
  obtain r s3 where wa: "write_and_advance e m nt ?a s2 = (r, s3)"
    by (cases "write_and_advance e m nt ?a s2")
  have step: "Solve_step e m t nt ic s =
      (case r of Inl x \<Rightarrow> (Inl x, s3) | Inr u \<Rightarrow> (Inr ?a, emit (OnEndOfTimestep nt) s3))"
    using d ad wa assms(2) s2(3)
    by (simp add: Solve_step_def s1_def [symmetric] split: sum.split)
  have r: "r = Inr ()" and ic': "ic' = ?a" and s': "s' = emit (OnEndOfTimestep nt) s3"
    using assms(1) unfolding step by (cases r; simp)+
  have o: "output_step s2 s3"
    using write_and_advance_output_step [of s2 e m nt ?a] wa by simp
  have keep: "vec_data s3 ?a = vec_data s2 ?a"
    using output_step_frame(15) [OF o] s2(7) by simp
  obtain extras where
    row: "h5_file s3 = Some (f\<lparr>h5_rows := h5_rows f @
                                 [(nt, (mVoltageColumnId s2, vec_data s2 ?a) # extras)]\<rparr>)"
    and idle3: "writer_idle s3"
    using write_and_advance_idle_row [of e m nt ?a s2 f] wa r idle2 s2(2) assms(4) by auto
  have "h5_file s' = Some (f\<lparr>h5_rows := h5_rows f @
                                 [(nt, (mVoltageColumnId s, vec_data s' ic') # extras)]\<rparr>)"
    using row keep s2(4) by (simp add: s' ic')
  moreover have "writer_idle s'" using idle3 by (simp add: s' writer_idle_def)
  moreover have "mPrintOutput s'" "mVoltageColumnId s' = mVoltageColumnId s"
    "mSolution s' = Some ic'" "mCurrentTime s' = nt"
    using output_step_frame(1,3,4,7) [OF o] s2 assms(2) by (simp_all add: s' ic')
  moreover have "solver_Solve e t nt (vec_data s ic) = Inr (vec_data s' ic')"
    using d keep s2(8) by (simp add: s' ic' s1_def)
  ultimately show ?thesis by blast
qed

lemma Solve_loop_rows:
  "Solve_loop e m t pts ic s = (Inr ic', s') \<Longrightarrow>
   mPrintOutput s \<Longrightarrow> writer_idle s \<Longrightarrow> h5_file s = Some f \<Longrightarrow>
   \<exists>new. h5_file s' = Some (f\<lparr>h5_rows := h5_rows f @ new\<rparr>) \<and> map fst new = pts \<and>
         writer_idle s' \<and> mPrintOutput s' \<and> mVoltageColumnId s' = mVoltageColumnId s \<and>
         (pts \<noteq> [] \<longrightarrow>
            mSolution s' = Some ic' \<and>
            (\<exists>extras. last new = (last pts, (mVoltageColumnId s, vec_data s' ic') # extras)))"
proof (induction pts arbitrary: t ic s f)
  case Nil
  then show ?case by simp
next
  case (Cons nt pts)
  obtain r s1 where st: "Solve_step e m t nt ic s = (r, s1)"
    by (cases "Solve_step e m t nt ic s")
  obtain ic1 where r: "r = Inr ic1" using Cons.prems(1) st by (cases r) simp_all
  have rest: "Solve_loop e m nt pts ic1 s1 = (Inr ic', s')"
    using Cons.prems(1) st r by simp
  obtain extras where
    f1: "h5_file s1 = Some (f\<lparr>h5_rows := h5_rows f @
                                 [(nt, (mVoltageColumnId s, vec_data s1 ic1) # extras)]\<rparr>)"
    and k1: "writer_idle s1" "mPrintOutput s1" "mVoltageColumnId s1 = mVoltageColumnId s"
      "mSolution s1 = Some ic1"
    using Solve_step_rows [OF st [unfolded r] Cons.prems(2-4)] by blast
  let ?row = "(nt, (mVoltageColumnId s, vec_data s1 ic1) # extras)"
  let ?f1 = "f\<lparr>h5_rows := h5_rows f @ [?row]\<rparr>"
  obtain new where
    n: "h5_file s' = Some (?f1\<lparr>h5_rows := h5_rows ?f1 @ new\<rparr>)" "map fst new = pts"
      "writer_idle s'" "mPrintOutput s'" "mVoltageColumnId s' = mVoltageColumnId s1"
      "pts \<noteq> [] \<longrightarrow> mSolution s' = Some ic' \<and>
            (\<exists>extras. last new = (last pts, (mVoltageColumnId s1, vec_data s' ic') # extras))"
    using Cons.IH [OF rest k1(2) k1(1) f1] by blast
  have fl: "h5_file s' = Some (f\<lparr>h5_rows := h5_rows f @ (?row # new)\<rparr>)"
    using n(1) by simp
  have times: "map fst (?row # new) = nt # pts" using n(2) by simp
  have lst: "mSolution s' = Some ic' \<and>
     (\<exists>extras. last (?row # new) = (last (nt # pts), (mVoltageColumnId s, vec_data s' ic') # extras))"
  proof (cases "pts = []")
    case True
    then have "s' = s1" "ic' = ic1" "new = []" using rest n(2) by simp_all
    then show ?thesis using k1(4) True by simp
  next
    case False
    then have "new \<noteq> []" using n(2) by auto
    then show ?thesis using n(6) False k1(3) by simp
  qed
  show ?case
    using fl times n(3,4) n(5) [unfolded k1(3)] lst
    by (intro exI [of _ "?row # new"]) simp
qed

lemma InitialiseWriter_fresh:
  assumes "mSolution s = None" and "mpWriter s = None"
  shows "fst (InitialiseWriter e m s) = Inr False \<and>
         (\<exists>n. h5_file (snd (InitialiseWriter e m s)) =
                Some \<lparr>h5_columns = [''V''], h5_fixed_dim = n, h5_rows = []\<rparr>) \<and>
         writer_idle (snd (InitialiseWriter e m s)) \<and>
         mVoltageColumnId (snd (InitialiseWriter e m s)) = 0"
proof -
  have x: "extension_check s = Inr False" using assms(1) by (simp add: extension_check_def)
  define s2 where "s2 = (if mHdf5DataWriterChunkSizeAndAlignment (Hdf5DataWriter False s) \<noteq> 0
                    then update_writer
                           (\<lambda>w. w\<lparr>w_chunk := mHdf5DataWriterChunkSizeAndAlignment (Hdf5DataWriter False s)\<rparr>)
                           (Hdf5DataWriter False s)
                    else Hdf5DataWriter False s)"
  have p2: "h5_file s2 = Some \<lparr>h5_columns = [], h5_fixed_dim = 0, h5_rows = []\<rparr>"
    "writer_idle s2"
    by (simp_all add: s2_def Hdf5DataWriter_def update_writer_def writer_idle_def)
  obtain s3 where d: "DefineWriterColumns e m False s2 = (Inr (), s3)"
    and p3: "\<exists>n. h5_file s3 = Some \<lparr>h5_columns = [''V''], h5_fixed_dim = n, h5_rows = []\<rparr>"
      "writer_idle s3" "mVoltageColumnId s3 = 0"
    using p2 unfolding writer_idle_def
    by (auto simp: DefineWriterColumns_def DefineVariable_def file_columns_def Let_def
          update_file_def update_writer_def)
  have eq: "InitialiseWriter e m s =
     (Inr False,
      update_writer (\<lambda>w. w\<lparr>w_define_mode := False\<rparr>)
        (if OutputUsingOriginalNodeOrdering (config s3) then
           (if ApplyPermutation_ok e
            then update_writer (\<lambda>w. w\<lparr>w_permuted := True\<rparr>) s3
            else s3\<lparr>config := (config s3)\<lparr>OutputUsingOriginalNodeOrdering := False\<rparr>\<rparr>)
         else s3))"
    using assms(2) x d by (simp add: InitialiseWriter_def s2_def Let_def)
  show ?thesis
    unfolding eq using p3 by (auto simp: writer_idle_def)
qed

lemma foldr_min_bound: "\<forall>x \<in> set xs. b \<le> x \<Longrightarrow> foldr min xs (b::real) = b"
  by (induction xs) (simp_all add: min_def)

lemma TimeStepper_one_step:
  assumes "0 < dt" and "\<forall>x \<in> set stops. x \<le> t \<or> t + dt \<le> x"
  shows "TimeStepper t (t + dt) dt stops = [t + dt]"
proof -
  have "\<forall>x \<in> set (filter (\<lambda>x. t < x) stops). t + dt \<le> x" using assms(2) by auto
  then have n: "next_boundary t (t + dt) dt stops = t + dt"
    by (simp add: next_boundary_def foldr_min_bound)
  have fuel: "nat \<lceil>(t + dt - t) / dt\<rceil> + length stops = Suc (length stops)"
    using assms(1) by simp
  have rest: "stepper_points k (t + dt) (t + dt) dt stops = []" for k
    by (cases k) simp_all
  show ?thesis
    unfolding TimeStepper_def fuel using assms(1) n rest by (simp add: Let_def)
qed

lemma Solve_prepare_fresh:
  assumes "Solve_prepare e s = (Inr (m, pts, ic), s1)"
    and "mSolution s = None" and "mpWriter s = None" and "mPrintOutput s"
  shows "PreSolveChecks s = Inr () \<and> mpMesh s = Some m \<and>
         pts = TimeStepper (mCurrentTime s) (SimulationDuration (config s))
                 (PrintingTimeStep (config s)) (AdditionalStoppingTimes e) \<and>
         (\<exists>n extras. h5_file s1 =
            Some \<lparr>h5_columns = [''V''], h5_fixed_dim = n,
                  h5_rows = [(mCurrentTime s,
                     (0, fold (seed_node e) [local_lo m ..< local_hi m]
                           (map (factory_fill e) [0 ..< NumNodes m * PROBLEM_DIM e])) # extras)]\<rparr>) \<and>
         writer_idle s1 \<and> mPrintOutput s1 \<and> mVoltageColumnId s1 = 0 \<and>
         mCurrentTime s1 = mCurrentTime s \<and>
         vec_data s1 ic = fold (seed_node e) [local_lo m ..< local_hi m]
                           (map (factory_fill e) [0 ..< NumNodes m * PROBLEM_DIM e])"
proof -
  have pre: "PreSolveChecks s = Inr ()"
    using assms(1) by (cases "PreSolveChecks s") (simp_all add: Solve_prepare_def)
  obtain m' where mesh: "mpMesh s = Some m'"
    using assms(1) pre by (cases "mpMesh s") (simp_all add: Solve_prepare_def)
  have solver: "mpSolver s = None"
    using assms(1) pre mesh by (cases "mpSolver s") (simp_all add: Solve_prepare_def Let_def)
  let ?data = "fold (seed_node e) [local_lo m' ..< local_hi m']
                 (map (factory_fill e) [0 ..< NumNodes m' * PROBLEM_DIM e])"
  let ?s3 = "(default_boundary_conditions e s)
               \<lparr>next_addr := Suc (next_addr s), mpSolver := Some (next_addr s)\<rparr>"
  let ?ic = "Suc (next_addr s)"
  let ?s4 = "?s3\<lparr>next_addr := Suc ?ic, vec_data := (vec_data ?s3)(?ic := ?data)\<rparr>"
  have ico: "initial_condition_of e m' ?s3 = (?ic, ?s4)"
    using assms(2) by (simp add: initial_condition_of_def CreateInitialCondition_def CreateVec_state)
  obtain r s5 where oo: "open_output e m' ?ic ?s4 = (r, s5)"
    by (cases "open_output e m' ?ic ?s4")
  have eq: "Solve_prepare e s =
          (case r of Inl x \<Rightarrow> (Inl x, s5)
           | Inr u \<Rightarrow> (Inr (m', TimeStepper (mCurrentTime s) (SimulationDuration (config s))
                               (PrintingTimeStep (config s)) (AdditionalStoppingTimes e), ?ic), s5))"
    using pre mesh solver ico oo
    by (simp add: Solve_prepare_def Let_def alloc_def split: sum.split)
  have r: "r = Inr ()" and m: "m = m'" and ic: "ic = ?ic" and s1: "s1 = s5"
    and pts: "pts = TimeStepper (mCurrentTime s) (SimulationDuration (config s))
                 (PrintingTimeStep (config s)) (AdditionalStoppingTimes e)"
    using assms(1) unfolding eq by (cases r; simp)+
  obtain s' where iw: "InitialiseWriter e m' ?s4 = (Inr False, s')"
    and fw: "\<exists>n. h5_file s' = Some \<lparr>h5_columns = [''V''], h5_fixed_dim = n, h5_rows = []\<rparr>"
      "writer_idle s'" "mVoltageColumnId s' = 0"
    using InitialiseWriter_fresh [of ?s4 e m'] assms(2,3)
    by (cases "InitialiseWriter e m' ?s4") auto
  have fr: "mSolution s' = None" "mCurrentTime s' = mCurrentTime s" "mPrintOutput s'"
    "vec_data s' = vec_data ?s4" "next_addr s' = Suc ?ic"
    using InitialiseWriter_frame [of e m' ?s4] iw assms(2,4) by simp_all
  have oo': "open_output e m' ?ic ?s4 = write_and_advance e m' (mCurrentTime s) ?ic s'"
    using assms(4) iw fr by (simp add: open_output_def)
  have wa: "write_and_advance e m' (mCurrentTime s) ?ic s' = (Inr (), s5)"
    using oo r unfolding oo' by simp
  have ok: "fst (write_and_advance e m' (mCurrentTime s) ?ic s') = Inr ()"
    and s5: "s5 = snd (write_and_advance e m' (mCurrentTime s) ?ic s')"
    by (simp_all add: wa)
  obtain n where f': "h5_file s' = Some \<lparr>h5_columns = [''V''], h5_fixed_dim = n, h5_rows = []\<rparr>"
    using fw(1) by blast
  obtain extras where
    row: "h5_file s5 = Some (\<lparr>h5_columns = [''V''], h5_fixed_dim = n, h5_rows = []\<rparr>
              \<lparr>h5_rows := [] @ [(mCurrentTime s, (mVoltageColumnId s', vec_data s' ?ic) # extras)]\<rparr>)"
    and idle: "writer_idle s5"
    using write_and_advance_idle_row [OF ok fw(2) f'] s5 by auto
  have o: "output_step s' s5"
    using write_and_advance_output_step [of s' e m' "mCurrentTime s" ?ic] s5 by simp
  have keep: "vec_data s5 ?ic = vec_data s' ?ic"
    using output_step_frame(15) [OF o] fr(5) by simp
  have d: "vec_data s' ?ic = ?data" using fr(4) by simp
  have "h5_file s5 = Some \<lparr>h5_columns = [''V''], h5_fixed_dim = n,
                  h5_rows = [(mCurrentTime s, (0, ?data) # extras)]\<rparr>"
    using row fw(3) d by simp
  moreover have "mPrintOutput s5" "mVoltageColumnId s5 = 0" "mCurrentTime s5 = mCurrentTime s"
    using output_step_frame(3,4,7) [OF o] fr fw(3) by simp_all
  moreover have "vec_data s5 ?ic = ?data" using keep d by simp
  ultimately show ?thesis
    using pre mesh pts idle unfolding m ic s1 by blast
qed

lemma Solve_finish_frame [simp]:
  "h5_file (Solve_finish s) = h5_file s" "vec_data (Solve_finish s) = vec_data s"
  "mSolution (Solve_finish s) = mSolution s" "mpSolver (Solve_finish s) = None"
  by (simp_all add: Solve_finish_def Let_def)

section \<open>The time stepper reaches the end time\<close>

text \<open>
  For a positive interval the bound on the number of steps in \<^const>\<open>TimeStepper\<close> is
  enough: the sequence of time points is not empty when the start is before the end
  time, and it ends at the end time. Each step either takes a regular interval, which
  lowers the number of regular intervals left, or stops at a stopping time strictly
  between the current time and the end time, of which one fewer is left.
\<close>

lemma foldr_min_mem: "foldr min xs (b::real) = b \<or> foldr min xs b \<in> set xs"
  by (induction xs) (auto simp: min_def)

lemma next_boundary_cases:
  assumes "0 < dt" and "t < end_time"
  shows "t < next_boundary t end_time dt stops \<and> next_boundary t end_time dt stops \<le> end_time \<and>
         (next_boundary t end_time dt stops = end_time \<or>
          next_boundary t end_time dt stops = t + dt \<or>
          next_boundary t end_time dt stops \<in> set stops)"
proof -
  let ?F = "filter (\<lambda>x. t < x) stops"
  let ?n = "foldr min ?F (t + dt)"
  have "?n = t + dt \<or> ?n \<in> set ?F" by (rule foldr_min_mem)
  then have "t < ?n \<and> (?n = t + dt \<or> ?n \<in> set stops)" using assms(1) by auto
  then show ?thesis using assms(2) unfolding next_boundary_def by (auto simp: min_def)
qed

lemma ceiling_step:
  assumes "0 < dt" and "t + dt < end_time"
  shows "Suc (nat \<lceil>(end_time - (t + dt)) / dt\<rceil>) \<le> nat \<lceil>(end_time - t) / (dt::real)\<rceil>"
proof -
  have "(end_time - (t + dt)) / dt = (end_time - t) / dt - 1"
    using assms(1) by (simp add: field_simps)
  moreover have "0 < (end_time - (t + dt)) / dt" using assms by simp
  ultimately show ?thesis by (simp add: nat_le_iff) linarith
qed

lemma ceiling_mono_time:
  assumes "0 < dt" and "t \<le> n"
  shows "nat \<lceil>(end_time - n) / dt\<rceil> \<le> nat \<lceil>(end_time - t) / (dt::real)\<rceil>"
proof -
  have "(end_time - n) / dt \<le> (end_time - t) / dt"
    using assms by (simp add: divide_right_mono)
  then have "\<lceil>(end_time - n) / dt\<rceil> \<le> \<lceil>(end_time - t) / dt\<rceil>" by (rule ceiling_mono)
  then show ?thesis by (rule nat_mono)
qed

lemma stops_between_mono:
  assumes "t \<le> (n::real)"
  shows "length (filter (\<lambda>x. n < x \<and> x < end_time) stops)
           \<le> length (filter (\<lambda>x. t < x \<and> x < end_time) stops)"
proof -
  have "filter (\<lambda>x. n < x \<and> x < end_time) stops =
        filter (\<lambda>x. n < x) (filter (\<lambda>x. t < x \<and> x < end_time) stops)"
    unfolding filter_filter using assms by (intro filter_cong) auto
  then show ?thesis by (simp only: length_filter_le)
qed

lemma stops_between_less:
  assumes "n \<in> set stops" and "t < n" and "n < (end_time::real)"
  shows "length (filter (\<lambda>x. n < x \<and> x < end_time) stops)
           < length (filter (\<lambda>x. t < x \<and> x < end_time) stops)"
proof -
  have eq: "filter (\<lambda>x. n < x \<and> x < end_time) stops =
        filter (\<lambda>x. n < x) (filter (\<lambda>x. t < x \<and> x < end_time) stops)"
    unfolding filter_filter using assms(2) by (intro filter_cong) auto
  have "n \<in> set (filter (\<lambda>x. t < x \<and> x < end_time) stops)" using assms by simp
  moreover have "\<not> n < n" by simp
  ultimately show ?thesis unfolding eq by (rule length_filter_less)
qed

lemma stepper_points_reach_end:
  "0 < dt \<Longrightarrow> t < end_time \<Longrightarrow>
   nat \<lceil>(end_time - t) / dt\<rceil> + length (filter (\<lambda>x. t < x \<and> x < end_time) stops) \<le> k \<Longrightarrow>
   stepper_points k t end_time dt stops \<noteq> [] \<and>
   last (stepper_points k t end_time dt stops) = end_time"
proof (induction k arbitrary: t)
  case 0
  have "0 < (end_time - t) / dt" using "0.prems" by simp
  then have "0 < \<lceil>(end_time - t) / dt\<rceil>" by simp
  then show ?case using "0.prems"(3) by simp
next
  case (Suc k)
  let ?n = "next_boundary t end_time dt stops"
  note nb = next_boundary_cases [OF Suc.prems(1,2), of stops]
  have pts: "stepper_points (Suc k) t end_time dt stops = ?n # stepper_points k ?n end_time dt stops"
    using Suc.prems(2) by (simp add: Let_def)
  show ?case
  proof (cases "?n = end_time")
    case True
    have "stepper_points k end_time end_time dt stops = []" by (cases k) simp_all
    then show ?thesis unfolding pts True by simp
  next
    case False
    then have lt: "?n < end_time" using nb by simp
    have dec: "Suc (nat \<lceil>(end_time - ?n) / dt\<rceil> +
                 length (filter (\<lambda>x. ?n < x \<and> x < end_time) stops))
               \<le> nat \<lceil>(end_time - t) / dt\<rceil> +
                 length (filter (\<lambda>x. t < x \<and> x < end_time) stops)"
    proof (cases "?n = t + dt")
      case True
      have "Suc (nat \<lceil>(end_time - ?n) / dt\<rceil>) \<le> nat \<lceil>(end_time - t) / dt\<rceil>"
        unfolding True using Suc.prems(1) lt [unfolded True] by (rule ceiling_step)
      moreover have "length (filter (\<lambda>x. ?n < x \<and> x < end_time) stops)
           \<le> length (filter (\<lambda>x. t < x \<and> x < end_time) stops)"
        using nb by (intro stops_between_mono) simp
      ultimately show ?thesis by simp
    next
      case f: False
      then have mem: "?n \<in> set stops" using nb False by blast
      have "nat \<lceil>(end_time - ?n) / dt\<rceil> \<le> nat \<lceil>(end_time - t) / dt\<rceil>"
        using Suc.prems(1) nb by (intro ceiling_mono_time) simp_all
      moreover have "length (filter (\<lambda>x. ?n < x \<and> x < end_time) stops)
           < length (filter (\<lambda>x. t < x \<and> x < end_time) stops)"
        using mem nb lt by (intro stops_between_less) simp_all
      ultimately show ?thesis by linarith
    qed
    then have "nat \<lceil>(end_time - ?n) / dt\<rceil> +
                 length (filter (\<lambda>x. ?n < x \<and> x < end_time) stops) \<le> k"
      using Suc.prems(3) by simp
    from Suc.IH [OF Suc.prems(1) lt this] show ?thesis unfolding pts by simp
  qed
qed

lemma TimeStepper_reaches_end:
  assumes "0 < dt" and "start < end_time"
  shows "TimeStepper start end_time dt stops \<noteq> [] \<and>
         last (TimeStepper start end_time dt stops) = end_time"
proof -
  have "length (filter (\<lambda>x. start < x \<and> x < end_time) stops) \<le> length stops" by simp
  then have "nat \<lceil>(end_time - start) / dt\<rceil> +
               length (filter (\<lambda>x. start < x \<and> x < end_time) stops)
             \<le> nat \<lceil>(end_time - start) / dt\<rceil> + length stops" by simp
  from stepper_points_reach_end [OF assms this] show ?thesis by (simp add: TimeStepper_def)
qed

section \<open>Runs that complete\<close>

lemma write_and_advance_ok:
  assumes "mpWriter s = Some w" and "mExtraVariablesId s = []"
  shows "\<exists>s'. write_and_advance e m time v s = (Inr (), s') \<and> mpWriter s' \<noteq> None"
proof -
  let ?w2 = "w\<lparr>w_time := Some time, w_pending := w_pending w @ [(mVoltageColumnId s, vec_data s v)]\<rparr>"
  let ?s2 = "s\<lparr>mpWriter := Some ?w2\<rparr>"
  have "WriteOneStep e m time v s = WriteExtraVariablesOneStep e m ?s2"
    using assms(1) by (simp add: WriteOneStep_def PutUnlimitedVariable_def PutVector_def)
  also have "\<dots> = (Inr (), ?s2)"
    using assms(2) by (simp add: WriteExtraVariablesOneStep_def)
  finally have w1: "WriteOneStep e m time v s = (Inr (), ?s2)" .
  have w2: "mpWriter ?s2 = Some ?w2" by simp
  show ?thesis
    unfolding write_and_advance_def w1
    by (simp add: AdvanceAlongUnlimitedDimension_state [OF w2])
qed

lemma Solve_step_ok:
  assumes "solver_Solve e t nt (vec_data s ic) = Inr d"
    and "mPrintOutput s \<longrightarrow> mpWriter s \<noteq> None" and "mExtraVariablesId s = []"
  shows "\<exists>ic' s'. Solve_step e m t nt ic s = (Inr ic', s') \<and>
           (mPrintOutput s' \<longrightarrow> mpWriter s' \<noteq> None) \<and> mExtraVariablesId s' = []"
proof -
  define s1 where "s1 = emit (AtBeginningOfTimestep t)
                 (emit (SolverSetInitialCondition ic) (emit (SolverSetTimes t nt) s))"
  have d: "solver_Solve e t nt (vec_data s1 ic) = Inr d" using assms(1) by (simp add: s1_def)
  let ?a = "next_addr s1"
  obtain s2 where ad: "adopt_solution d ic nt s1 = (?a, s2)"
    and s2: "mpWriter s2 = mpWriter s" "mPrintOutput s2 = mPrintOutput s"
      "mExtraVariablesId s2 = mExtraVariablesId s"
    by (simp add: adopt_solution_state s1_def)
  show ?thesis
  proof (cases "mPrintOutput s")
    case False
    then have "Solve_step e m t nt ic s = (Inr ?a, emit (OnEndOfTimestep nt) s2)"
      using d ad s2 by (simp add: Solve_step_def s1_def [symmetric])
    then show ?thesis using False s2 assms(3) by simp
  next
    case True
    then obtain w where w: "mpWriter s2 = Some w" using assms(2) s2(1) by auto
    obtain s3 where wa: "write_and_advance e m nt ?a s2 = (Inr (), s3)"
      and w3: "mpWriter s3 \<noteq> None"
      using write_and_advance_ok [OF w, of e m nt ?a] s2(3) assms(3) by auto
    have o: "output_step s2 s3"
      using write_and_advance_output_step [of s2 e m nt ?a] wa by simp
    have "Solve_step e m t nt ic s = (Inr ?a, emit (OnEndOfTimestep nt) s3)"
      using d ad s2 True wa by (simp add: Solve_step_def s1_def [symmetric])
    then show ?thesis
      using w3 output_step_frame(8) [OF o] s2(3) assms(3) by simp
  qed
qed

lemma Solve_loop_ok:
  "\<forall>t0 t1 x. \<exists>d. solver_Solve e t0 t1 x = Inr d \<Longrightarrow>
   mPrintOutput s \<longrightarrow> mpWriter s \<noteq> None \<Longrightarrow> mExtraVariablesId s = [] \<Longrightarrow>
   \<exists>ic' s'. Solve_loop e m t pts ic s = (Inr ic', s')"
proof (induction pts arbitrary: t ic s)
  case Nil
  show ?case by simp
next
  case (Cons nt pts)
  obtain d where d: "solver_Solve e t nt (vec_data s ic) = Inr d"
    using Cons.prems(1) by blast
  obtain ic1 s1 where st: "Solve_step e m t nt ic s = (Inr ic1, s1)"
    and k: "mPrintOutput s1 \<longrightarrow> mpWriter s1 \<noteq> None" "mExtraVariablesId s1 = []"
    using Solve_step_ok [OF d Cons.prems(2,3), of m] by blast
  show ?case
    using Cons.IH [OF Cons.prems(1) k, of nt ic1] st by simp
qed

lemma Solve_prepare_ok_fresh:
  assumes "PreSolveChecks s = Inr ()" and "mpMesh s = Some m" and "mpSolver s = None"
    and "mSolution s = None" and "mpWriter s = None" and "mExtraVariablesId s = []"
  shows "\<exists>ic s5. Solve_prepare e s =
           (Inr (m, TimeStepper (mCurrentTime s) (SimulationDuration (config s))
                      (PrintingTimeStep (config s)) (AdditionalStoppingTimes e), ic), s5) \<and>
           (mPrintOutput s5 \<longrightarrow> mpWriter s5 \<noteq> None) \<and> mExtraVariablesId s5 = [] \<and>
           mPrintOutput s5 = mPrintOutput s \<and>
           post_processing_events s5 = post_processing_events s"
proof -
  let ?data = "fold (seed_node e) [local_lo m ..< local_hi m]
                 (map (factory_fill e) [0 ..< NumNodes m * PROBLEM_DIM e])"
  let ?s3 = "(default_boundary_conditions e s)
               \<lparr>next_addr := Suc (next_addr s), mpSolver := Some (next_addr s)\<rparr>"
  let ?ic = "Suc (next_addr s)"
  let ?s4 = "?s3\<lparr>next_addr := Suc ?ic, vec_data := (vec_data ?s3)(?ic := ?data)\<rparr>"
  let ?pts = "TimeStepper (mCurrentTime s) (SimulationDuration (config s))
                (PrintingTimeStep (config s)) (AdditionalStoppingTimes e)"
  have ico: "initial_condition_of e m ?s3 = (?ic, ?s4)"
    using assms(4) by (simp add: initial_condition_of_def CreateInitialCondition_def CreateVec_state)
  have "\<exists>s5. open_output e m ?ic ?s4 = (Inr (), s5) \<and>
             (mPrintOutput s5 \<longrightarrow> mpWriter s5 \<noteq> None) \<and> mExtraVariablesId s5 = [] \<and>
             mPrintOutput s5 = mPrintOutput s \<and>
             post_processing_events s5 = post_processing_events s"
  proof (cases "mPrintOutput s")
    case False
    have "post_processing_events ?s4 = post_processing_events s"
      by (rule post_processing_events_cong) simp_all
    then show ?thesis using False assms(6) by (simp add: open_output_def)
  next
    case True
    obtain s' where iw: "InitialiseWriter e m ?s4 = (Inr False, s')"
      and idle: "writer_idle s'"
      using InitialiseWriter_fresh [of ?s4 e m] assms(4,5)
      by (cases "InitialiseWriter e m ?s4") auto
    have fr: "mSolution s' = None" "mExtraVariablesId s' = []" "mPrintOutput s'"
      using InitialiseWriter_frame(1-12) [of e m ?s4] iw assms(4,6) True by simp_all
    have "post_processing_events ?s4 = post_processing_events s"
      by (rule post_processing_events_cong) simp_all
    then have pp: "post_processing_events s' = post_processing_events s"
      using InitialiseWriter_post_processing_events [of e m ?s4] iw by simp
    obtain w where w: "mpWriter s' = Some w" using idle unfolding writer_idle_def by blast
    obtain s5 where wa: "write_and_advance e m (mCurrentTime s') ?ic s' = (Inr (), s5)"
      and w5: "mpWriter s5 \<noteq> None"
      using write_and_advance_ok [OF w fr(2)] by blast
    have o: "output_step s' s5"
      using write_and_advance_output_step [of s' e m "mCurrentTime s'" ?ic] wa by simp
    have "open_output e m ?ic ?s4 = (Inr (), s5)"
      using True iw fr(1) wa by (simp add: open_output_def)
    moreover have "post_processing_events s5 = post_processing_events s'"
      using output_step_frame(5,11) [OF o] by (intro post_processing_events_cong) simp_all
    ultimately show ?thesis
      using w5 output_step_frame(3,8) [OF o] fr True pp by simp
  qed
  then obtain s5 where oo: "open_output e m ?ic ?s4 = (Inr (), s5)"
    and k5: "mPrintOutput s5 \<longrightarrow> mpWriter s5 \<noteq> None" "mExtraVariablesId s5 = []"
      "mPrintOutput s5 = mPrintOutput s" "post_processing_events s5 = post_processing_events s"
    by blast
  have prep: "Solve_prepare e s = (Inr (m, ?pts, ?ic), s5)"
    using assms(1-3) ico oo by (simp add: Solve_prepare_def Let_def alloc_def)
  show ?thesis using prep k5 by blast
qed

lemma Solve_ok_fresh:
  assumes "PreSolveChecks s = Inr ()" and "mpMesh s = Some m" and "mpSolver s = None"
    and "mSolution s = None" and "mpWriter s = None" and "mExtraVariablesId s = []"
    and "\<forall>t0 t1 x. \<exists>d. solver_Solve e t0 t1 x = Inr d"
  shows "fst (Solve e s) = Inr ()"
proof -
  let ?pts = "TimeStepper (mCurrentTime s) (SimulationDuration (config s))
                (PrintingTimeStep (config s)) (AdditionalStoppingTimes e)"
  obtain ic s5 where prep: "Solve_prepare e s = (Inr (m, ?pts, ic), s5)"
    and k5: "mPrintOutput s5 \<longrightarrow> mpWriter s5 \<noteq> None" "mExtraVariablesId s5 = []"
    using Solve_prepare_ok_fresh [OF assms(1-6), of e] by blast
  let ?s6 = "configure_solver (start_modifiers ic s5)"
  have k6: "mPrintOutput ?s6 \<longrightarrow> mpWriter ?s6 \<noteq> None" "mExtraVariablesId ?s6 = []"
    using k5 by simp_all
  obtain ic' s7 where "Solve_loop e m (mCurrentTime ?s6) ?pts ic ?s6 = (Inr ic', s7)"
    using Solve_loop_ok [OF assms(7) k6] by blast
  then show ?thesis
    by (simp add: Solve_def prep Solve_run_def Let_def)
qed

section \<open>A failing solver\<close>

lemma CloseFilesAndPostProcess_trace:
  "trace (CloseFilesAndPostProcess s) =
     trace s @ (if mPrintOutput s
                then (if mpWriter s = None then [] else [CloseWriter]) @ post_processing_events s
                else [])"
  by (simp add: CloseFilesAndPostProcess_def Let_def post_processing_events_def)

lemma solver_failure_handler_trace:
  "trace (solver_failure_handler ic s) =
     trace s @ (if mPrintOutput s
                then (if mpWriter s = None then [] else [CloseWriter]) @ post_processing_events s
                else [])"
proof -
  let ?s1 = "(delete_solver s)\<lparr>mpSolver := None\<rparr>"
  let ?s2 = "if Some ic \<noteq> mSolution ?s1 then Destroy ic ?s1 else ?s1"
  have "post_processing_events ?s2 = post_processing_events s"
    by (rule post_processing_events_cong) simp_all
  then show ?thesis
    by (simp add: solver_failure_handler_def Let_def CloseFilesAndPostProcess_trace)
qed

lemma solver_failure_handler_writer:
  "mPrintOutput s \<Longrightarrow> mpWriter (solver_failure_handler ic s) = None"
  by (simp add: solver_failure_handler_def Let_def)

lemma Solve_step_failure:
  assumes "solver_Solve e t nt (vec_data s ic) = Inl msg"
  shows "Solve_step e m t nt ic s =
           (Inl (Exception msg),
            solver_failure_handler ic
              (emit (AtBeginningOfTimestep t)
                 (emit (SolverSetInitialCondition ic) (emit (SolverSetTimes t nt) s))))"
  using assms by (simp add: Solve_step_def)

lemma Solve_loop_append:
  "Solve_loop e m t (pre @ post) ic s =
     (case Solve_loop e m t pre ic s of
        (Inl x, s1) \<Rightarrow> (Inl x, s1)
      | (Inr ic1, s1) \<Rightarrow> Solve_loop e m (last (t # pre)) post ic1 s1)"
proof (induction pre arbitrary: t ic s)
  case Nil
  show ?case by simp
next
  case (Cons nt pre)
  obtain r s1 where st: "Solve_step e m t nt ic s = (r, s1)"
    by (cases "Solve_step e m t nt ic s")
  have l: "last (t # nt # pre) = last (nt # pre)" by simp
  show ?case
    unfolding append_Cons l using Cons.IH [of nt _ s1] st
    by (cases r) (simp_all del: last.simps)
qed

lemma Solve_loop_failure:
  assumes "Solve_loop e m t pre ic s = (Inr ic1, s1)"
    and "solver_Solve e (last (t # pre)) nt (vec_data s1 ic1) = Inl msg"
  shows "Solve_loop e m t (pre @ nt # post) ic s =
           (Inl (Exception msg),
            solver_failure_handler ic1
              (emit (AtBeginningOfTimestep (last (t # pre)))
                 (emit (SolverSetInitialCondition ic1)
                    (emit (SolverSetTimes (last (t # pre)) nt) s1))))"
  using assms
  by (simp add: Solve_loop_append Solve_step_failure del: last.simps)

section \<open>Releases of the initial condition\<close>

text \<open>
  What a pass of the loop, the output block and a whole run release: a pass whose solver
  fails releases the initial condition unless it is the held solution; a pass whose
  solver returns releases it once and holds the new vector; and the preparation of a run
  hands the held solution, or a synthesized vector, to the first pass.
\<close>

lemma output_step_released:
  assumes "output_step s s'"
  shows "\<exists>new. released s' = released s @ new \<and> (\<forall>a \<in> set new. next_addr s \<le> a)"
  using assms unfolding output_step_def by auto

lemma Solve_step_failure_release:
  assumes "loop_inv ic s" and "solver_Solve e t nt (vec_data s ic) = Inl msg"
  shows "fst (Solve_step e m t nt ic s) = Inl (Exception msg)"
    and "heap_ok (snd (Solve_step e m t nt ic s))"
    and "count_list (released (snd (Solve_step e m t nt ic s))) ic =
           (if mSolution s = Some ic then 0 else 1)"
    and "mSolution (snd (Solve_step e m t nt ic s)) = mSolution s"
proof -
  let ?s1 = "emit (AtBeginningOfTimestep t)
               (emit (SolverSetInitialCondition ic) (emit (SolverSetTimes t nt) s))"
  note st = Solve_step_failure [OF assms(2), of m]
  have "loop_inv ic ?s1 = loop_inv ic s" by (rule loop_inv_cong) simp_all
  then have i1: "loop_inv ic ?s1" using assms(1) by simp
  obtain sv where f: "ic \<notin> set (released s)" "mpSolver s = Some sv" "sv \<noteq> ic"
    using assms(1) unfolding loop_inv_def by blast
  show "fst (Solve_step e m t nt ic s) = Inl (Exception msg)" by (simp add: st)
  show "heap_ok (snd (Solve_step e m t nt ic s))"
    using solver_failure_handler_inv [OF i1] by (simp add: st)
  show "count_list (released (snd (Solve_step e m t nt ic s))) ic =
           (if mSolution s = Some ic then 0 else 1)"
    using f by (auto simp: st solver_failure_handler_heap count_list_append count_notin)
  show "mSolution (snd (Solve_step e m t nt ic s)) = mSolution s"
    by (simp add: st solver_failure_handler_heap)
qed

lemma Solve_step_success_release:
  assumes "loop_inv ic s" and "solver_Solve e t nt (vec_data s ic) = Inr d"
  shows "count_list (released (snd (Solve_step e m t nt ic s))) ic = 1"
    and "mSolution (snd (Solve_step e m t nt ic s)) = Some (next_addr s)"
    and "next_addr s \<noteq> ic"
    and "heap_ok (snd (Solve_step e m t nt ic s))"
    and "\<And>ic'. fst (Solve_step e m t nt ic s) = Inr ic' \<Longrightarrow>
           ic' = next_addr s \<and> loop_inv ic' (snd (Solve_step e m t nt ic s))"
proof -
  define s1 where "s1 = emit (AtBeginningOfTimestep t)
                 (emit (SolverSetInitialCondition ic) (emit (SolverSetTimes t nt) s))"
  have k1: "released s1 = released s" "next_addr s1 = next_addr s" "vec_data s1 = vec_data s"
    by (simp_all add: s1_def)
  obtain sv where f: "ic \<notin> set (released s)" "ic < next_addr s"
    using assms(1) unfolding loop_inv_def by blast
  show ne: "next_addr s \<noteq> ic" using f(2) by simp
  obtain a s2 where ad: "adopt_solution d ic nt s1 = (a, s2)"
    by (cases "adopt_solution d ic nt s1")
  have a: "a = next_addr s" and r2: "released s2 = released s @ [ic]"
    and n2: "next_addr s2 = Suc (next_addr s)" and m2: "mSolution s2 = Some (next_addr s)"
    using ad k1 by (auto simp: adopt_solution_state)
  have c2: "count_list (released s2) ic = 1"
    using f(1) by (simp add: r2 count_list_append count_notin)
  note inv = Solve_step_inv [OF assms(1), of e m t nt]
  have sol: "solver_Solve e t nt (vec_data s1 ic) = Inr d" using assms(2) k1 by simp
  have "count_list (released (snd (Solve_step e m t nt ic s))) ic = 1 \<and>
        mSolution (snd (Solve_step e m t nt ic s)) = Some (next_addr s) \<and>
        (\<forall>ic'. fst (Solve_step e m t nt ic s) = Inr ic' \<longrightarrow> ic' = next_addr s)"
  proof (cases "mPrintOutput s2")
    case False
    have "Solve_step e m t nt ic s = (Inr a, emit (OnEndOfTimestep nt) s2)"
      using sol ad False by (simp add: Solve_step_def s1_def [symmetric])
    then show ?thesis using c2 m2 a by simp
  next
    case True
    obtain r s3 where w: "write_and_advance e m nt a s2 = (r, s3)"
      by (cases "write_and_advance e m nt a s2")
    have o: "output_step s2 s3"
      using write_and_advance_output_step [of s2 e m nt a] w by simp
    obtain new where new: "released s3 = released s2 @ new" "\<forall>a \<in> set new. next_addr s2 \<le> a"
      using output_step_released [OF o] by blast
    have "ic \<notin> set new" using new(2) n2 f(2) by auto
    then have c3: "count_list (released s3) ic = 1"
      using c2 by (simp add: new(1) count_list_append count_notin)
    have m3: "mSolution s3 = Some (next_addr s)" using output_step_frame(1) [OF o] m2 by simp
    have eq: "Solve_step e m t nt ic s =
            (case r of Inl x \<Rightarrow> (Inl x, s3)
             | Inr u \<Rightarrow> (Inr a, emit (OnEndOfTimestep nt) s3))"
      using sol ad True w by (simp add: Solve_step_def s1_def [symmetric] split: sum.split)
    show ?thesis unfolding eq using c3 m3 a by (cases r) simp_all
  qed
  then show "count_list (released (snd (Solve_step e m t nt ic s))) ic = 1"
    and "mSolution (snd (Solve_step e m t nt ic s)) = Some (next_addr s)"
    and "\<And>ic'. fst (Solve_step e m t nt ic s) = Inr ic' \<Longrightarrow>
           ic' = next_addr s \<and> loop_inv ic' (snd (Solve_step e m t nt ic s))"
    using inv by (auto split: prod.splits sum.splits)
  show "heap_ok (snd (Solve_step e m t nt ic s))"
    using inv loop_inv_heap_ok by (auto split: prod.splits sum.splits)
qed

lemma open_output_writer_failure:
  assumes "mPrintOutput s" and "fst (InitialiseWriter e m s) = Inl (Exception msg)"
    and "distinct (released s)" and "ic \<notin> set (released s)"
    and "\<forall>sv. mpSolver s = Some sv \<longrightarrow> sv \<notin> set (released s) \<and> sv \<noteq> ic"
  shows "fst (open_output e m ic s) = Inl (Exception msg)"
    and "distinct (released (snd (open_output e m ic s)))"
    and "count_list (released (snd (open_output e m ic s))) ic =
           (if mSolution s = Some ic then 0 else 1)"
    and "mSolution (snd (open_output e m ic s)) = mSolution s"
proof -
  obtain s1 where iw: "InitialiseWriter e m s = (Inl (Exception msg), s1)"
    using assms(2) by (cases "InitialiseWriter e m s") auto
  have k: "released s1 = released s" "mSolution s1 = mSolution s" "mpSolver s1 = mpSolver s"
    using InitialiseWriter_frame(1,3,4) [of e m s] iw by simp_all
  have eq: "open_output e m ic s = (Inl (Exception msg), writer_failure_handler ic s1)"
    using assms(1) iw by (simp add: open_output_def)
  show "fst (open_output e m ic s) = Inl (Exception msg)" by (simp add: eq)
  show "distinct (released (snd (open_output e m ic s)))"
    using assms(3-5) by (auto simp: eq writer_failure_handler_heap k split: option.splits)
  show "count_list (released (snd (open_output e m ic s))) ic =
           (if mSolution s = Some ic then 0 else 1)"
    using assms(4,5)
    by (auto simp: eq writer_failure_handler_heap k count_list_append count_notin
          split: option.splits)
  show "mSolution (snd (open_output e m ic s)) = mSolution s"
    by (simp add: eq writer_failure_handler_heap k)
qed

lemma open_output_frame:
  assumes "open_output e m ic s = (Inr u, s')"
  shows "mCurrentTime s' = mCurrentTime s" and "mSolution s' = mSolution s"
    and "\<forall>a < next_addr s. vec_data s' a = vec_data s a"
proof -
  have "mCurrentTime s' = mCurrentTime s \<and> mSolution s' = mSolution s \<and>
        (\<forall>a < next_addr s. vec_data s' a = vec_data s a)"
  proof (cases "mPrintOutput s")
    case False
    then show ?thesis using assms by (simp add: open_output_def)
  next
    case True
    obtain r s1 where iw: "InitialiseWriter e m s = (r, s1)"
      by (cases "InitialiseWriter e m s")
    have k: "mCurrentTime s1 = mCurrentTime s" "mSolution s1 = mSolution s"
      "vec_data s1 = vec_data s" "next_addr s1 = next_addr s"
      using InitialiseWriter_frame(2,3,6,7) [of e m s] iw by simp_all
    show ?thesis
    proof (cases r)
      case (Inl x)
      then show ?thesis using assms True iw by (cases x) (simp_all add: open_output_def)
    next
      case (Inr extending_file)
      show ?thesis
      proof (cases "\<not> (mSolution s1 \<noteq> None \<and> extending_file)")
        case False
        then have "s' = s1" using assms True iw Inr by (auto simp: open_output_def)
        then show ?thesis using k by simp
      next
        case w: True
        have "write_and_advance e m (mCurrentTime s1) ic s1 = (Inr u, s')"
          using assms True iw Inr w by (simp add: open_output_def)
        then have o: "output_step s1 s'"
          using write_and_advance_output_step [of s1 e m "mCurrentTime s1" ic] by simp
        show ?thesis using output_step_frame(1,4,15) [OF o] k by simp
      qed
    qed
  qed
  then show "mCurrentTime s' = mCurrentTime s" and "mSolution s' = mSolution s"
    and "\<forall>a < next_addr s. vec_data s' a = vec_data s a" by blast+
qed

lemma Solve_prepare_Inr:
  assumes "Solve_prepare e s = (Inr (m, pts, ic), s1)"
  shows "PreSolveChecks s = Inr ()" and "mpMesh s = Some m" and "mpSolver s = None"
    and "pts = TimeStepper (mCurrentTime s) (SimulationDuration (config s))
                 (PrintingTimeStep (config s)) (AdditionalStoppingTimes e)"
    and "\<exists>u. open_output e m ic
           (snd (initial_condition_of e m
              ((default_boundary_conditions e s)
                 \<lparr>next_addr := Suc (next_addr s), mpSolver := Some (next_addr s)\<rparr>))) = (Inr u, s1)"
    and "ic = fst (initial_condition_of e m
              ((default_boundary_conditions e s)
                 \<lparr>next_addr := Suc (next_addr s), mpSolver := Some (next_addr s)\<rparr>))"
proof -
  show pre: "PreSolveChecks s = Inr ()"
    using assms by (cases "PreSolveChecks s") (simp_all add: Solve_prepare_def)
  obtain m' where mesh: "mpMesh s = Some m'"
    using assms pre by (cases "mpMesh s") (simp_all add: Solve_prepare_def)
  show solver: "mpSolver s = None"
    using assms pre mesh by (cases "mpSolver s") (simp_all add: Solve_prepare_def Let_def)
  let ?s3 = "(default_boundary_conditions e s)
               \<lparr>next_addr := Suc (next_addr s), mpSolver := Some (next_addr s)\<rparr>"
  obtain ic' s4 where ico: "initial_condition_of e m' ?s3 = (ic', s4)"
    by (cases "initial_condition_of e m' ?s3")
  obtain r s5 where oo: "open_output e m' ic' s4 = (r, s5)"
    by (cases "open_output e m' ic' s4")
  have eq: "Solve_prepare e s =
          (case r of Inl x \<Rightarrow> (Inl x, s5)
           | Inr u \<Rightarrow> (Inr (m', TimeStepper (mCurrentTime s) (SimulationDuration (config s))
                               (PrintingTimeStep (config s)) (AdditionalStoppingTimes e), ic'), s5))"
    using pre mesh solver ico oo
    by (simp add: Solve_prepare_def Let_def alloc_def split: sum.split)
  obtain u where r: "r = Inr u" using assms unfolding eq by (cases r) simp_all
  have m: "m = m'" and ic: "ic = ic'" and s1: "s1 = s5"
    and pts: "pts = TimeStepper (mCurrentTime s) (SimulationDuration (config s))
                 (PrintingTimeStep (config s)) (AdditionalStoppingTimes e)"
    using assms unfolding eq r by simp_all
  show "mpMesh s = Some m" using mesh m by simp
  show "pts = TimeStepper (mCurrentTime s) (SimulationDuration (config s))
                 (PrintingTimeStep (config s)) (AdditionalStoppingTimes e)" by (rule pts)
  show "\<exists>u. open_output e m ic (snd (initial_condition_of e m ?s3)) = (Inr u, s1)"
    using oo r ico unfolding m ic s1 by simp
  show "ic = fst (initial_condition_of e m ?s3)" using ico unfolding m ic by simp
qed

lemma Solve_prepare_initial_condition:
  assumes "Solve_prepare e s = (Inr (m, pts, ic), s1)"
  shows "mCurrentTime s1 = mCurrentTime s" and "mSolution s1 = mSolution s"
    and "\<And>v. mSolution s = Some v \<Longrightarrow>
           ic = v \<and> (v < next_addr s \<longrightarrow> vec_data s1 v = vec_data s v)"
    and "mSolution s = None \<Longrightarrow>
           vec_data s1 ic = fold (seed_node e) [local_lo m ..< local_hi m]
                              (map (factory_fill e) [0 ..< NumNodes m * PROBLEM_DIM e])"
proof -
  let ?s3 = "(default_boundary_conditions e s)
               \<lparr>next_addr := Suc (next_addr s), mpSolver := Some (next_addr s)\<rparr>"
  let ?s4 = "snd (initial_condition_of e m ?s3)"
  obtain u where oo: "open_output e m ic ?s4 = (Inr u, s1)"
    using Solve_prepare_Inr(5) [OF assms] by blast
  have ic: "ic = fst (initial_condition_of e m ?s3)" by (rule Solve_prepare_Inr(6) [OF assms])
  note fr = open_output_frame [OF oo]
  have k4: "mCurrentTime ?s4 = mCurrentTime s" "mSolution ?s4 = mSolution s"
    by (simp_all add: initial_condition_of_def CreateInitialCondition_def CreateVec_state
          split: option.split)
  show "mCurrentTime s1 = mCurrentTime s" using fr(1) k4 by simp
  show "mSolution s1 = mSolution s" using fr(2) k4 by simp
  show "ic = v \<and> (v < next_addr s \<longrightarrow> vec_data s1 v = vec_data s v)" if "mSolution s = Some v" for v
  proof -
    have i: "initial_condition_of e m ?s3 = (v, ?s3)"
      using that by (simp add: initial_condition_of_def)
    have "ic = v" using ic i by simp
    moreover have "v < next_addr s \<longrightarrow> vec_data s1 v = vec_data s v"
      using fr(3) i by simp
    ultimately show ?thesis by simp
  qed
  show "vec_data s1 ic = fold (seed_node e) [local_lo m ..< local_hi m]
                              (map (factory_fill e) [0 ..< NumNodes m * PROBLEM_DIM e])"
    if "mSolution s = None"
  proof -
    let ?data = "fold (seed_node e) [local_lo m ..< local_hi m]
                              (map (factory_fill e) [0 ..< NumNodes m * PROBLEM_DIM e])"
    let ?ic = "Suc (next_addr s)"
    have i: "initial_condition_of e m ?s3 =
               (?ic, ?s3\<lparr>next_addr := Suc ?ic, vec_data := (vec_data ?s3)(?ic := ?data)\<rparr>)"
      using that by (simp add: initial_condition_of_def CreateInitialCondition_def CreateVec_state)
    have "ic = ?ic" using ic i by simp
    then show ?thesis using fr(3) i by simp
  qed
qed

lemma Solve_first_pass_failure:
  assumes "Solve_prepare e s = (Inr (m, nt # rest, ic), s1)"
    and "solver_Solve e (mCurrentTime s) nt (vec_data s1 ic) = Inl msg"
  shows "fst (Solve e s) = Inl (Exception msg)"
    and "heap_ok s \<Longrightarrow> count_list (released (snd (Solve e s))) ic =
           (if mSolution s = Some ic then 0 else 1)"
proof -
  let ?s2 = "configure_solver (start_modifiers ic s1)"
  have t: "mCurrentTime ?s2 = mCurrentTime s"
    using Solve_prepare_initial_condition(1) [OF assms(1)] by simp
  have sol: "solver_Solve e (mCurrentTime s) nt (vec_data ?s2 ic) = Inl msg"
    using assms(2) by simp
  have t1: "mCurrentTime s1 = mCurrentTime s"
    by (rule Solve_prepare_initial_condition(1) [OF assms(1)])
  have run: "Solve e s = (Inl (Exception msg), snd (Solve_step e m (mCurrentTime s) nt ic ?s2))"
    using assms(1) Solve_step_failure [OF sol, of m]
    by (simp add: Solve_def Solve_run_def Let_def t1)
  show "fst (Solve e s) = Inl (Exception msg)"
    unfolding run by simp
  show "count_list (released (snd (Solve e s))) ic = (if mSolution s = Some ic then 0 else 1)"
    if "heap_ok s"
  proof -
    have "loop_inv ic s1" using Solve_prepare_inv [OF that, of e] assms(1) by simp
    moreover have "loop_inv ic ?s2 = loop_inv ic s1" by (rule loop_inv_cong) simp_all
    ultimately have i2: "loop_inv ic ?s2" by simp
    have "mSolution ?s2 = mSolution s"
      using Solve_prepare_initial_condition(2) [OF assms(1)] by simp
    then show ?thesis
      unfolding run using Solve_step_failure_release(3) [OF i2 sol, where m = m] by simp
  qed
qed

lemma Solve_step_released_mono:
  assumes "loop_inv ic s"
  shows "set (released s) \<subseteq> set (released (snd (Solve_step e m t nt ic s)))"
proof (cases "solver_Solve e t nt (vec_data s ic)")
  case (Inl msg)
  show ?thesis
    by (simp add: Solve_step_failure [OF Inl] solver_failure_handler_heap)
next
  case (Inr d)
  define s1 where "s1 = emit (AtBeginningOfTimestep t)
                 (emit (SolverSetInitialCondition ic) (emit (SolverSetTimes t nt) s))"
  have k1: "released s1 = released s" "vec_data s1 = vec_data s" by (simp_all add: s1_def)
  obtain a s2 where ad: "adopt_solution d ic nt s1 = (a, s2)"
    by (cases "adopt_solution d ic nt s1")
  have r2: "released s2 = released s @ [ic]" using ad k1 by (auto simp: adopt_solution_state)
  have sol: "solver_Solve e t nt (vec_data s1 ic) = Inr d" using Inr k1 by simp
  show ?thesis
  proof (cases "mPrintOutput s2")
    case False
    have "Solve_step e m t nt ic s = (Inr a, emit (OnEndOfTimestep nt) s2)"
      using sol ad False by (simp add: Solve_step_def s1_def [symmetric])
    then show ?thesis using r2 by auto
  next
    case True
    obtain r s3 where w: "write_and_advance e m nt a s2 = (r, s3)"
      by (cases "write_and_advance e m nt a s2")
    have o: "output_step s2 s3"
      using write_and_advance_output_step [of s2 e m nt a] w by simp
    obtain new where new: "released s3 = released s2 @ new"
      using output_step_released [OF o] by blast
    have eq: "Solve_step e m t nt ic s =
            (case r of Inl x \<Rightarrow> (Inl x, s3)
             | Inr u \<Rightarrow> (Inr a, emit (OnEndOfTimestep nt) s3))"
      using sol ad True w by (simp add: Solve_step_def s1_def [symmetric] split: sum.split)
    show ?thesis unfolding eq using new r2 by (cases r) auto
  qed
qed

lemma Solve_loop_released_mono:
  "loop_inv ic s \<Longrightarrow> set (released s) \<subseteq> set (released (snd (Solve_loop e m t pts ic s)))"
proof (induction pts arbitrary: t ic s)
  case Nil
  then show ?case by simp
next
  case (Cons nt pts)
  obtain r s1 where st: "Solve_step e m t nt ic s = (r, s1)"
    by (cases "Solve_step e m t nt ic s")
  have m1: "set (released s) \<subseteq> set (released s1)"
    using Solve_step_released_mono [OF Cons.prems, of e m t nt] st by simp
  show ?case
  proof (cases r)
    case (Inl x)
    then show ?thesis using m1 st by simp
  next
    case (Inr ic')
    then have "loop_inv ic' s1" using Solve_step_inv [OF Cons.prems, of e m t nt] st by simp
    from Cons.IH [OF this, of nt] show ?thesis using m1 st Inr by auto
  qed
qed

lemma Solve_loop_completed:
  assumes "loop_inv ic s" and "Solve_loop e m t (nt # rest) ic s = (Inr ic', s')"
  shows "ic \<in> set (released s')" and "loop_inv ic' s'" and "mSolution s' = Some ic'"
proof -
  obtain r s1 where st: "Solve_step e m t nt ic s = (r, s1)"
    by (cases "Solve_step e m t nt ic s")
  obtain ic1 where r: "r = Inr ic1" using assms(2) st by (cases r) simp_all
  have loop: "Solve_loop e m nt rest ic1 s1 = (Inr ic', s')" using assms(2) st r by simp
  obtain d where sol: "solver_Solve e t nt (vec_data s ic) = Inr d"
    using st r Solve_step_failure [of e t nt s ic _ m]
    by (cases "solver_Solve e t nt (vec_data s ic)") auto
  note ok = Solve_step_success_release(1,2,4,5) [OF assms(1) sol, where m = m]
  have "count_list (released s1) ic = 1" using ok(1) st by simp
  then have in1: "ic \<in> set (released s1)"
    using count_notin [of ic "released s1"] by fastforce
  have e1: "ic1 = next_addr s \<and> loop_inv ic1 (snd (Solve_step e m t nt ic s))"
    by (rule ok(4)) (simp add: st r)
  have i1: "loop_inv ic1 s1" using e1 [THEN conjunct2] by (simp add: st)
  have m1: "mSolution s1 = Some ic1" using ok(2) e1 [THEN conjunct1] by (simp add: st)
  show "ic \<in> set (released s')"
    using Solve_loop_released_mono [OF i1, of e m nt rest] loop in1 by auto
  show i': "loop_inv ic' s'" using Solve_loop_inv [OF i1, of e m nt rest] loop by simp
  show "mSolution s' = Some ic'"
    using loop i1 m1
  proof (induction rest arbitrary: nt ic1 s1)
    case Nil
    then show ?case by simp
  next
    case (Cons nt2 rest)
    obtain r2 s2 where st2: "Solve_step e m nt nt2 ic1 s1 = (r2, s2)"
      by (cases "Solve_step e m nt nt2 ic1 s1")
    obtain ic2 where r2: "r2 = Inr ic2" using Cons.prems(1) st2 by (cases r2) simp_all
    obtain d2 where sol2: "solver_Solve e nt nt2 (vec_data s1 ic1) = Inr d2"
      using st2 r2 Solve_step_failure [of e nt nt2 s1 ic1 _ m]
      by (cases "solver_Solve e nt nt2 (vec_data s1 ic1)") auto
    note ok2 = Solve_step_success_release(1,2,4,5) [OF Cons.prems(2) sol2, where m = m]
    have e2: "ic2 = next_addr s1 \<and> loop_inv ic2 (snd (Solve_step e m nt nt2 ic1 s1))"
      by (rule ok2(4)) (simp add: st2 r2)
    have "loop_inv ic2 s2" using e2 [THEN conjunct2] by (simp add: st2)
    moreover have "mSolution s2 = Some ic2" using ok2(2) e2 [THEN conjunct1] by (simp add: st2)
    moreover have "Solve_loop e m nt2 rest ic2 s2 = (Inr ic', s')"
      using Cons.prems(1) st2 r2 by simp
    ultimately show ?case using Cons.IH by blast
  qed
qed

lemma count_list_distinct: "distinct xs \<Longrightarrow> a \<in> set xs \<Longrightarrow> count_list xs a = 1"
  by (induction xs) auto

lemma Solve_completed_release:
  assumes "heap_ok s" and "Solve_prepare e s = (Inr (m, nt # rest, ic), s1)"
    and "fst (Solve e s) = Inr ()"
  shows "count_list (released (snd (Solve e s))) ic = 1"
    and "\<exists>v. mSolution (snd (Solve e s)) = Some v \<and> v \<noteq> ic \<and>
             v \<notin> set (released (snd (Solve e s)))"
proof -
  let ?s2 = "configure_solver (start_modifiers ic s1)"
  have "loop_inv ic s1" using Solve_prepare_inv [OF assms(1), of e] assms(2) by simp
  moreover have "loop_inv ic ?s2 = loop_inv ic s1" by (rule loop_inv_cong) simp_all
  ultimately have i2: "loop_inv ic ?s2" by simp
  obtain r s3 where loop: "Solve_loop e m (mCurrentTime ?s2) (nt # rest) ic ?s2 = (r, s3)"
    by (cases "Solve_loop e m (mCurrentTime ?s2) (nt # rest) ic ?s2")
  have run: "Solve e s = (case r of Inl x \<Rightarrow> (Inl x, s3) | Inr u \<Rightarrow> (Inr (), Solve_finish s3))"
    using assms(2) loop by (simp add: Solve_def Solve_run_def Let_def split: sum.split)
  obtain ic' where r: "r = Inr ic'" using assms(3) unfolding run by (cases r) simp_all
  have res: "snd (Solve e s) = Solve_finish s3" unfolding run r by simp
  note c = Solve_loop_completed [OF i2 loop [unfolded r]]
  have fin: "released (Solve_finish s3) = released s3 @ (case mpSolver s3 of None \<Rightarrow> [] | Some a \<Rightarrow> [a])"
    "mSolution (Solve_finish s3) = mSolution s3"
    by (simp_all add: Solve_finish_def Let_def)
  have h: "heap_ok (Solve_finish s3)" using c(2) by (rule Solve_finish_inv)
  have inr: "ic \<in> set (released (Solve_finish s3))" using c(1) fin(1) by simp
  have d: "distinct (released (Solve_finish s3))" using h unfolding heap_ok_def by simp
  show "count_list (released (snd (Solve e s))) ic = 1"
    unfolding res using d inr by (simp add: count_list_distinct)
  have "ic' \<notin> set (released (Solve_finish s3))"
    using h c(3) fin(2) unfolding heap_ok_def by simp
  then show "\<exists>v. mSolution (snd (Solve e s)) = Some v \<and> v \<noteq> ic \<and>
             v \<notin> set (released (snd (Solve e s)))"
    unfolding res using c(3) fin(2) inr by auto
qed

lemma open_output_mSolution: "mSolution (snd (open_output e m ic s)) = mSolution s"
proof (cases "mPrintOutput s")
  case False
  then show ?thesis by (simp add: open_output_def)
next
  case True
  obtain r s1 where iw: "InitialiseWriter e m s = (r, s1)"
    by (cases "InitialiseWriter e m s")
  have k: "mSolution s1 = mSolution s" using InitialiseWriter_frame(3) [of e m s] iw by simp
  show ?thesis
  proof (cases r)
    case (Inl x)
    then show ?thesis
      using True iw k by (cases x) (simp_all add: open_output_def writer_failure_handler_heap)
  next
    case (Inr extending_file)
    show ?thesis
    proof (cases "\<not> (mSolution s1 \<noteq> None \<and> extending_file)")
      case False
      then have "open_output e m ic s = (Inr (), s1)"
        using True iw Inr by (auto simp: open_output_def)
      then show ?thesis using k by simp
    next
      case w: True
      have eq: "open_output e m ic s = write_and_advance e m (mCurrentTime s1) ic s1"
        using True iw Inr w by (simp add: open_output_def)
      have "output_step s1 (snd (write_and_advance e m (mCurrentTime s1) ic s1))"
        by (rule write_and_advance_output_step)
      then show ?thesis unfolding eq using output_step_frame(1) k by simp
    qed
  qed
qed

lemma Solve_prepare_mSolution: "mSolution (snd (Solve_prepare e s)) = mSolution s"
proof (cases "PreSolveChecks s")
  case (Inl x)
  then show ?thesis by (simp add: Solve_prepare_def)
next
  case (Inr u)
  show ?thesis
  proof (cases "mpMesh s")
    case None
    then show ?thesis using Inr by (simp add: Solve_prepare_def)
  next
    case (Some m)
    show ?thesis
    proof (cases "mpSolver s = None")
      case False
      then show ?thesis using Inr Some by (simp add: Solve_prepare_def Let_def)
    next
      case True
      let ?s3 = "(default_boundary_conditions e s)
                   \<lparr>next_addr := Suc (next_addr s), mpSolver := Some (next_addr s)\<rparr>"
      obtain ic s4 where ico: "initial_condition_of e m ?s3 = (ic, s4)"
        by (cases "initial_condition_of e m ?s3")
      have k4: "mSolution s4 = mSolution s"
        using ico
        by (auto simp: initial_condition_of_def CreateInitialCondition_def CreateVec_state
              split: option.splits)
      obtain r s5 where oo: "open_output e m ic s4 = (r, s5)"
        by (cases "open_output e m ic s4")
      have k5: "mSolution s5 = mSolution s"
        using open_output_mSolution [of e m ic s4] oo k4 by simp
      have "snd (Solve_prepare e s) = s5"
        using Inr Some True ico oo
        by (simp add: Solve_prepare_def Let_def alloc_def split: sum.split)
      then show ?thesis using k5 by simp
    qed
  qed
qed

lemma Solve_prepare_failure_keeps_solution:
  assumes "heap_ok s" and "mSolution s = Some v" and "fst (Solve_prepare e s) = Inl x"
  shows "fst (Solve e s) = Inl x" and "mSolution (snd (Solve e s)) = Some v"
    and "v \<notin> set (released (snd (Solve e s)))"
proof -
  obtain s1 where prep: "Solve_prepare e s = (Inl x, s1)"
    using assms(3) by (cases "Solve_prepare e s") auto
  have run: "Solve e s = (Inl x, s1)" using prep by (simp add: Solve_def)
  have m1: "mSolution s1 = Some v" using Solve_prepare_mSolution [of e s] prep assms(2) by simp
  have h1: "heap_ok s1" using Solve_prepare_inv [OF assms(1), of e] prep by simp
  show "fst (Solve e s) = Inl x" by (simp add: run)
  show "mSolution (snd (Solve e s)) = Some v" by (simp add: run m1)
  show "v \<notin> set (released (snd (Solve e s)))" using h1 m1 unfolding heap_ok_def run by simp
qed

lemma Solve_prepare_no_output:
  assumes "PreSolveChecks s = Inr ()" and "mpMesh s = Some m" and "mpSolver s = None"
    and "\<not> mPrintOutput s" and "mSolution s = Some v"
  shows "Solve_prepare e s =
           (Inr (m, TimeStepper (mCurrentTime s) (SimulationDuration (config s))
                      (PrintingTimeStep (config s)) (AdditionalStoppingTimes e), v),
            (default_boundary_conditions e s)
              \<lparr>next_addr := Suc (next_addr s), mpSolver := Some (next_addr s)\<rparr>)"
  using assms
  by (simp add: Solve_prepare_def Let_def alloc_def initial_condition_of_def open_output_def)

lemma TimeStepper_example: "TimeStepper 3 10 3 [] = [6, 9, 10]"
proof -
  have c: "nat \<lceil>(10 - 3) / (3::real)\<rceil> = 3" by simp
  have f: "(3::nat) = Suc (Suc (Suc 0))" by simp
  show ?thesis
    unfolding TimeStepper_def c list.size add_0_right
    by (subst f) (simp add: next_boundary_def)
qed

lemma Solve_prepare_resume_conflict:
  assumes "PreSolveChecks s = Inr ()" and "mpMesh s = Some m" and "mpSolver s = None"
    and "mPrintOutput s"
    and "mSolution s = Some v" and "h5_file s = Some f" and "h5_rows f \<noteq> []"
    and "mCurrentTime s < fst (last (h5_rows f))" and "mpWriter s = None"
  shows "fst (Solve_prepare e s) = Inl ResumeConflict"
proof -
  define s3 where "s3 = (default_boundary_conditions e s)
                          \<lparr>next_addr := Suc (next_addr s), mpSolver := Some (next_addr s)\<rparr>"
  have c: "InitialiseWriter e m s3 = (Inl ResumeConflict, s3)"
    using assms by (intro InitialiseWriter_conflict [where v = v and f = f])
      (simp_all add: s3_def)
  have o: "open_output e m v s3 = (Inl ResumeConflict, writer_failure_handler v s3)"
    using assms c by (simp add: open_output_def ResumeConflict_def s3_def)
  show ?thesis
    using assms o
    by (simp add: Solve_prepare_def Let_def alloc_def initial_condition_of_def s3_def)
qed
section \<open>Claims on the initial condition\<close>

text \<open>
  C10. \<^verbatim>\<open>CreateInitialCondition\<close> assigns the second stacked unknown, to zero, only
  when the problem has exactly two stacked unknowns: with two unknowns the second one is
  zero at every locally owned node, and with any other number of unknowns (the
  instantiations with three and four among them) every unknown beyond the first keeps, at
  every node, the value the vector factory provided.
\<close>

theorem CreateInitialCondition_second_unknown:
  assumes "0 < PROBLEM_DIM e"
  shows "(PROBLEM_DIM e = 2 \<longrightarrow>
            (\<forall>node. local_lo m \<le> node \<and> node < local_hi m \<and> node < NumNodes m \<longrightarrow>
               vec_data (snd (CreateInitialCondition e m s)) (fst (CreateInitialCondition e m s))
                 ! stripe_index e 1 node = 0)) \<and>
         (PROBLEM_DIM e \<noteq> 2 \<longrightarrow>
            (\<forall>node i. node < NumNodes m \<and> 0 < i \<and> i < PROBLEM_DIM e \<longrightarrow>
               vec_data (snd (CreateInitialCondition e m s)) (fst (CreateInitialCondition e m s))
                 ! stripe_index e i node = factory_fill e (stripe_index e i node)))"
  using assms
  by (simp add: second_unknown_zero unknowns_beyond_first_kept del: One_nat_def)

theorem CreateInitialCondition_second_unknown_witness:
  "0 < PROBLEM_DIM (example_env\<lparr>PROBLEM_DIM := 3\<rparr>) \<and> PROBLEM_DIM (example_env\<lparr>PROBLEM_DIM := 3\<rparr>) \<noteq> 2 \<and>
   (1::nat) < NumNodes example_mesh \<and> (0::nat) < 1 \<and> 1 < PROBLEM_DIM (example_env\<lparr>PROBLEM_DIM := 3\<rparr>) \<and>
   vec_data (snd (CreateInitialCondition (example_env\<lparr>PROBLEM_DIM := 3\<rparr>) example_mesh example_problem))
     (fst (CreateInitialCondition (example_env\<lparr>PROBLEM_DIM := 3\<rparr>) example_mesh example_problem))
       ! stripe_index (example_env\<lparr>PROBLEM_DIM := 3\<rparr>) 1 1 = 7 \<and>
   0 < PROBLEM_DIM (example_env\<lparr>PROBLEM_DIM := 2\<rparr>) \<and> PROBLEM_DIM (example_env\<lparr>PROBLEM_DIM := 2\<rparr>) = 2 \<and>
   local_lo example_mesh \<le> 1 \<and> 1 < local_hi example_mesh \<and>
   vec_data (snd (CreateInitialCondition (example_env\<lparr>PROBLEM_DIM := 2\<rparr>) example_mesh example_problem))
     (fst (CreateInitialCondition (example_env\<lparr>PROBLEM_DIM := 2\<rparr>) example_mesh example_problem))
       ! stripe_index (example_env\<lparr>PROBLEM_DIM := 2\<rparr>) 1 1 = 0"
  using CreateInitialCondition_second_unknown [of "example_env\<lparr>PROBLEM_DIM := 3\<rparr>" example_mesh example_problem]
        CreateInitialCondition_second_unknown [of "example_env\<lparr>PROBLEM_DIM := 2\<rparr>" example_mesh example_problem]
  by (simp add: example_env_def example_mesh_def)

lemma one_step_prepared:
  "AdditionalStoppingTimes e = [] \<Longrightarrow>
   \<exists>ic. fst (Solve_prepare e one_step_problem) = Inr (example_mesh, [3], ic) \<and>
        vec_data (snd (Solve_prepare e one_step_problem)) ic =
          vec_data (snd (CreateInitialCondition e example_mesh one_step_problem))
            (fst (CreateInitialCondition e example_mesh one_step_problem))"
proof -
  assume stops: "AdditionalStoppingTimes e = []"
  let ?s = one_step_problem
  have pre: "PreSolveChecks ?s = Inr ()"
    by (rule PreSolveChecks_unit_step [where n = 3])
       (simp_all add: one_step_problem_def example_problem_def example_config_def)
  have h: "mpMesh ?s = Some example_mesh" "mpSolver ?s = None" "mSolution ?s = None"
    "mpWriter ?s = None" "mExtraVariablesId ?s = []"
    by (simp_all add: one_step_problem_def example_problem_def)
  have pts: "TimeStepper (mCurrentTime ?s) (SimulationDuration (config ?s))
               (PrintingTimeStep (config ?s)) (AdditionalStoppingTimes e) = [3]"
    using TimeStepper_one_step [of 3 "[]" 0]
    by (simp add: one_step_problem_def example_problem_def example_config_def stops)
  obtain ic s0 where prep: "Solve_prepare e ?s = (Inr (example_mesh, [3], ic), s0)"
    using Solve_prepare_ok_fresh [OF pre h(1-5), of e] unfolding pts by blast
  have "vec_data s0 ic =
          vec_data (snd (CreateInitialCondition e example_mesh ?s))
            (fst (CreateInitialCondition e example_mesh ?s))"
    using Solve_prepare_initial_condition(4) [OF prep h(3)]
    by (simp add: CreateInitialCondition_data)
  then show ?thesis using prep by (intro exI [of _ ic]) simp
qed

text \<open>
  C5, as stated, fails: with three stacked unknowns and a factory that fills new vectors
  with 7, the initial condition \<^verbatim>\<open>Solve\<close> synthesizes for a fresh run has the value 7,
  not zero, as its second unknown at node 0.
\<close>

theorem initial_condition_second_unknown_counterexample:
  "\<exists>ic. mSolution one_step_problem = None \<and>
        fst (Solve_prepare (example_env\<lparr>PROBLEM_DIM := 3\<rparr>) one_step_problem)
          = Inr (example_mesh, [3], ic) \<and>
        local_lo example_mesh \<le> 0 \<and> 0 < local_hi example_mesh \<and>
        vec_data (snd (Solve_prepare (example_env\<lparr>PROBLEM_DIM := 3\<rparr>) one_step_problem)) ic
          ! stripe_index (example_env\<lparr>PROBLEM_DIM := 3\<rparr>) 1 0 = 7"
proof -
  let ?e = "example_env\<lparr>PROBLEM_DIM := 3\<rparr>"
  obtain ic where p: "fst (Solve_prepare ?e one_step_problem) = Inr (example_mesh, [3], ic)"
    and d: "vec_data (snd (Solve_prepare ?e one_step_problem)) ic =
          vec_data (snd (CreateInitialCondition ?e example_mesh one_step_problem))
            (fst (CreateInitialCondition ?e example_mesh one_step_problem))"
    using one_step_prepared [of ?e] by (auto simp: example_env_def)
  have "vec_data (snd (Solve_prepare ?e one_step_problem)) ic ! stripe_index ?e 1 0 = 7"
    unfolding d
    using unknowns_beyond_first_kept [of ?e 0 example_mesh 1 one_step_problem]
    by (simp add: example_env_def example_mesh_def)
  then show ?thesis
    using p
    by (intro exI [of _ ic])
       (simp add: one_step_problem_def example_problem_def example_mesh_def)
qed

text \<open>
  C5, amended. \<^verbatim>\<open>Solve\<close> takes the held solution as the initial condition whenever
  there is one; otherwise it synthesizes a vector in which, at every locally owned node,
  the first stacked unknown is the membrane potential of the node's cell model and, when
  the problem has exactly two stacked unknowns, the second one is zero. Here \<open>ic\<close> is
  the initial condition with which the preparation of \<^verbatim>\<open>Solve\<close> (everything up to
  the loop) ends and with which \<^verbatim>\<open>Solve\<close> goes on: it is the held solution, with the
  contents it had, or the synthesized vector, and it is the vector whose contents the
  first pass hands to the solver, so that the failure of the solver on these contents is
  the failure of \<^verbatim>\<open>Solve\<close>.
\<close>

theorem Solve_initial_condition:
  assumes "fst (Solve_prepare e s) = Inr (m, pts, ic)"
  shows "Solve e s = Solve_run e m pts ic (snd (Solve_prepare e s)) \<and>
         (\<forall>v. mSolution s = Some v \<longrightarrow>
            ic = v \<and>
            (v < next_addr s \<longrightarrow> vec_data (snd (Solve_prepare e s)) ic = vec_data s v)) \<and>
         (mSolution s = None \<and> 0 < PROBLEM_DIM e \<longrightarrow>
            (\<forall>node. local_lo m \<le> node \<and> node < local_hi m \<and> node < NumNodes m \<longrightarrow>
               vec_data (snd (Solve_prepare e s)) ic ! stripe_index e 0 node
                 = cell_voltage e node \<and>
               (PROBLEM_DIM e = 2 \<longrightarrow>
                  vec_data (snd (Solve_prepare e s)) ic ! stripe_index e 1 node = 0))) \<and>
         (\<forall>nt rest msg.
            pts = nt # rest \<and>
            solver_Solve e (mCurrentTime s) nt (vec_data (snd (Solve_prepare e s)) ic) = Inl msg \<longrightarrow>
              fst (Solve e s) = Inl (Exception msg))"
proof -
  obtain s1 where prep: "Solve_prepare e s = (Inr (m, pts, ic), s1)"
    using assms by (cases "Solve_prepare e s") auto
  have s1: "snd (Solve_prepare e s) = s1" by (simp add: prep)
  have a: "Solve e s = Solve_run e m pts ic s1" by (simp add: Solve_def prep)
  have b: "\<forall>v. mSolution s = Some v \<longrightarrow>
            ic = v \<and> (v < next_addr s \<longrightarrow> vec_data s1 ic = vec_data s v)"
    using Solve_prepare_initial_condition(3) [OF prep] by blast
  have c: "mSolution s = None \<and> 0 < PROBLEM_DIM e \<longrightarrow>
            (\<forall>node. local_lo m \<le> node \<and> node < local_hi m \<and> node < NumNodes m \<longrightarrow>
               vec_data s1 ic ! stripe_index e 0 node = cell_voltage e node \<and>
               (PROBLEM_DIM e = 2 \<longrightarrow> vec_data s1 ic ! stripe_index e 1 node = 0))"
  proof (intro impI allI)
    fix node
    assume f: "mSolution s = None \<and> 0 < PROBLEM_DIM e"
      and n: "local_lo m \<le> node \<and> node < local_hi m \<and> node < NumNodes m"
    have d: "vec_data s1 ic =
               vec_data (snd (CreateInitialCondition e m s)) (fst (CreateInitialCondition e m s))"
      using Solve_prepare_initial_condition(4) [OF prep] f
      by (simp add: CreateInitialCondition_data)
    show "vec_data s1 ic ! stripe_index e 0 node = cell_voltage e node \<and>
          (PROBLEM_DIM e = 2 \<longrightarrow> vec_data s1 ic ! stripe_index e 1 node = 0)"
      unfolding d using f n
      by (simp add: first_unknown_voltage second_unknown_zero del: One_nat_def)
  qed
  have d: "\<forall>nt rest msg.
            pts = nt # rest \<and> solver_Solve e (mCurrentTime s) nt (vec_data s1 ic) = Inl msg \<longrightarrow>
              fst (Solve e s) = Inl (Exception msg)"
    using Solve_first_pass_failure(1) [of e s m _ _ ic s1] prep by blast
  show ?thesis unfolding s1 using a b c d by (intro conjI)
qed

theorem Solve_initial_condition_witness:
  "fst (Solve_prepare failing_env resumed_problem) = Inr (example_mesh, [6, 9, 10], 1) \<and>
   mSolution resumed_problem = Some 1 \<and> 1 < next_addr resumed_problem \<and>
   vec_data (snd (Solve_prepare failing_env resumed_problem)) 1 = [- 75, - 76] \<and>
   solver_Solve failing_env (mCurrentTime resumed_problem) 6 [- 75, - 76] = Inl ''solver diverged'' \<and>
   fst (Solve failing_env resumed_problem) = Inl (Exception ''solver diverged'') \<and>
   (\<exists>ic. fst (Solve_prepare (example_env\<lparr>PROBLEM_DIM := 2\<rparr>) one_step_problem)
            = Inr (example_mesh, [3], ic) \<and>
         mSolution one_step_problem = None \<and>
         0 < PROBLEM_DIM (example_env\<lparr>PROBLEM_DIM := 2\<rparr>) \<and>
         local_lo example_mesh \<le> 1 \<and> 1 < local_hi example_mesh \<and> 1 < NumNodes example_mesh \<and>
         vec_data (snd (Solve_prepare (example_env\<lparr>PROBLEM_DIM := 2\<rparr>) one_step_problem)) ic
           ! stripe_index (example_env\<lparr>PROBLEM_DIM := 2\<rparr>) 0 1 = - 81 \<and>
         vec_data (snd (Solve_prepare (example_env\<lparr>PROBLEM_DIM := 2\<rparr>) one_step_problem)) ic
           ! stripe_index (example_env\<lparr>PROBLEM_DIM := 2\<rparr>) 1 1 = 0)"
proof -
  let ?r = resumed_problem
  let ?f = failing_env
  have pre: "PreSolveChecks ?r = Inr ()"
    by (rule PreSolveChecks_unit_step [where n = 10])
       (simp_all add: resumed_problem_def conflicting_problem_def example_problem_def
          example_config_def)
  have h: "mpMesh ?r = Some example_mesh" "mpSolver ?r = None" "\<not> mPrintOutput ?r"
    "mSolution ?r = Some 1" "next_addr ?r = 2" "mCurrentTime ?r = 3"
    "vec_data ?r 1 = [- 75, - 76]"
    by (simp_all add: resumed_problem_def conflicting_problem_def example_problem_def)
  have pts: "TimeStepper (mCurrentTime ?r) (SimulationDuration (config ?r))
               (PrintingTimeStep (config ?r)) (AdditionalStoppingTimes ?f) = [6, 9, 10]"
    using TimeStepper_example
    by (simp add: resumed_problem_def conflicting_problem_def example_problem_def
          example_config_def failing_env_def example_env_def)
  have prep: "fst (Solve_prepare ?f ?r) = Inr (example_mesh, [6, 9, 10], 1)"
    using Solve_prepare_no_output [OF pre h(1-4), of ?f] pts by simp
  note T = Solve_initial_condition [OF prep]
  have held: "1 = (1::nat) \<and>
              (1 < next_addr ?r \<longrightarrow> vec_data (snd (Solve_prepare ?f ?r)) 1 = vec_data ?r 1)"
    using T [THEN conjunct2, THEN conjunct1] h(4) by blast
  have data: "vec_data (snd (Solve_prepare ?f ?r)) 1 = [- 75, - 76]"
    using held h(5,7) by simp
  have fail: "solver_Solve ?f (mCurrentTime ?r) 6 [- 75, - 76] = Inl ''solver diverged''"
    by (simp add: failing_env_def)
  have "[6, 9, 10] = 6 # [9, 10::real] \<and>
        solver_Solve ?f (mCurrentTime ?r) 6 (vec_data (snd (Solve_prepare ?f ?r)) 1)
          = Inl ''solver diverged''"
    using fail data by simp
  then have res: "fst (Solve ?f ?r) = Inl (Exception ''solver diverged'')"
    using T [THEN conjunct2, THEN conjunct2, THEN conjunct2] by blast
  let ?e = "example_env\<lparr>PROBLEM_DIM := 2\<rparr>"
  obtain ic where p: "fst (Solve_prepare ?e one_step_problem) = Inr (example_mesh, [3], ic)"
    using one_step_prepared [of ?e] by (auto simp: example_env_def)
  have g: "mSolution one_step_problem = None" "0 < PROBLEM_DIM ?e"
    "local_lo example_mesh \<le> 1" "1 < local_hi example_mesh" "1 < NumNodes example_mesh"
    "PROBLEM_DIM ?e = 2" "cell_voltage ?e 1 = - 81"
    by (simp_all add: one_step_problem_def example_problem_def example_mesh_def example_env_def)
  note T2 = Solve_initial_condition [OF p]
  have "vec_data (snd (Solve_prepare ?e one_step_problem)) ic ! stripe_index ?e 0 1
          = cell_voltage ?e 1 \<and>
        (PROBLEM_DIM ?e = 2 \<longrightarrow>
           vec_data (snd (Solve_prepare ?e one_step_problem)) ic ! stripe_index ?e 1 1 = 0)"
    using T2 [THEN conjunct2, THEN conjunct2, THEN conjunct1] g(1-5) by blast
  then have v: "vec_data (snd (Solve_prepare ?e one_step_problem)) ic ! stripe_index ?e 0 1 = - 81"
    "vec_data (snd (Solve_prepare ?e one_step_problem)) ic ! stripe_index ?e 1 1 = 0"
    using g(6,7) by simp_all
  have fresh: "\<exists>ic. fst (Solve_prepare ?e one_step_problem) = Inr (example_mesh, [3], ic) \<and>
         mSolution one_step_problem = None \<and> 0 < PROBLEM_DIM ?e \<and>
         local_lo example_mesh \<le> 1 \<and> 1 < local_hi example_mesh \<and> 1 < NumNodes example_mesh \<and>
         vec_data (snd (Solve_prepare ?e one_step_problem)) ic ! stripe_index ?e 0 1 = - 81 \<and>
         vec_data (snd (Solve_prepare ?e one_step_problem)) ic ! stripe_index ?e 1 1 = 0"
    using p g(1-5) v by (intro exI [of _ ic] conjI)
  have lt: "1 < next_addr ?r" using h(5) by simp
  show ?thesis
    by (intro conjI prep h(4) lt data fail res fresh)
qed
section \<open>Claims on PreSolveChecks\<close>

lemma Solve_rejected: "PreSolveChecks s = Inl x \<Longrightarrow> Solve e s = (Inl x, s)"
  by (simp add: Solve_def Solve_prepare_def)

lemma PreSolveChecks_printing_interval:
  "PreSolveChecks (s\<lparr>config := (config s)\<lparr>PrintingTimeStep := p\<rparr>\<rparr>) = PreSolveChecks s"
  by (auto simp: PreSolveChecks_def)

lemma PreSolveChecks_time_step_test:
  assumes "mpCardiacTissue s \<noteq> None" and "mCurrentTime s < SimulationDuration (config s)"
    and "mPrintOutput s \<longrightarrow>
           OutputDirectory (config s) \<noteq> [] \<and> OutputFilenamePrefix (config s) \<noteq> []"
  shows "PreSolveChecks s =
           (if double_greater
                 (time_step_residue (SimulationDuration (config s)) (PdeTimeStep (config s)))
                 (round_to_double (1 / 10 ^ 10))
            then Inl (Exception
                   ''PDE timestep does not seem to divide end time - check parameters'')
            else Inr ())"
  using assms by (auto simp: PreSolveChecks_def Let_def)

text \<open>
  The test is one of double precision. For the doubles nearest to the end time 524293.7
  and the time step 0.1 the exact residue is below the tolerance, the computed residue is
  \<open>1 / 2 ^ 33\<close>, above it, and the run is rejected.
\<close>

lemma PreSolveChecks_rounding_example:
  "is_double (2251824294998835 / 4294967296) \<and>
   is_double (3602879701896397 / 36028797018963968) \<and>
   divides_within_tolerance (3602879701896397 / 36028797018963968)
     (2251824294998835 / 4294967296) \<and>
   time_step_residue (2251824294998835 / 4294967296) (3602879701896397 / 36028797018963968)
     = Finite (1 / 2 ^ 33) \<and>
   PreSolveChecks (example_problem\<lparr>config := example_config
       \<lparr>SimulationDuration := 2251824294998835 / 4294967296,
        PdeTimeStep := 3602879701896397 / 36028797018963968\<rparr>\<rparr>)
     = Inl (Exception ''PDE timestep does not seem to divide end time - check parameters'')"
proof -
  have a: "is_double (2251824294998835 / 4294967296)"
    by (simp add: is_double_def double_eval)
  have b: "is_double (3602879701896397 / 36028797018963968)"
    by (simp add: is_double_def double_eval)
  have c: "divides_within_tolerance (3602879701896397 / 36028797018963968)
             (2251824294998835 / 4294967296)"
    by (simp add: divides_within_tolerance_def c_round_def)
  have d: "time_step_residue (2251824294998835 / 4294967296)
             (3602879701896397 / 36028797018963968) = Finite (1 / 2 ^ 33)"
    by (simp add: double_eval)
  have "PreSolveChecks (example_problem\<lparr>config := example_config
       \<lparr>SimulationDuration := 2251824294998835 / 4294967296,
        PdeTimeStep := 3602879701896397 / 36028797018963968\<rparr>\<rparr>)
     = Inl (Exception ''PDE timestep does not seem to divide end time - check parameters'')"
    by (subst PreSolveChecks_time_step_test)
       (simp_all add: example_problem_def example_config_def d tolerance_numeral)
  then show ?thesis using a b c d by simp
qed

text \<open>
  C2, as stated, fails in both directions. With end time 10, current time 0, printing
  interval 3 and PDE time step 1 the printing interval does not divide the duration and
  \<^verbatim>\<open>PreSolveChecks\<close> passes; with end time 11, current time 1, printing interval 2
  and PDE time step 2 the printing interval divides the remaining 10 and the run is
  rejected by the time-step check. All these values are doubles and the operations on
  them are exact.
\<close>

theorem PreSolveChecks_printing_interval_counterexample:
  "\<not> divides_within_tolerance (PrintingTimeStep (config example_problem))
       (SimulationDuration (config example_problem) - mCurrentTime example_problem) \<and>
   PreSolveChecks example_problem = Inr () \<and>
   divides_within_tolerance 2 (11 - 1) \<and>
   PreSolveChecks (example_problem\<lparr>mCurrentTime := 1,
       config := example_config\<lparr>SimulationDuration := 11, PrintingTimeStep := 2,
                                 PdeTimeStep := 2\<rparr>\<rparr>)
     = Inl (Exception ''PDE timestep does not seem to divide end time - check parameters'')"
proof -
  have a: "\<not> divides_within_tolerance (PrintingTimeStep (config example_problem))
       (SimulationDuration (config example_problem) - mCurrentTime example_problem)"
    by (simp add: divides_within_tolerance_def example_problem_def example_config_def
          c_round_def)
  have b: "PreSolveChecks example_problem = Inr ()"
    by (rule PreSolveChecks_unit_step [where n = 10])
       (simp_all add: example_problem_def example_config_def)
  have c: "divides_within_tolerance 2 (11 - 1)"
    by (simp add: divides_within_tolerance_def c_round_def)
  have r: "time_step_residue 11 2 = Finite 1"
    by (simp add: double_eval)
  have d: "PreSolveChecks (example_problem\<lparr>mCurrentTime := 1,
       config := example_config\<lparr>SimulationDuration := 11, PrintingTimeStep := 2,
                                 PdeTimeStep := 2\<rparr>\<rparr>)
     = Inl (Exception ''PDE timestep does not seem to divide end time - check parameters'')"
    by (subst PreSolveChecks_time_step_test)
       (simp_all add: example_problem_def example_config_def r tolerance_numeral)
  show ?thesis using a b c d by simp
qed

text \<open>
  C2, amended. \<^verbatim>\<open>PreSolveChecks\<close> does not look at the printing interval: its result
  is the same for every printing interval. Whatever it rejects is rejected before any
  resource is created: \<^verbatim>\<open>Solve\<close> returns the failure and leaves the state, the
  checkpoint file included, as it was. When the tissue exists, the end time is after the
  current time and, with output enabled, the output directory and file name prefix are
  not empty, the run is rejected whenever the residue of the end time against the PDE
  time step, \<^verbatim>\<open>fabs(end_time - pde_time * round(end_time / pde_time))\<close> as computed in
  double precision, exceeds \<^verbatim>\<open>1e-10\<close>, and passes otherwise. In particular it passes
  whenever the end time is exactly a whole number, up to \<open>2 ^ 53\<close>, of PDE time steps,
  and for an end time and a non-zero time step that are whole numbers up to \<open>2 ^ 26\<close> it
  passes if and only if the time step divides the end time.
\<close>

theorem PreSolveChecks_pde_time_step:
  "PreSolveChecks (s\<lparr>config := (config s)\<lparr>PrintingTimeStep := p\<rparr>\<rparr>) = PreSolveChecks s \<and>
   (PreSolveChecks s = Inl x \<longrightarrow> Solve e s = (Inl x, s)) \<and>
   (mpCardiacTissue s \<noteq> None \<and> mCurrentTime s < SimulationDuration (config s) \<and>
    (mPrintOutput s \<longrightarrow>
       OutputDirectory (config s) \<noteq> [] \<and> OutputFilenamePrefix (config s) \<noteq> []) \<longrightarrow>
      PreSolveChecks s =
        (if double_greater
              (time_step_residue (SimulationDuration (config s)) (PdeTimeStep (config s)))
              (round_to_double (1 / 10 ^ 10))
         then Inl (Exception
                ''PDE timestep does not seem to divide end time - check parameters'')
         else Inr ()) \<and>
      (is_double (SimulationDuration (config s)) \<and>
       SimulationDuration (config s) = PdeTimeStep (config s) * of_int n \<and> \<bar>n\<bar> \<le> 2 ^ 53 \<longrightarrow>
         PreSolveChecks s = Inr ()) \<and>
      (SimulationDuration (config s) = of_int a \<and> PdeTimeStep (config s) = of_int b \<and>
       \<bar>a\<bar> \<le> 2 ^ 26 \<and> \<bar>b\<bar> \<le> 2 ^ 26 \<and> b \<noteq> 0 \<longrightarrow>
         (PreSolveChecks s = Inr () \<longleftrightarrow> b dvd a)))"
proof (intro conjI impI)
  show "PreSolveChecks (s\<lparr>config := (config s)\<lparr>PrintingTimeStep := p\<rparr>\<rparr>) = PreSolveChecks s"
    by (rule PreSolveChecks_printing_interval)
next
  assume "PreSolveChecks s = Inl x"
  then show "Solve e s = (Inl x, s)" by (rule Solve_rejected)
next
  assume g: "mpCardiacTissue s \<noteq> None \<and> mCurrentTime s < SimulationDuration (config s) \<and>
    (mPrintOutput s \<longrightarrow>
       OutputDirectory (config s) \<noteq> [] \<and> OutputFilenamePrefix (config s) \<noteq> [])"
  then show "PreSolveChecks s =
        (if double_greater
              (time_step_residue (SimulationDuration (config s)) (PdeTimeStep (config s)))
              (round_to_double (1 / 10 ^ 10))
         then Inl (Exception
                ''PDE timestep does not seem to divide end time - check parameters'')
         else Inr ())"
    by (intro PreSolveChecks_time_step_test) simp_all
next
  assume g: "mpCardiacTissue s \<noteq> None \<and> mCurrentTime s < SimulationDuration (config s) \<and>
    (mPrintOutput s \<longrightarrow>
       OutputDirectory (config s) \<noteq> [] \<and> OutputFilenamePrefix (config s) \<noteq> [])"
    and m: "is_double (SimulationDuration (config s)) \<and>
       SimulationDuration (config s) = PdeTimeStep (config s) * of_int n \<and> \<bar>n\<bar> \<le> 2 ^ 53"
  have g1: "mpCardiacTissue s \<noteq> None" and g2: "mCurrentTime s < SimulationDuration (config s)"
    and g3: "mPrintOutput s \<longrightarrow>
               OutputDirectory (config s) \<noteq> [] \<and> OutputFilenamePrefix (config s) \<noteq> []"
    using g by blast+
  have m1: "is_double (SimulationDuration (config s))"
    and m2: "SimulationDuration (config s) = PdeTimeStep (config s) * of_int n"
    and m3: "\<bar>n\<bar> \<le> 2 ^ 53"
    using m by blast+
  show "PreSolveChecks s = Inr ()"
    by (rule PreSolveChecks_whole_steps [OF g1 g2 g3 m1 m2 m3])
next
  assume g: "mpCardiacTissue s \<noteq> None \<and> mCurrentTime s < SimulationDuration (config s) \<and>
    (mPrintOutput s \<longrightarrow>
       OutputDirectory (config s) \<noteq> [] \<and> OutputFilenamePrefix (config s) \<noteq> [])"
    and i: "SimulationDuration (config s) = of_int a \<and> PdeTimeStep (config s) = of_int b \<and>
       \<bar>a\<bar> \<le> 2 ^ 26 \<and> \<bar>b\<bar> \<le> 2 ^ 26 \<and> b \<noteq> 0"
  show "PreSolveChecks s = Inr () \<longleftrightarrow> b dvd a"
  proof (cases "b dvd a")
    case True
    then obtain k where k: "a = b * k" by (elim dvdE)
    have "1 \<le> \<bar>b\<bar>" using i by linarith
    then have "1 * \<bar>k\<bar> \<le> \<bar>b\<bar> * \<bar>k\<bar>" by (intro mult_right_mono) simp_all
    then have "\<bar>k\<bar> \<le> \<bar>a\<bar>" by (simp add: k abs_mult)
    then have kb: "\<bar>k\<bar> \<le> 2 ^ 53" using i by simp
    have ab: "\<bar>a\<bar> \<le> 2 ^ 53" using i by simp
    have g1: "mpCardiacTissue s \<noteq> None"
      and g2: "mCurrentTime s < SimulationDuration (config s)"
      and g3: "mPrintOutput s \<longrightarrow>
                 OutputDirectory (config s) \<noteq> [] \<and> OutputFilenamePrefix (config s) \<noteq> []"
      using g by blast+
    have m1: "is_double (SimulationDuration (config s))"
      using is_double_of_int [OF ab] i by simp
    have m2: "SimulationDuration (config s) = PdeTimeStep (config s) * of_int k"
      using i k by simp
    have "PreSolveChecks s = Inr ()"
      by (rule PreSolveChecks_whole_steps [OF g1 g2 g3 m1 m2 kb])
    then show ?thesis using True by simp
  next
    case False
    obtain d where d: "time_step_residue (of_int a) (of_int b) = Finite d" and one: "1 \<le> d"
      using time_step_residue_integers [of a b] i False by blast
    have "PreSolveChecks s =
            Inl (Exception ''PDE timestep does not seem to divide end time - check parameters'')"
      using g i one
      by (subst PreSolveChecks_time_step_test) (simp_all add: d tolerance_numeral)
    then show ?thesis using False by simp
  qed
qed

theorem PreSolveChecks_pde_time_step_witness:
  "PreSolveChecks (example_problem\<lparr>config := (config example_problem)\<lparr>PrintingTimeStep := 7\<rparr>\<rparr>)
     = PreSolveChecks example_problem \<and>
   mpCardiacTissue example_problem \<noteq> None \<and>
   mCurrentTime example_problem < SimulationDuration (config example_problem) \<and>
   OutputDirectory (config example_problem) \<noteq> [] \<and>
   OutputFilenamePrefix (config example_problem) \<noteq> [] \<and>
   is_double (SimulationDuration (config example_problem)) \<and>
   SimulationDuration (config example_problem) = PdeTimeStep (config example_problem) * of_int 10 \<and>
   PreSolveChecks example_problem = Inr () \<and>
   SimulationDuration (example_config\<lparr>PdeTimeStep := 3\<rparr>) = of_int 10 \<and>
   PdeTimeStep (example_config\<lparr>PdeTimeStep := 3\<rparr>) = of_int 3 \<and> \<not> (3::int) dvd 10 \<and>
   PreSolveChecks (example_problem\<lparr>config := example_config\<lparr>PdeTimeStep := 3\<rparr>\<rparr>)
     = Inl (Exception ''PDE timestep does not seem to divide end time - check parameters'') \<and>
   Solve example_env (example_problem\<lparr>config := example_config\<lparr>PdeTimeStep := 3\<rparr>\<rparr>)
     = (Inl (Exception ''PDE timestep does not seem to divide end time - check parameters''),
        example_problem\<lparr>config := example_config\<lparr>PdeTimeStep := 3\<rparr>\<rparr>)"
proof -
  let ?x = "Exception ''PDE timestep does not seem to divide end time - check parameters''"
  let ?s3 = "example_problem\<lparr>config := example_config\<lparr>PdeTimeStep := 3\<rparr>\<rparr>"
  have g: "mpCardiacTissue example_problem \<noteq> None"
    "mCurrentTime example_problem < SimulationDuration (config example_problem)"
    "OutputDirectory (config example_problem) \<noteq> []"
    "OutputFilenamePrefix (config example_problem) \<noteq> []"
    "SimulationDuration (config example_problem) = PdeTimeStep (config example_problem) * of_int 10"
    by (simp_all add: example_problem_def example_config_def)
  have dbl: "is_double (SimulationDuration (config example_problem))"
    using is_double_of_int [of 10] by (simp add: example_problem_def example_config_def)
  have nd: "\<not> (3::int) dvd 10" by simp
  have G: "mpCardiacTissue example_problem \<noteq> None \<and>
           mCurrentTime example_problem < SimulationDuration (config example_problem) \<and>
           (mPrintOutput example_problem \<longrightarrow>
              OutputDirectory (config example_problem) \<noteq> [] \<and>
              OutputFilenamePrefix (config example_problem) \<noteq> [])"
    by (simp add: example_problem_def example_config_def)
  have M: "is_double (SimulationDuration (config example_problem)) \<and>
           SimulationDuration (config example_problem)
             = PdeTimeStep (config example_problem) * of_int 10 \<and> \<bar>10::int\<bar> \<le> 2 ^ 53"
    using dbl by (simp add: example_problem_def example_config_def)
  note T = PreSolveChecks_pde_time_step
             [where s = example_problem and p = 7 and x = ?x and e = example_env and n = 10
                and a = 10 and b = 3]
  have p: "PreSolveChecks (example_problem\<lparr>config := (config example_problem)\<lparr>PrintingTimeStep := 7\<rparr>\<rparr>)
     = PreSolveChecks example_problem"
    by (rule T [THEN conjunct1])
  have ok: "PreSolveChecks example_problem = Inr ()"
    by (rule T [THEN conjunct2, THEN conjunct2, THEN mp, OF G, THEN conjunct2, THEN conjunct1,
                THEN mp, OF M])
  have G3: "mpCardiacTissue ?s3 \<noteq> None \<and> mCurrentTime ?s3 < SimulationDuration (config ?s3) \<and>
            (mPrintOutput ?s3 \<longrightarrow>
               OutputDirectory (config ?s3) \<noteq> [] \<and> OutputFilenamePrefix (config ?s3) \<noteq> [])"
    by (simp add: example_problem_def example_config_def)
  have I3: "SimulationDuration (config ?s3) = of_int 10 \<and> PdeTimeStep (config ?s3) = of_int 3 \<and>
            \<bar>10::int\<bar> \<le> 2 ^ 26 \<and> \<bar>3::int\<bar> \<le> 2 ^ 26 \<and> (3::int) \<noteq> 0"
    by (simp add: example_config_def)
  note T3 = PreSolveChecks_pde_time_step
              [where s = ?s3 and p = 7 and x = ?x and e = example_env and n = 10
                 and a = 10 and b = 3]
  note R3 = T3 [THEN conjunct2, THEN conjunct2, THEN mp, OF G3]
  have "(PreSolveChecks ?s3 = Inr ()) = ((3::int) dvd 10)"
    by (rule R3 [THEN conjunct2, THEN conjunct2, THEN mp, OF I3])
  then have no: "PreSolveChecks ?s3 \<noteq> Inr ()" using nd by simp
  have "PreSolveChecks ?s3 = Inl ?x \<or> PreSolveChecks ?s3 = Inr ()"
    unfolding R3 [THEN conjunct1] by simp
  then have rej: "PreSolveChecks ?s3 = Inl ?x" using no by blast
  have sol: "Solve example_env ?s3 = (Inl ?x, ?s3)"
    by (rule T3 [THEN conjunct2, THEN conjunct1, THEN mp, OF rej])
  have i3: "SimulationDuration (example_config\<lparr>PdeTimeStep := 3\<rparr>) = of_int 10"
    "PdeTimeStep (example_config\<lparr>PdeTimeStep := 3\<rparr>) = of_int 3"
    by (simp_all add: example_config_def)
  show ?thesis
    by (intro conjI p g(1-5) dbl ok i3 nd rej sol)
qed
section \<open>Claims on resuming\<close>

text \<open>
  C3. When a solution is held and the checkpoint file exists (with at least one row and
  the voltage column), \<^verbatim>\<open>InitialiseWriter\<close> opens the writer in extend mode on the
  unchanged file if and only if the last recorded time does not exceed the current time;
  otherwise it raises the resume conflict with the state as it was, no writer is opened
  and no row written, and \<^verbatim>\<open>Solve\<close> ends with that failure and the file unmodified.
\<close>

theorem InitialiseWriter_extends_iff:
  assumes "mSolution s = Some v" and "h5_file s = Some f" and "h5_rows f \<noteq> []"
    and "mpWriter s = None" and "''V'' \<in> set (h5_columns f)"
  shows "(fst (InitialiseWriter e m s) = Inr True \<longleftrightarrow>
            fst (last (h5_rows f)) \<le> mCurrentTime s) \<and>
         (fst (last (h5_rows f)) \<le> mCurrentTime s \<longrightarrow>
            h5_file (snd (InitialiseWriter e m s)) = Some f \<and>
            (\<exists>w. mpWriter (snd (InitialiseWriter e m s)) = Some w \<and> w_extending w \<and>
                 \<not> w_define_mode w \<and> w_cursor w = length (h5_rows f))) \<and>
         (mCurrentTime s < fst (last (h5_rows f)) \<longrightarrow>
            InitialiseWriter e m s = (Inl ResumeConflict, s) \<and>
            (PreSolveChecks s = Inr () \<and> mpMesh s = Some m \<and> mpSolver s = None \<and>
             mPrintOutput s \<longrightarrow>
               fst (Solve e s) = Inl ResumeConflict \<and> h5_file (snd (Solve e s)) = Some f))"
proof (cases "fst (last (h5_rows f)) \<le> mCurrentTime s")
  case True
  then show ?thesis
    using InitialiseWriter_extend [OF assms(1-3) True assms(4,5), of e m] by simp
next
  case False
  then have lt: "mCurrentTime s < fst (last (h5_rows f))" by simp
  have c: "InitialiseWriter e m s = (Inl ResumeConflict, s)"
    using InitialiseWriter_conflict [OF assms(1-3) lt assms(4)] .
  show ?thesis
    using False c Solve_resume_conflict [OF _ _ _ _ assms(1-3) lt assms(4), of m e]
    by simp
qed

theorem InitialiseWriter_extends_iff_witness:
  "mSolution conflicting_problem = Some 1 \<and> h5_file conflicting_problem = Some later_file \<and>
   h5_rows later_file \<noteq> [] \<and> mpWriter conflicting_problem = None \<and>
   ''V'' \<in> set (h5_columns later_file) \<and>
   mCurrentTime conflicting_problem < fst (last (h5_rows later_file)) \<and>
   InitialiseWriter example_env example_mesh conflicting_problem
     = (Inl ResumeConflict, conflicting_problem) \<and>
   fst (last (h5_rows later_file)) \<le> mCurrentTime (conflicting_problem\<lparr>mCurrentTime := 5\<rparr>) \<and>
   fst (InitialiseWriter example_env example_mesh (conflicting_problem\<lparr>mCurrentTime := 5\<rparr>))
     = Inr True \<and>
   h5_file (snd (InitialiseWriter example_env example_mesh
                   (conflicting_problem\<lparr>mCurrentTime := 5\<rparr>))) = Some later_file"
  using InitialiseWriter_extends_iff
          [of conflicting_problem 1 later_file example_env example_mesh]
        InitialiseWriter_extends_iff
          [of "conflicting_problem\<lparr>mCurrentTime := 5\<rparr>" 1 later_file example_env example_mesh]
  by (simp add: conflicting_problem_def example_problem_def later_file_def)

text \<open>
  C9. The solver handle is not null after every exit of \<^verbatim>\<open>Solve\<close>: when
  \<^verbatim>\<open>InitialiseWriter\<close> throws, the handler deletes the solver and leaves the pointer
  set. On the problem that holds a solution at time 3 and a file with results up to time
  5, \<^verbatim>\<open>Solve\<close> ends with the resume conflict, \<^verbatim>\<open>mpSolver\<close> is the address of the
  released solver, and the next call of \<^verbatim>\<open>Solve\<close> fails its entry assertion.
\<close>

theorem Solve_writer_failure_keeps_solver_pointer:
  "fst (Solve example_env conflicting_problem) = Inl ResumeConflict \<and>
   mpSolver conflicting_problem = None \<and>
   mpSolver (snd (Solve example_env conflicting_problem)) = Some 2 \<and>
   2 \<in> set (released (snd (Solve example_env conflicting_problem))) \<and>
   fst (Solve example_env (snd (Solve example_env conflicting_problem)))
     = Inl (AssertionFailure ''mpSolver == nullptr'')"
proof -
  let ?s = "(default_boundary_conditions example_env conflicting_problem)
              \<lparr>next_addr := Suc (next_addr conflicting_problem),
               mpSolver := Some (next_addr conflicting_problem),
               released := released conflicting_problem @ [next_addr conflicting_problem]\<rparr>"
  have pre: "PreSolveChecks conflicting_problem = Inr ()"
    by (rule PreSolveChecks_unit_step [where n = 10])
       (simp_all add: conflicting_problem_def example_problem_def example_config_def)
  have first: "Solve example_env conflicting_problem = (Inl ResumeConflict, ?s)"
    by (rule Solve_resume_conflict_state [OF pre, where m = example_mesh and v = 1
              and f = later_file])
       (simp_all add: conflicting_problem_def example_problem_def later_file_def)
  have "PreSolveChecks ?s = PreSolveChecks conflicting_problem"
    by (rule PreSolveChecks_cong) simp_all
  then have second: "fst (Solve example_env ?s) = Inl (AssertionFailure ''mpSolver == nullptr'')"
    using pre
    by (intro Solve_stale_solver [where m = example_mesh])
       (simp_all add: conflicting_problem_def example_problem_def)
  show ?thesis
    using second by (simp add: first) (simp add: conflicting_problem_def example_problem_def)
qed

section \<open>Claims on Initialise\<close>

lemma obtain_mesh_supplied: "mpMesh s \<noteq> None \<Longrightarrow> obtain_mesh e s = (Inr (), s)"
  by (simp add: obtain_mesh_def)

lemma obtain_mesh_keeps:
  "fst (obtain_mesh e s) = Inr () \<Longrightarrow>
   mpMesh (snd (obtain_mesh e s)) \<noteq> None \<and>
   mpCardiacTissue (snd (obtain_mesh e s)) = mpCardiacTissue s \<and>
   mSolution (snd (obtain_mesh e s)) = mSolution s \<and>
   released (snd (obtain_mesh e s)) = released s \<and>
   next_addr (snd (obtain_mesh e s)) = next_addr s"
  by (auto simp: obtain_mesh_def CreateMeshFromHeartConfig_def Let_def
        split: if_splits sum.splits)

lemma obtain_mesh_fails:
  "mpMesh s = None \<Longrightarrow> \<not> mesh_obtainable e (config s) \<Longrightarrow> \<exists>x. fst (obtain_mesh e s) = Inl x"
  by (auto simp: obtain_mesh_def mesh_obtainable_def CreateMeshFromHeartConfig_def Let_def
        split: sum.splits)

lemma Initialise_success:
  assumes "fst (obtain_mesh e s) = Inr ()"
  shows "fst (Initialise e s) = Inr () \<and>
         mpMesh (snd (Initialise e s)) \<noteq> None \<and>
         mCurrentTime (snd (Initialise e s)) = 0 \<and>
         mSolution (snd (Initialise e s)) = None \<and>
         mpCardiacTissue (snd (Initialise e s)) = Some (next_addr s) \<and>
         next_addr (snd (Initialise e s)) = Suc (next_addr s) \<and>
         released (snd (Initialise e s)) =
           released s @ (case mpCardiacTissue s of None \<Rightarrow> [] | Some a \<Rightarrow> [a])
                      @ (case mSolution s of None \<Rightarrow> [] | Some v \<Rightarrow> [v])"
proof -
  obtain s1 where o: "obtain_mesh e s = (Inr (), s1)"
    using assms by (cases "obtain_mesh e s") auto
  have k: "mpMesh s1 \<noteq> None" "mpCardiacTissue s1 = mpCardiacTissue s"
    "mSolution s1 = mSolution s" "released s1 = released s" "next_addr s1 = next_addr s"
    using obtain_mesh_keeps [OF assms] o by simp_all
  show ?thesis
    using k by (simp add: Initialise_def o Let_def alloc_def split: option.split)
qed

lemma Initialise_failure: "fst (obtain_mesh e s) = Inl x \<Longrightarrow> fst (Initialise e s) = Inl x"
  by (cases "obtain_mesh e s") (auto simp: Initialise_def)

lemma Initialise_returning:
  "(fst (Initialise e s) = Inr () \<longrightarrow>
      mCurrentTime (snd (Initialise e s)) = 0 \<and>
      mSolution (snd (Initialise e s)) = None \<and>
      mpCardiacTissue (snd (Initialise e s)) = Some (next_addr s) \<and>
      released (snd (Initialise e s)) =
        released s @ (case mpCardiacTissue s of None \<Rightarrow> [] | Some a \<Rightarrow> [a])
                   @ (case mSolution s of None \<Rightarrow> [] | Some v \<Rightarrow> [v]) \<and>
      mpMesh (snd (Initialise e s)) \<noteq> None) \<and>
   (mpMesh s \<noteq> None \<longrightarrow> fst (Initialise e s) = Inr ()) \<and>
   (mpMesh s = None \<and> \<not> mesh_obtainable e (config s) \<longrightarrow>
      (\<exists>x. fst (Initialise e s) = Inl x))"
proof (intro conjI impI)
  assume r: "fst (Initialise e s) = Inr ()"
  have "fst (obtain_mesh e s) = Inr ()"
  proof (cases "fst (obtain_mesh e s)")
    case (Inl x)
    then show ?thesis using Initialise_failure [of e s x] r by simp
  next
    case (Inr u)
    then show ?thesis by simp
  qed
  note ok = Initialise_success [OF this]
  show "mCurrentTime (snd (Initialise e s)) = 0" using ok by simp
  show "mSolution (snd (Initialise e s)) = None" using ok by simp
  show "mpCardiacTissue (snd (Initialise e s)) = Some (next_addr s)" using ok by simp
  show "released (snd (Initialise e s)) =
        released s @ (case mpCardiacTissue s of None \<Rightarrow> [] | Some a \<Rightarrow> [a])
                   @ (case mSolution s of None \<Rightarrow> [] | Some v \<Rightarrow> [v])" using ok by simp
  show "mpMesh (snd (Initialise e s)) \<noteq> None" using ok by simp
next
  assume "mpMesh s \<noteq> None"
  then have "fst (obtain_mesh e s) = Inr ()" by (simp add: obtain_mesh_supplied)
  then show "fst (Initialise e s) = Inr ()" using Initialise_success by blast
next
  assume "mpMesh s = None \<and> \<not> mesh_obtainable e (config s)"
  then obtain x where "fst (obtain_mesh e s) = Inl x" using obtain_mesh_fails by blast
  then show "\<exists>x. fst (Initialise e s) = Inl x" using Initialise_failure by blast
qed

lemma obtain_mesh_exception:
  assumes "mpMesh s = None" and "fst (obtain_mesh e s) = Inl (Exception msg)"
  shows "snd (obtain_mesh e s) = s\<lparr>mpMesh := Some new_mesh\<rparr>"
    and "\<not> mesh_obtainable e (config s)"
  using assms
  by (auto simp: obtain_mesh_def CreateMeshFromHeartConfig_def Let_def mesh_obtainable_def
        split: if_splits sum.splits)

lemma Initialise_keeps_mesh:
  "mpMesh s = Some m \<Longrightarrow> mpMesh (snd (Initialise e s)) = Some m"
  by (simp add: Initialise_def obtain_mesh_def Let_def alloc_def split: option.split)

text \<open>
  C7. A call of \<^verbatim>\<open>Initialise\<close> that returns leaves the current time 0 and no held
  solution, and has destroyed the tissue held before and built a new one. The claim that
  the call fails if no mesh was supplied and none can be obtained from the configuration
  does not hold of a second call that follows a failed one. When the first call throws
  "No mesh given", \<^verbatim>\<open>CreateMeshFromHeartConfig\<close> has already set the mesh pointer,
  to a mesh that was never constructed, and the handler does not reset it: the state the
  call leaves differs from the one before only in that pointer. No mesh has been supplied
  and none can be obtained, and yet the second call finds a mesh, does not try the
  configuration again and returns normally, with the unconstructed mesh for the tissue.
\<close>

theorem Initialise_after_failed_Initialise:
  assumes "mpMesh s = None" and "fst (Initialise e s) = Inl (Exception msg)"
  shows "snd (Initialise e s) = s\<lparr>mpMesh := Some new_mesh\<rparr> \<and>
         \<not> mesh_obtainable e (config (snd (Initialise e s))) \<and>
         fst (Initialise e (snd (Initialise e s))) = Inr () \<and>
         mpMesh (snd (Initialise e (snd (Initialise e s)))) = Some new_mesh \<and>
         mpCardiacTissue (snd (Initialise e (snd (Initialise e s)))) = Some (next_addr s)"
proof -
  have o: "fst (obtain_mesh e s) = Inl (Exception msg)"
  proof (cases "fst (obtain_mesh e s)")
    case (Inl x)
    then show ?thesis using Initialise_failure [of e s x] assms(2) by simp
  next
    case (Inr u)
    then show ?thesis using Initialise_success [of e s] assms(2) by simp
  qed
  note om = obtain_mesh_exception [OF assms(1) o]
  have st: "snd (Initialise e s) = s\<lparr>mpMesh := Some new_mesh\<rparr>"
    using o om(1) by (cases "obtain_mesh e s") (auto simp: Initialise_def)
  let ?s1 = "s\<lparr>mpMesh := Some new_mesh\<rparr>"
  have m1: "mpMesh ?s1 = Some new_mesh" by simp
  have "fst (obtain_mesh e ?s1) = Inr ()" by (simp add: obtain_mesh_supplied)
  note ok = Initialise_success [OF this]
  show ?thesis
    unfolding st using om(2) ok Initialise_keeps_mesh [OF m1, of e] by simp
qed

theorem Initialise_after_failed_Initialise_witness:
  "mpMesh unmeshed_problem = None \<and>
   \<not> mesh_obtainable unreadable_env (config unmeshed_problem) \<and>
   Initialise unreadable_env unmeshed_problem =
     (Inl (No_mesh_given ''Could not open data file''),
      unmeshed_problem\<lparr>mpMesh := Some new_mesh\<rparr>) \<and>
   fst (Initialise unreadable_env (snd (Initialise unreadable_env unmeshed_problem))) = Inr () \<and>
   mpMesh (snd (Initialise unreadable_env (snd (Initialise unreadable_env unmeshed_problem))))
     = Some new_mesh \<and>
   NumNodes new_mesh = 0"
proof -
  have a: "mpMesh unmeshed_problem = None" by (simp add: unmeshed_problem_def)
  have b: "\<not> mesh_obtainable unreadable_env (config unmeshed_problem)"
    by (simp add: mesh_obtainable_def unmeshed_problem_def unreadable_env_def example_config_def)
  have c: "Initialise unreadable_env unmeshed_problem =
     (Inl (No_mesh_given ''Could not open data file''),
      unmeshed_problem\<lparr>mpMesh := Some new_mesh\<rparr>)"
    by (simp add: Initialise_def obtain_mesh_def CreateMeshFromHeartConfig_def Let_def
          unmeshed_problem_def unreadable_env_def example_config_def)
  have d: "fst (Initialise unreadable_env unmeshed_problem)
             = Inl (Exception (''No mesh given: define it in XML parameters file or call SetMesh()''
                                 @ [CHR 0x0A] @ ''Could not open data file''))"
    by (simp add: c No_mesh_given_def)
  note th = Initialise_after_failed_Initialise [OF a d]
  show ?thesis
    using a b c th by (simp add: new_mesh_def)
qed
section \<open>Claims on the extra variables\<close>

lemma split_variable_plain:
  "find_str ''__IDX__'' v = None \<Longrightarrow> split_variable v = Inr (v, 0)"
  by (simp add: split_variable_def)

lemma split_variable_suffix:
  "find_str ''__IDX__'' v = Some pos \<Longrightarrow> split_variable v = Inr (name, idx) \<Longrightarrow>
   name = take pos v \<and> (\<exists>i. stoi (drop (pos + 7) v) = Inr i \<and> idx = nat (i mod 2 ^ 64))"
  by (auto simp: split_variable_def split: sum.splits)

text \<open>
  C8. When \<^verbatim>\<open>WriteExtraVariablesOneStep\<close> returns, it has put one vector per requested
  variable under the variable's column id. A name without \<^verbatim>\<open>__IDX__\<close> is read from
  cell model 0 under the whole name; a name with it is read under the text before it from
  the cell model the number after it gives, which is one of 0, 1 and 2 as soon as a
  locally owned node lies outside the bath. At every locally owned node the vector holds
  0 if the node's region is a bath region and the cell model's value of the variable at
  the current time otherwise.
\<close>

theorem WriteExtraVariablesOneStep_values:
  assumes "fst (WriteExtraVariablesOneStep e m s) = Inr ()" and "mpWriter s = Some w"
    and "local_hi m \<le> NumNodes m"
  shows "\<exists>ds. mpWriter (snd (WriteExtraVariablesOneStep e m s)) =
                Some (w\<lparr>w_pending := w_pending w @ zip (mExtraVariablesId s) ds\<rparr>) \<and>
              length ds = length (mExtraVariablesId s) \<and>
              (\<forall>k < length (mExtraVariablesId s). \<exists>name idx.
                 split_variable (OutputVariables (config s) ! k) = Inr (name, idx) \<and>
                 (find_str ''__IDX__'' (OutputVariables (config s) ! k) = None \<longrightarrow>
                    name = OutputVariables (config s) ! k \<and> idx = 0) \<and>
                 (\<forall>pos. find_str ''__IDX__'' (OutputVariables (config s) ! k) = Some pos \<longrightarrow>
                    name = take pos (OutputVariables (config s) ! k) \<and>
                    (\<exists>i. stoi (drop (pos + 7) (OutputVariables (config s) ! k)) = Inr i \<and>
                         idx = nat (i mod 2 ^ 64))) \<and>
                 (\<forall>node. local_lo m \<le> node \<and> node < local_hi m \<longrightarrow>
                    ds ! k ! node =
                      (if IsRegionBath e (node_region m node) then 0
                       else cell_variable e idx node name (mCurrentTime s)) \<and>
                    (\<not> IsRegionBath e (node_region m node) \<longrightarrow> idx < 3)))"
proof (cases "mExtraVariablesId s = []")
  case True
  then show ?thesis
    using assms(2) by (simp add: WriteExtraVariablesOneStep_def)
next
  case False
  let ?vars = "OutputVariables (config s)"
  let ?ids = "mExtraVariablesId s"
  have len: "length ?vars = length ?ids"
    using assms(1) False by (auto simp: WriteExtraVariablesOneStep_def Let_def split: if_splits)
  have eq: "WriteExtraVariablesOneStep e m s = write_variables e m (zip ?vars ?ids) s"
    using False len by (simp add: WriteExtraVariablesOneStep_def Let_def)
  have run: "write_variables e m (zip ?vars ?ids) s =
               (Inr (), snd (WriteExtraVariablesOneStep e m s))"
    using assms(1) unfolding eq by (cases "write_variables e m (zip ?vars ?ids) s") simp
  obtain ds where ds:
      "mpWriter (snd (WriteExtraVariablesOneStep e m s)) =
         Some (w\<lparr>w_pending := w_pending w @ zip (map snd (zip ?vars ?ids)) ds\<rparr>)"
      "length ds = length (zip ?vars ?ids)"
      "\<forall>k < length (zip ?vars ?ids). \<exists>name idx.
           split_variable (fst (zip ?vars ?ids ! k)) = Inr (name, idx) \<and>
           gather e m (mCurrentTime s) name idx [local_lo m ..< local_hi m]
             (map (factory_fill e) [0 ..< NumNodes m]) = Inr (ds ! k)"
    using write_variables_pending [OF run assms(2)] by blast
  have "\<forall>k < length ?ids. \<exists>name idx.
          split_variable (?vars ! k) = Inr (name, idx) \<and>
          (find_str ''__IDX__'' (?vars ! k) = None \<longrightarrow> name = ?vars ! k \<and> idx = 0) \<and>
          (\<forall>pos. find_str ''__IDX__'' (?vars ! k) = Some pos \<longrightarrow>
             name = take pos (?vars ! k) \<and>
             (\<exists>i. stoi (drop (pos + 7) (?vars ! k)) = Inr i \<and> idx = nat (i mod 2 ^ 64))) \<and>
          (\<forall>node. local_lo m \<le> node \<and> node < local_hi m \<longrightarrow>
             ds ! k ! node =
               (if IsRegionBath e (node_region m node) then 0
                else cell_variable e idx node name (mCurrentTime s)) \<and>
             (\<not> IsRegionBath e (node_region m node) \<longrightarrow> idx < 3))"
  proof (intro allI impI)
    fix k assume k: "k < length ?ids"
    then have kz: "k < length (zip ?vars ?ids)" using len by simp
    have fz: "fst (zip ?vars ?ids ! k) = ?vars ! k" using k len by simp
    obtain name idx where sp: "split_variable (?vars ! k) = Inr (name, idx)"
      and g: "gather e m (mCurrentTime s) name idx [local_lo m ..< local_hi m]
                (map (factory_fill e) [0 ..< NumNodes m]) = Inr (ds ! k)"
      using ds(3) [rule_format, OF kz] unfolding fz by blast
    note r = gather_result [OF g]
    have plain: "find_str ''__IDX__'' (?vars ! k) = None \<longrightarrow> name = ?vars ! k \<and> idx = 0"
      using sp split_variable_plain [of "?vars ! k"] by auto
    have suffix: "\<forall>pos. find_str ''__IDX__'' (?vars ! k) = Some pos \<longrightarrow>
             name = take pos (?vars ! k) \<and>
             (\<exists>i. stoi (drop (pos + 7) (?vars ! k)) = Inr i \<and> idx = nat (i mod 2 ^ 64))"
      using sp split_variable_suffix by blast
    have nodes: "\<forall>node. local_lo m \<le> node \<and> node < local_hi m \<longrightarrow>
             ds ! k ! node =
               (if IsRegionBath e (node_region m node) then 0
                else cell_variable e idx node name (mCurrentTime s)) \<and>
             (\<not> IsRegionBath e (node_region m node) \<longrightarrow> idx < 3)"
    proof (intro allI impI)
      fix node assume n: "local_lo m \<le> node \<and> node < local_hi m"
      then have a: "node < length (map (factory_fill e) [0 ..< NumNodes m])"
        using assms(3) by simp
      have b: "node \<in> set [local_lo m ..< local_hi m]" using n by simp
      have "ds ! k ! node =
              (if node \<in> set [local_lo m ..< local_hi m]
               then (if IsRegionBath e (node_region m node) then 0
                     else cell_variable e idx node name (mCurrentTime s))
               else map (factory_fill e) [0 ..< NumNodes m] ! node)"
        using r a by blast
      then have v: "ds ! k ! node =
               (if IsRegionBath e (node_region m node) then 0
                else cell_variable e idx node name (mCurrentTime s))"
        using b by simp
      have "\<not> IsRegionBath e (node_region m node) \<longrightarrow> idx < 3"
        using r b by blast
      then show "ds ! k ! node =
               (if IsRegionBath e (node_region m node) then 0
                else cell_variable e idx node name (mCurrentTime s)) \<and>
             (\<not> IsRegionBath e (node_region m node) \<longrightarrow> idx < 3)"
        using v by simp
    qed
    show "\<exists>name idx.
          split_variable (?vars ! k) = Inr (name, idx) \<and>
          (find_str ''__IDX__'' (?vars ! k) = None \<longrightarrow> name = ?vars ! k \<and> idx = 0) \<and>
          (\<forall>pos. find_str ''__IDX__'' (?vars ! k) = Some pos \<longrightarrow>
             name = take pos (?vars ! k) \<and>
             (\<exists>i. stoi (drop (pos + 7) (?vars ! k)) = Inr i \<and> idx = nat (i mod 2 ^ 64))) \<and>
          (\<forall>node. local_lo m \<le> node \<and> node < local_hi m \<longrightarrow>
             ds ! k ! node =
               (if IsRegionBath e (node_region m node) then 0
                else cell_variable e idx node name (mCurrentTime s)) \<and>
             (\<not> IsRegionBath e (node_region m node) \<longrightarrow> idx < 3))"
      by (intro exI [of _ name] exI [of _ idx] conjI sp plain suffix nodes)
  qed
  note body = this
  have m: "map snd (zip ?vars ?ids) = ?ids" using len by simp
  have l: "length ds = length ?ids" using ds(2) len by simp
  have w': "mpWriter (snd (WriteExtraVariablesOneStep e m s)) =
              Some (w\<lparr>w_pending := w_pending w @ zip ?ids ds\<rparr>)"
    using ds(1) unfolding m .
  show ?thesis
    by (rule exI [of _ ds]) (intro conjI w' l body)
qed

theorem WriteExtraVariablesOneStep_values_witness:
  "fst (WriteExtraVariablesOneStep example_env example_mesh extra_variables_problem) = Inr () \<and>
   mpWriter extra_variables_problem = Some example_writer \<and>
   local_hi example_mesh \<le> NumNodes example_mesh \<and>
   (\<exists>ds. mpWriter (snd (WriteExtraVariablesOneStep example_env example_mesh
                          extra_variables_problem)) =
           Some (example_writer\<lparr>w_pending := w_pending example_writer @ zip [1, 2] ds\<rparr>) \<and>
         length ds = 2 \<and> ds ! 0 ! 0 = 5 \<and> ds ! 0 ! 1 = 0 \<and> ds ! 1 ! 0 = 25 \<and> ds ! 1 ! 1 = 0)"
proof -
  let ?s = extra_variables_problem
  have sp0: "split_variable ''Ca'' = Inr (''Ca'', 0)"
    by (simp add: split_variable_def)
  have sp1: "split_variable ''Ca__IDX__2'' = Inr (''Ca'', 2)"
    by (simp add: split_variable_def stoi_def isspace_def isdigit_def digits_value_def)
  have ids: "mExtraVariablesId ?s = [1, 2]"
    and vars: "OutputVariables (config ?s) = [''Ca'', ''Ca__IDX__2'']"
    and t: "mCurrentTime ?s = 3"
    and h2: "mpWriter ?s = Some example_writer"
    by (simp_all add: extra_variables_problem_def example_config_def)
  have lo: "local_lo example_mesh = 0" and hi: "local_hi example_mesh = 2"
    and h3: "local_hi example_mesh \<le> NumNodes example_mesh"
    by (simp_all add: example_mesh_def)
  have "fst (write_variables example_env example_mesh [(''Ca'', 1), (''Ca__IDX__2'', 2)] ?s)
          = Inr ()"
    using h2 sp0 sp1 by (intro write_variables_ok) simp_all
  then have h1: "fst (WriteExtraVariablesOneStep example_env example_mesh ?s) = Inr ()"
    by (simp add: WriteExtraVariablesOneStep_def ids vars del: write_variables.simps)
  from WriteExtraVariablesOneStep_values [OF h1 h2 h3] obtain ds where
    w: "mpWriter (snd (WriteExtraVariablesOneStep example_env example_mesh ?s)) =
          Some (example_writer\<lparr>w_pending := w_pending example_writer
                                   @ zip (mExtraVariablesId ?s) ds\<rparr>)"
    and l: "length ds = length (mExtraVariablesId ?s)"
    and all: "\<forall>k < length (mExtraVariablesId ?s). \<exists>name idx.
                 split_variable (OutputVariables (config ?s) ! k) = Inr (name, idx) \<and>
                 (find_str ''__IDX__'' (OutputVariables (config ?s) ! k) = None \<longrightarrow>
                    name = OutputVariables (config ?s) ! k \<and> idx = 0) \<and>
                 (\<forall>pos. find_str ''__IDX__'' (OutputVariables (config ?s) ! k) = Some pos \<longrightarrow>
                    name = take pos (OutputVariables (config ?s) ! k) \<and>
                    (\<exists>i. stoi (drop (pos + 7) (OutputVariables (config ?s) ! k)) = Inr i \<and>
                         idx = nat (i mod 2 ^ 64))) \<and>
                 (\<forall>node. local_lo example_mesh \<le> node \<and> node < local_hi example_mesh \<longrightarrow>
                    ds ! k ! node =
                      (if IsRegionBath example_env (node_region example_mesh node) then 0
                       else cell_variable example_env idx node name (mCurrentTime ?s)) \<and>
                    (\<not> IsRegionBath example_env (node_region example_mesh node) \<longrightarrow> idx < 3))"
    by (elim exE conjE)
  have n0: "local_lo example_mesh \<le> 0 \<and> 0 < local_hi example_mesh"
    and n1: "local_lo example_mesh \<le> 1 \<and> 1 < local_hi example_mesh"
    by (simp_all add: lo hi)
  have k0: "0 < length (mExtraVariablesId ?s)" by (simp add: ids)
  from all [rule_format, OF k0] obtain name0 idx0 where
    f0: "split_variable (OutputVariables (config ?s) ! 0) = Inr (name0, idx0) \<and>
                 (find_str ''__IDX__'' (OutputVariables (config ?s) ! 0) = None \<longrightarrow>
                    name0 = OutputVariables (config ?s) ! 0 \<and> idx0 = 0) \<and>
                 (\<forall>pos. find_str ''__IDX__'' (OutputVariables (config ?s) ! 0) = Some pos \<longrightarrow>
                    name0 = take pos (OutputVariables (config ?s) ! 0) \<and>
                    (\<exists>i. stoi (drop (pos + 7) (OutputVariables (config ?s) ! 0)) = Inr i \<and>
                         idx0 = nat (i mod 2 ^ 64))) \<and>
                 (\<forall>node. local_lo example_mesh \<le> node \<and> node < local_hi example_mesh \<longrightarrow>
                    ds ! 0 ! node =
                      (if IsRegionBath example_env (node_region example_mesh node) then 0
                       else cell_variable example_env idx0 node name0 (mCurrentTime ?s)) \<and>
                    (\<not> IsRegionBath example_env (node_region example_mesh node) \<longrightarrow> idx0 < 3))"
    by (elim exE)
  note s0 = f0 [THEN conjunct1]
  note v0 = f0 [THEN conjunct2, THEN conjunct2, THEN conjunct2]
  have k1: "1 < length (mExtraVariablesId ?s)" by (simp add: ids)
  from all [rule_format, OF k1] obtain name1 idx1 where
    f1: "split_variable (OutputVariables (config ?s) ! 1) = Inr (name1, idx1) \<and>
                 (find_str ''__IDX__'' (OutputVariables (config ?s) ! 1) = None \<longrightarrow>
                    name1 = OutputVariables (config ?s) ! 1 \<and> idx1 = 0) \<and>
                 (\<forall>pos. find_str ''__IDX__'' (OutputVariables (config ?s) ! 1) = Some pos \<longrightarrow>
                    name1 = take pos (OutputVariables (config ?s) ! 1) \<and>
                    (\<exists>i. stoi (drop (pos + 7) (OutputVariables (config ?s) ! 1)) = Inr i \<and>
                         idx1 = nat (i mod 2 ^ 64))) \<and>
                 (\<forall>node. local_lo example_mesh \<le> node \<and> node < local_hi example_mesh \<longrightarrow>
                    ds ! 1 ! node =
                      (if IsRegionBath example_env (node_region example_mesh node) then 0
                       else cell_variable example_env idx1 node name1 (mCurrentTime ?s)) \<and>
                    (\<not> IsRegionBath example_env (node_region example_mesh node) \<longrightarrow> idx1 < 3))"
    by (elim exE)
  note s1 = f1 [THEN conjunct1]
  note v1 = f1 [THEN conjunct2, THEN conjunct2, THEN conjunct2]
  have i0: "idx0 = 0" using s0 by (simp add: vars sp0)
  have i1: "idx1 = 2" using s1 by (simp add: vars sp1)
  have "ds ! 0 ! 0 = 5" "ds ! 0 ! 1 = 0"
    using v0 [rule_format, OF n0] v0 [rule_format, OF n1]
    by (simp_all add: i0 example_env_def example_mesh_def)
  moreover have "ds ! 1 ! 0 = 25" "ds ! 1 ! 1 = 0"
    using v1 [rule_format, OF n0] v1 [rule_format, OF n1]
    by (simp_all add: i1 example_env_def example_mesh_def)
  moreover have "length ds = 2" using l by (simp add: ids)
  moreover have "mpWriter (snd (WriteExtraVariablesOneStep example_env example_mesh ?s)) =
          Some (example_writer\<lparr>w_pending := w_pending example_writer @ zip [1, 2] ds\<rparr>)"
    using w by (simp only: ids)
  ultimately show ?thesis
    using h1 h2 h3 by (intro conjI exI [of _ ds])
qed


section \<open>Claims on the rows of a fresh run\<close>

text \<open>
  C6. On a fresh run with output enabled that completes, the checkpoint file is new and
  holds the initial condition as its first row, at the starting time, followed by exactly
  one row per time step of the stepper; when steps were taken, the last row holds the
  solution the solver returned, which is the held solution. When the end time is the
  current time plus the printing interval (for a fresh run at time 0: the end time equals
  the printing interval) and no additional stopping time falls in between, the file has
  exactly 2 rows, and the second holds the vector the solver returned for the initial
  condition.
\<close>

theorem Solve_rows_of_fresh_run:
  assumes "mSolution s = None" and "mpWriter s = None" and "mPrintOutput s"
    and "fst (Solve e s) = Inr ()"
  shows "\<exists>m f first rest.
           mpMesh s = Some m \<and> h5_file (snd (Solve e s)) = Some f \<and>
           h5_rows f = first # rest \<and>
           (\<exists>extras. first = (mCurrentTime s,
               (0, fold (seed_node e) [local_lo m ..< local_hi m]
                     (map (factory_fill e) [0 ..< NumNodes m * PROBLEM_DIM e])) # extras)) \<and>
           map fst rest = TimeStepper (mCurrentTime s) (SimulationDuration (config s))
                            (PrintingTimeStep (config s)) (AdditionalStoppingTimes e) \<and>
           (rest \<noteq> [] \<longrightarrow>
              (\<exists>v extras. mSolution (snd (Solve e s)) = Some v \<and>
                 last rest = (last (map fst rest), (0, vec_data (snd (Solve e s)) v) # extras))) \<and>
           (SimulationDuration (config s) = mCurrentTime s + PrintingTimeStep (config s) \<and>
            (\<forall>x \<in> set (AdditionalStoppingTimes e).
               x \<le> mCurrentTime s \<or> SimulationDuration (config s) \<le> x) \<longrightarrow>
              length (h5_rows f) = 2 \<and>
              (\<exists>d extras.
                 solver_Solve e (mCurrentTime s) (SimulationDuration (config s))
                   (fold (seed_node e) [local_lo m ..< local_hi m]
                      (map (factory_fill e) [0 ..< NumNodes m * PROBLEM_DIM e])) = Inr d \<and>
                 rest = [(SimulationDuration (config s), (0, d) # extras)]))"
proof -
  obtain r s1 where prep: "Solve_prepare e s = (r, s1)" by (cases "Solve_prepare e s")
  obtain p where r: "r = Inr p"
    using assms(4) prep by (cases r) (simp_all add: Solve_def)
  obtain m pts ic where p: "p = (m, pts, ic)" by (cases p)
  let ?data = "fold (seed_node e) [local_lo m ..< local_hi m]
                 (map (factory_fill e) [0 ..< NumNodes m * PROBLEM_DIM e])"
  let ?pts = "TimeStepper (mCurrentTime s) (SimulationDuration (config s))
                (PrintingTimeStep (config s)) (AdditionalStoppingTimes e)"
  note fresh = Solve_prepare_fresh [OF prep [unfolded r p] assms(1-3)]
  have pre: "PreSolveChecks s = Inr ()" and mesh: "mpMesh s = Some m" and pts: "pts = ?pts"
    and k1: "writer_idle s1" "mPrintOutput s1" "mVoltageColumnId s1 = 0"
      "mCurrentTime s1 = mCurrentTime s" "vec_data s1 ic = ?data"
    using fresh by simp_all
  obtain n extras0 where
    f1: "h5_file s1 = Some \<lparr>h5_columns = [''V''], h5_fixed_dim = n,
                           h5_rows = [(mCurrentTime s, (0, ?data) # extras0)]\<rparr>"
    using fresh by blast
  let ?f1 = "\<lparr>h5_columns = [''V''], h5_fixed_dim = n,
              h5_rows = [(mCurrentTime s, (0, ?data) # extras0)]\<rparr>"
  let ?s2 = "configure_solver (start_modifiers ic s1)"
  have k2: "mPrintOutput ?s2" "writer_idle ?s2" "h5_file ?s2 = Some ?f1"
    "mVoltageColumnId ?s2 = 0" "mCurrentTime ?s2 = mCurrentTime s" "vec_data ?s2 ic = ?data"
    using k1 f1 by (simp_all add: writer_idle_def)
  obtain r3 s3 where loop: "Solve_loop e m (mCurrentTime s) pts ic ?s2 = (r3, s3)"
    by (cases "Solve_loop e m (mCurrentTime s) pts ic ?s2")
  have run: "Solve e s = (case r3 of Inl x \<Rightarrow> (Inl x, s3) | Inr u \<Rightarrow> (Inr (), Solve_finish s3))"
    using prep r p loop k1(4) by (simp add: Solve_def Solve_run_def Let_def split: sum.split)
  obtain ic' where r3: "r3 = Inr ic'" using assms(4) unfolding run by (cases r3) simp_all
  have res: "snd (Solve e s) = Solve_finish s3" unfolding run r3 by simp
  obtain new where
    n: "h5_file s3 = Some (?f1\<lparr>h5_rows := h5_rows ?f1 @ new\<rparr>)" "map fst new = pts"
      "pts \<noteq> [] \<longrightarrow> mSolution s3 = Some ic' \<and>
         (\<exists>extras. last new = (last pts, (mVoltageColumnId ?s2, vec_data s3 ic') # extras))"
    using Solve_loop_rows [OF loop [unfolded r3] k2(1-3)] by blast
  let ?f = "\<lparr>h5_columns = [''V''], h5_fixed_dim = n,
             h5_rows = (mCurrentTime s, (0, ?data) # extras0) # new\<rparr>"
  have fl: "h5_file (snd (Solve e s)) = Some ?f" using n(1) by (simp add: res)
  have lastrow: "new \<noteq> [] \<longrightarrow>
      (\<exists>v extras. mSolution (snd (Solve e s)) = Some v \<and>
         last new = (last (map fst new), (0, vec_data (snd (Solve e s)) v) # extras))"
    using n(2,3) k2(4) by (auto simp: res)
  have one: "SimulationDuration (config s) = mCurrentTime s + PrintingTimeStep (config s) \<and>
            (\<forall>x \<in> set (AdditionalStoppingTimes e).
               x \<le> mCurrentTime s \<or> SimulationDuration (config s) \<le> x) \<longrightarrow>
              length (h5_rows ?f) = 2 \<and>
              (\<exists>d extras.
                 solver_Solve e (mCurrentTime s) (SimulationDuration (config s)) ?data = Inr d \<and>
                 new = [(SimulationDuration (config s), (0, d) # extras)])"
  proof
    assume a: "SimulationDuration (config s) = mCurrentTime s + PrintingTimeStep (config s) \<and>
            (\<forall>x \<in> set (AdditionalStoppingTimes e).
               x \<le> mCurrentTime s \<or> SimulationDuration (config s) \<le> x)"
    have "mCurrentTime s < SimulationDuration (config s)"
      using pre by (rule PreSolveChecks_future)
    then have dt: "0 < PrintingTimeStep (config s)" using a by simp
    have e1: "SimulationDuration (config s) = mCurrentTime s + PrintingTimeStep (config s)"
      and stops: "\<forall>x \<in> set (AdditionalStoppingTimes e).
               x \<le> mCurrentTime s \<or> mCurrentTime s + PrintingTimeStep (config s) \<le> x"
      using a by auto
    have one_pt: "pts = [SimulationDuration (config s)]"
      unfolding pts e1 by (rule TimeStepper_one_step [OF dt stops])
    let ?end = "SimulationDuration (config s)"
    obtain r4 s4 where st: "Solve_step e m (mCurrentTime s) ?end ic ?s2 = (r4, s4)"
      by (cases "Solve_step e m (mCurrentTime s) ?end ic ?s2")
    have "r4 = Inr ic' \<and> s4 = s3"
      using loop [unfolded r3 one_pt] st by (cases r4) simp_all
    then have st': "Solve_step e m (mCurrentTime s) ?end ic ?s2 = (Inr ic', s3)"
      using st by simp
    obtain extras where
      row: "h5_file s3 = Some (?f1\<lparr>h5_rows := h5_rows ?f1 @
                                 [(?end, (mVoltageColumnId ?s2, vec_data s3 ic') # extras)]\<rparr>)"
      and sol: "solver_Solve e (mCurrentTime s) ?end (vec_data ?s2 ic) = Inr (vec_data s3 ic')"
      using Solve_step_rows [OF st' k2(1-3)] by blast
    have "new = [(?end, (0, vec_data s3 ic') # extras)]"
      using row n(1) k2(4) by simp
    then show "length (h5_rows ?f) = 2 \<and>
              (\<exists>d extras.
                 solver_Solve e (mCurrentTime s) ?end ?data = Inr d \<and>
                 new = [(?end, (0, d) # extras)])"
      using sol k2(6) by auto
  qed
  show ?thesis
    using mesh fl n(2) lastrow one unfolding pts
    by (intro exI [of _ m] exI [of _ ?f] exI [of _ "(mCurrentTime s, (0, ?data) # extras0)"]
          exI [of _ new]) auto
qed

lemma one_step_completes: "fst (Solve example_env one_step_problem) = Inr ()"
proof (rule Solve_ok_fresh [where m = example_mesh])
  show "PreSolveChecks one_step_problem = Inr ()"
    by (rule PreSolveChecks_unit_step [where n = 3])
       (simp_all add: one_step_problem_def example_problem_def example_config_def)
  show "\<forall>t0 t1 x. \<exists>d. solver_Solve example_env t0 t1 x = Inr d"
    by (simp add: example_env_def)
qed (simp_all add: one_step_problem_def example_problem_def)

lemma example_initial_data:
  "fold (seed_node example_env) [local_lo example_mesh ..< local_hi example_mesh]
     (map (factory_fill example_env) [0 ..< NumNodes example_mesh * PROBLEM_DIM example_env])
   = [- 80, - 81]"
proof -
  have up: "[0 ..< 2] = [0, Suc 0]" by (simp add: numeral_2_eq_2)
  show ?thesis
    by (simp add: example_mesh_def example_env_def up seed_node_def stripe_index_def)
qed

theorem Solve_rows_of_fresh_run_witness:
  "mSolution one_step_problem = None \<and> mpWriter one_step_problem = None \<and>
   mPrintOutput one_step_problem \<and> fst (Solve example_env one_step_problem) = Inr () \<and>
   SimulationDuration (config one_step_problem) =
     mCurrentTime one_step_problem + PrintingTimeStep (config one_step_problem) \<and>
   (\<exists>f extras0 extras1.
      h5_file (snd (Solve example_env one_step_problem)) = Some f \<and>
      h5_rows f = [(0, (0, [- 80, - 81]) # extras0), (3, (0, [- 79, - 80]) # extras1)])"
proof -
  let ?s = one_step_problem
  have h: "mSolution ?s = None" "mpWriter ?s = None" "mPrintOutput ?s"
    and mesh: "mpMesh ?s = Some example_mesh"
    and t: "mCurrentTime ?s = 0" and e: "SimulationDuration (config ?s) = 3"
    and dt: "PrintingTimeStep (config ?s) = 3"
    by (simp_all add: one_step_problem_def example_problem_def example_config_def)
  have stops: "AdditionalStoppingTimes example_env = []" by (simp add: example_env_def)
  from Solve_rows_of_fresh_run [OF h one_step_completes]
  obtain m f first rest where full:
    "mpMesh ?s = Some m \<and> h5_file (snd (Solve example_env ?s)) = Some f \<and>
     h5_rows f = first # rest \<and>
     (\<exists>extras. first = (mCurrentTime ?s,
               (0, fold (seed_node example_env) [local_lo m ..< local_hi m]
                     (map (factory_fill example_env) [0 ..< NumNodes m * PROBLEM_DIM example_env]))
                 # extras)) \<and>
     map fst rest = TimeStepper (mCurrentTime ?s) (SimulationDuration (config ?s))
                            (PrintingTimeStep (config ?s)) (AdditionalStoppingTimes example_env) \<and>
     (rest \<noteq> [] \<longrightarrow>
              (\<exists>v extras. mSolution (snd (Solve example_env ?s)) = Some v \<and>
                 last rest = (last (map fst rest),
                              (0, vec_data (snd (Solve example_env ?s)) v) # extras))) \<and>
     (SimulationDuration (config ?s) = mCurrentTime ?s + PrintingTimeStep (config ?s) \<and>
            (\<forall>x \<in> set (AdditionalStoppingTimes example_env).
               x \<le> mCurrentTime ?s \<or> SimulationDuration (config ?s) \<le> x) \<longrightarrow>
              length (h5_rows f) = 2 \<and>
              (\<exists>d extras.
                 solver_Solve example_env (mCurrentTime ?s) (SimulationDuration (config ?s))
                   (fold (seed_node example_env) [local_lo m ..< local_hi m]
                      (map (factory_fill example_env) [0 ..< NumNodes m * PROBLEM_DIM example_env]))
                   = Inr d \<and>
                 rest = [(SimulationDuration (config ?s), (0, d) # extras)]))"
    by (elim exE)
  note m = full [THEN conjunct1]
  note f = full [THEN conjunct2, THEN conjunct1]
  note rows = full [THEN conjunct2, THEN conjunct2, THEN conjunct1]
  note first = full [THEN conjunct2, THEN conjunct2, THEN conjunct2, THEN conjunct1]
  note one = full [THEN conjunct2, THEN conjunct2, THEN conjunct2, THEN conjunct2,
                   THEN conjunct2, THEN conjunct2]
  have mm: "m = example_mesh" using m mesh by simp
  obtain extras0 where first': "first = (0, (0, [- 80, - 81]) # extras0)"
    using first unfolding mm example_initial_data t by blast
  have "\<exists>d extras.
                 solver_Solve example_env 0 3 [- 80, - 81] = Inr d \<and>
                 rest = [(3, (0, d) # extras)]"
    using one unfolding mm example_initial_data t e dt stops by simp
  then obtain d extras1 where d: "solver_Solve example_env 0 3 [- 80, - 81] = Inr d"
    and rest: "rest = [(3, (0, d) # extras1)]" by blast
  have "d = [- 79, - 80]" using d by (simp add: example_env_def)
  then have "h5_rows f = [(0, (0, [- 80, - 81]) # extras0), (3, (0, [- 79, - 80]) # extras1)]"
    using rows first' rest by simp
  then show ?thesis
    using h one_step_completes f t e dt by auto
qed

section \<open>Claims on failures\<close>

text \<open>
  C4. Let \<^verbatim>\<open>Solve\<close> reach its loop, let the passes over the time points \<open>pre\<close>
  complete, and let the solver throw in the next pass. Then \<^verbatim>\<open>Solve\<close> ends with the
  solver's exception, unchanged; the solver has been released and its pointer cleared;
  and with output enabled the writer has been closed and the post-processing and
  conversions that are configured have run, as the last events of the run. Moreover a
  failure of the preparation or of the loop is always the result of \<^verbatim>\<open>Solve\<close>: no
  failure returns normally.
\<close>

theorem Solve_solver_failure:
  "(Solve_prepare e s = (Inr (m, pre @ nt # post, ic), s0) \<and>
    Solve_loop e m (mCurrentTime s0) pre ic (configure_solver (start_modifiers ic s0))
      = (Inr ic1, s1) \<and>
    solver_Solve e (last (mCurrentTime s0 # pre)) nt (vec_data s1 ic1) = Inl msg \<longrightarrow>
      fst (Solve e s) = Inl (Exception msg) \<and>
      mpSolver (snd (Solve e s)) = None \<and>
      (\<forall>a. mpSolver s1 = Some a \<longrightarrow> a \<in> set (released (snd (Solve e s)))) \<and>
      (mPrintOutput s1 \<longrightarrow>
         mpWriter (snd (Solve e s)) = None \<and>
         trace (snd (Solve e s)) =
           trace s1 @ [SolverSetTimes (last (mCurrentTime s0 # pre)) nt,
                       SolverSetInitialCondition ic1,
                       AtBeginningOfTimestep (last (mCurrentTime s0 # pre))]
                    @ (if mpWriter s1 = None then [] else [CloseWriter])
                    @ post_processing_events s1)) \<and>
   (Solve_prepare e s = (Inl x, s0) \<longrightarrow> Solve e s = (Inl x, s0)) \<and>
   (Solve_prepare e s = (Inr (m, pts, ic), s0) \<and>
    Solve_loop e m (mCurrentTime s0) pts ic (configure_solver (start_modifiers ic s0))
      = (Inl x, s1) \<longrightarrow> Solve e s = (Inl x, s1))"
proof (intro conjI impI)
  assume a: "Solve_prepare e s = (Inr (m, pre @ nt # post, ic), s0) \<and>
    Solve_loop e m (mCurrentTime s0) pre ic (configure_solver (start_modifiers ic s0))
      = (Inr ic1, s1) \<and>
    solver_Solve e (last (mCurrentTime s0 # pre)) nt (vec_data s1 ic1) = Inl msg"
  let ?t = "last (mCurrentTime s0 # pre)"
  let ?s2 = "emit (AtBeginningOfTimestep ?t)
               (emit (SolverSetInitialCondition ic1) (emit (SolverSetTimes ?t nt) s1))"
  have loop: "Solve_loop e m (mCurrentTime s0) (pre @ nt # post) ic
                (configure_solver (start_modifiers ic s0))
              = (Inl (Exception msg), solver_failure_handler ic1 ?s2)"
    using a by (intro Solve_loop_failure) simp_all
  have res: "Solve e s = (Inl (Exception msg), solver_failure_handler ic1 ?s2)"
    using a loop by (simp add: Solve_def Solve_run_def Let_def del: last.simps)
  have pp: "post_processing_events ?s2 = post_processing_events s1"
    by (rule post_processing_events_cong) simp_all
  show "fst (Solve e s) = Inl (Exception msg)" by (simp add: res)
  show "mpSolver (snd (Solve e s)) = None"
    by (simp add: res solver_failure_handler_heap del: last.simps)
  show "\<forall>a. mpSolver s1 = Some a \<longrightarrow> a \<in> set (released (snd (Solve e s)))"
    by (simp add: res solver_failure_handler_heap del: last.simps)
  assume p: "mPrintOutput s1"
  show "mpWriter (snd (Solve e s)) = None"
    using p by (simp add: res solver_failure_handler_writer del: last.simps)
  show "trace (snd (Solve e s)) =
           trace s1 @ [SolverSetTimes ?t nt, SolverSetInitialCondition ic1,
                       AtBeginningOfTimestep ?t]
                    @ (if mpWriter s1 = None then [] else [CloseWriter])
                    @ post_processing_events s1"
    using p by (simp add: res solver_failure_handler_trace pp del: last.simps)
next
  assume "Solve_prepare e s = (Inl x, s0)"
  then show "Solve e s = (Inl x, s0)" by (simp add: Solve_def)
next
  assume "Solve_prepare e s = (Inr (m, pts, ic), s0) \<and>
    Solve_loop e m (mCurrentTime s0) pts ic (configure_solver (start_modifiers ic s0))
      = (Inl x, s1)"
  then show "Solve e s = (Inl x, s1)" by (simp add: Solve_def Solve_run_def Let_def)
qed

theorem Solve_solver_failure_witness:
  "fst (Solve failing_env one_step_problem) = Inl (Exception ''solver diverged'') \<and>
   mpSolver (snd (Solve failing_env one_step_problem)) = None \<and>
   mpWriter (snd (Solve failing_env one_step_problem)) = None \<and>
   (\<exists>before. trace (snd (Solve failing_env one_step_problem)) =
      before @ [CloseWriter, PostProcessingFiles, ConvertMeshalyzer])"
proof -
  let ?s = one_step_problem
  let ?e = failing_env
  have pre: "PreSolveChecks ?s = Inr ()"
    by (rule PreSolveChecks_unit_step [where n = 3])
       (simp_all add: one_step_problem_def example_problem_def example_config_def)
  have h: "mpMesh ?s = Some example_mesh" "mpSolver ?s = None" "mSolution ?s = None"
    "mpWriter ?s = None" "mExtraVariablesId ?s = []" "mPrintOutput ?s"
    by (simp_all add: one_step_problem_def example_problem_def)
  have pts: "TimeStepper (mCurrentTime ?s) (SimulationDuration (config ?s))
               (PrintingTimeStep (config ?s)) (AdditionalStoppingTimes ?e) = [] @ 3 # []"
    using TimeStepper_one_step [of 3 "[]" 0]
    by (simp add: one_step_problem_def example_problem_def example_config_def failing_env_def
          example_env_def)
  obtain ic s0 where prep: "Solve_prepare ?e ?s = (Inr (example_mesh, [] @ 3 # [], ic), s0)"
    and k: "mPrintOutput s0 \<longrightarrow> mpWriter s0 \<noteq> None" "mPrintOutput s0 = mPrintOutput ?s"
      "post_processing_events s0 = post_processing_events ?s"
    using Solve_prepare_ok_fresh [OF pre h(1-5), of ?e] unfolding pts by blast
  let ?s1 = "configure_solver (start_modifiers ic s0)"
  have loop: "Solve_loop ?e example_mesh (mCurrentTime s0) [] ic ?s1 = (Inr ic, ?s1)" by simp
  have fail: "solver_Solve ?e (last (mCurrentTime s0 # [])) 3 (vec_data ?s1 ic)
                = Inl ''solver diverged''"
    by (simp add: failing_env_def)
  have p1: "mPrintOutput ?s1" and w1: "mpWriter ?s1 \<noteq> None"
    using k h(6) by simp_all
  have "post_processing_events ?s1 = post_processing_events s0"
    by (rule post_processing_events_cong) simp_all
  then have pp: "post_processing_events ?s1 = [PostProcessingFiles, ConvertMeshalyzer]"
    using k(3)
    by (simp add: post_processing_events_def one_step_problem_def example_problem_def
          example_config_def)
  note th = Solve_solver_failure [of ?e ?s example_mesh "[]" 3 "[]" ic s0 ic ?s1
      "''solver diverged''", THEN conjunct1, rule_format, OF conjI [OF prep conjI [OF loop fail]]]
  have r1: "fst (Solve ?e ?s) = Inl (Exception ''solver diverged'')"
    and r2: "mpSolver (snd (Solve ?e ?s)) = None"
    using th by simp_all
  have r3: "mpWriter (snd (Solve ?e ?s)) = None"
    and r4: "trace (snd (Solve ?e ?s)) =
           trace ?s1 @ [SolverSetTimes (last (mCurrentTime s0 # [])) 3,
                       SolverSetInitialCondition ic,
                       AtBeginningOfTimestep (last (mCurrentTime s0 # []))]
                    @ (if mpWriter ?s1 = None then [] else [CloseWriter])
                    @ post_processing_events ?s1"
    using th p1 by simp_all
  have "trace (snd (Solve ?e ?s)) =
          (trace ?s1 @ [SolverSetTimes (mCurrentTime s0) 3, SolverSetInitialCondition ic,
                        AtBeginningOfTimestep (mCurrentTime s0)])
          @ [CloseWriter, PostProcessingFiles, ConvertMeshalyzer]"
    using r4 w1 pp by simp
  then show ?thesis using r1 r2 r3 by blast
qed

section \<open>Claims on releasing vectors\<close>

text \<open>
  C1. Every allocation is released at most once during \<^verbatim>\<open>Solve\<close>: if no address has
  been released twice before \<^verbatim>\<open>Solve\<close> and the held solution is live, the same holds
  after \<^verbatim>\<open>Solve\<close>, however it ends. With \<open>ic\<close> the initial condition the preparation
  of \<^verbatim>\<open>Solve\<close> ends with: when the solver fails in the first pass, \<^verbatim>\<open>Solve\<close>
  throws that failure and has released \<open>ic\<close> once if it was synthesized and not at all
  if it is the held solution; when \<^verbatim>\<open>Solve\<close> completes, \<open>ic\<close> has been released
  exactly once and the held solution is another vector, not released; and when the
  preparation fails on a resumed run, the writer initialisation included, the held
  solution is still held and not released. For every pass of the loop, at whose head the
  initial condition and the solver are live and the held solution is null or the initial
  condition: if the solver fails, the pass throws, the held solution stays, and the
  initial condition has been released once if it is not the held solution and not at all
  if it is; if the solver returns, the previous initial condition has been released
  exactly once and the held solution is the new vector, a different allocation, which is
  the initial condition of the next pass. In the output block, when the writer
  initialisation throws, the block throws, no address has been released twice, and the
  initial condition has been released once if it is not the held solution and not at all
  if it is.
\<close>

theorem Solve_releases_at_most_once:
  "(heap_ok s \<longrightarrow> heap_ok (snd (Solve e s))) \<and>
   (heap_ok s \<and> fst (Solve_prepare e s) = Inr (m, nt # rest, ic) \<longrightarrow>
      (\<forall>msg. solver_Solve e (mCurrentTime s) nt (vec_data (snd (Solve_prepare e s)) ic) = Inl msg \<longrightarrow>
         fst (Solve e s) = Inl (Exception msg) \<and>
         count_list (released (snd (Solve e s))) ic = (if mSolution s = Some ic then 0 else 1)) \<and>
      (fst (Solve e s) = Inr () \<longrightarrow>
         count_list (released (snd (Solve e s))) ic = 1 \<and>
         (\<exists>v. mSolution (snd (Solve e s)) = Some v \<and> v \<noteq> ic \<and>
              v \<notin> set (released (snd (Solve e s)))))) \<and>
   (\<forall>v x. heap_ok s \<and> mSolution s = Some v \<and> fst (Solve_prepare e s) = Inl x \<longrightarrow>
      fst (Solve e s) = Inl x \<and> mSolution (snd (Solve e s)) = Some v \<and>
      v \<notin> set (released (snd (Solve e s)))) \<and>
   (loop_inv ic s \<longrightarrow>
      (\<forall>msg. solver_Solve e t nt (vec_data s ic) = Inl msg \<longrightarrow>
         fst (Solve_step e m t nt ic s) = Inl (Exception msg) \<and>
         heap_ok (snd (Solve_step e m t nt ic s)) \<and>
         mSolution (snd (Solve_step e m t nt ic s)) = mSolution s \<and>
         count_list (released (snd (Solve_step e m t nt ic s))) ic =
           (if mSolution s = Some ic then 0 else 1)) \<and>
      (\<forall>d. solver_Solve e t nt (vec_data s ic) = Inr d \<longrightarrow>
         count_list (released (snd (Solve_step e m t nt ic s))) ic = 1 \<and>
         mSolution (snd (Solve_step e m t nt ic s)) = Some (next_addr s) \<and>
         next_addr s \<noteq> ic \<and>
         heap_ok (snd (Solve_step e m t nt ic s)) \<and>
         (\<forall>ic'. fst (Solve_step e m t nt ic s) = Inr ic' \<longrightarrow>
            ic' = next_addr s \<and> loop_inv ic' (snd (Solve_step e m t nt ic s))))) \<and>
   (\<forall>msg. mPrintOutput s \<and> fst (InitialiseWriter e m s) = Inl (Exception msg) \<and>
      distinct (released s) \<and> ic \<notin> set (released s) \<and>
      (\<forall>sv. mpSolver s = Some sv \<longrightarrow> sv \<notin> set (released s) \<and> sv \<noteq> ic) \<longrightarrow>
      fst (open_output e m ic s) = Inl (Exception msg) \<and>
      distinct (released (snd (open_output e m ic s))) \<and>
      mSolution (snd (open_output e m ic s)) = mSolution s \<and>
      count_list (released (snd (open_output e m ic s))) ic =
        (if mSolution s = Some ic then 0 else 1))"
proof (intro conjI)
  show "heap_ok s \<longrightarrow> heap_ok (snd (Solve e s))" using Solve_inv by blast
next
  show "heap_ok s \<and> fst (Solve_prepare e s) = Inr (m, nt # rest, ic) \<longrightarrow>
      (\<forall>msg. solver_Solve e (mCurrentTime s) nt (vec_data (snd (Solve_prepare e s)) ic) = Inl msg \<longrightarrow>
         fst (Solve e s) = Inl (Exception msg) \<and>
         count_list (released (snd (Solve e s))) ic = (if mSolution s = Some ic then 0 else 1)) \<and>
      (fst (Solve e s) = Inr () \<longrightarrow>
         count_list (released (snd (Solve e s))) ic = 1 \<and>
         (\<exists>v. mSolution (snd (Solve e s)) = Some v \<and> v \<noteq> ic \<and>
              v \<notin> set (released (snd (Solve e s)))))"
  proof (intro impI)
    assume a: "heap_ok s \<and> fst (Solve_prepare e s) = Inr (m, nt # rest, ic)"
    then have h: "heap_ok s" by simp
    obtain s1 where prep: "Solve_prepare e s = (Inr (m, nt # rest, ic), s1)"
      using a by (cases "Solve_prepare e s") auto
    have s1: "snd (Solve_prepare e s) = s1" by (simp add: prep)
    have f: "\<forall>msg. solver_Solve e (mCurrentTime s) nt (vec_data s1 ic) = Inl msg \<longrightarrow>
         fst (Solve e s) = Inl (Exception msg) \<and>
         count_list (released (snd (Solve e s))) ic = (if mSolution s = Some ic then 0 else 1)"
      using Solve_first_pass_failure [OF prep] h by blast
    have c: "fst (Solve e s) = Inr () \<longrightarrow>
         count_list (released (snd (Solve e s))) ic = 1 \<and>
         (\<exists>v. mSolution (snd (Solve e s)) = Some v \<and> v \<noteq> ic \<and>
              v \<notin> set (released (snd (Solve e s))))"
      using Solve_completed_release [OF h prep] by blast
    show "(\<forall>msg. solver_Solve e (mCurrentTime s) nt (vec_data (snd (Solve_prepare e s)) ic) = Inl msg \<longrightarrow>
         fst (Solve e s) = Inl (Exception msg) \<and>
         count_list (released (snd (Solve e s))) ic = (if mSolution s = Some ic then 0 else 1)) \<and>
      (fst (Solve e s) = Inr () \<longrightarrow>
         count_list (released (snd (Solve e s))) ic = 1 \<and>
         (\<exists>v. mSolution (snd (Solve e s)) = Some v \<and> v \<noteq> ic \<and>
              v \<notin> set (released (snd (Solve e s)))))"
      unfolding s1 using f c by (intro conjI)
  qed
next
  show "\<forall>v x. heap_ok s \<and> mSolution s = Some v \<and> fst (Solve_prepare e s) = Inl x \<longrightarrow>
      fst (Solve e s) = Inl x \<and> mSolution (snd (Solve e s)) = Some v \<and>
      v \<notin> set (released (snd (Solve e s)))"
    using Solve_prepare_failure_keeps_solution by blast
next
  show "loop_inv ic s \<longrightarrow>
      (\<forall>msg. solver_Solve e t nt (vec_data s ic) = Inl msg \<longrightarrow>
         fst (Solve_step e m t nt ic s) = Inl (Exception msg) \<and>
         heap_ok (snd (Solve_step e m t nt ic s)) \<and>
         mSolution (snd (Solve_step e m t nt ic s)) = mSolution s \<and>
         count_list (released (snd (Solve_step e m t nt ic s))) ic =
           (if mSolution s = Some ic then 0 else 1)) \<and>
      (\<forall>d. solver_Solve e t nt (vec_data s ic) = Inr d \<longrightarrow>
         count_list (released (snd (Solve_step e m t nt ic s))) ic = 1 \<and>
         mSolution (snd (Solve_step e m t nt ic s)) = Some (next_addr s) \<and>
         next_addr s \<noteq> ic \<and>
         heap_ok (snd (Solve_step e m t nt ic s)) \<and>
         (\<forall>ic'. fst (Solve_step e m t nt ic s) = Inr ic' \<longrightarrow>
            ic' = next_addr s \<and> loop_inv ic' (snd (Solve_step e m t nt ic s))))"
  proof (intro impI conjI allI)
    fix msg
    assume i: "loop_inv ic s" and f: "solver_Solve e t nt (vec_data s ic) = Inl msg"
    note r = Solve_step_failure_release [OF i f, where m = m]
    show "fst (Solve_step e m t nt ic s) = Inl (Exception msg)" by (rule r(1))
    show "heap_ok (snd (Solve_step e m t nt ic s))" by (rule r(2))
    show "mSolution (snd (Solve_step e m t nt ic s)) = mSolution s" by (rule r(4))
    show "count_list (released (snd (Solve_step e m t nt ic s))) ic =
           (if mSolution s = Some ic then 0 else 1)" by (rule r(3))
  next
    fix d
    assume i: "loop_inv ic s" and f: "solver_Solve e t nt (vec_data s ic) = Inr d"
    note r = Solve_step_success_release(1,2,4,5) [OF i f, where m = m]
    show "count_list (released (snd (Solve_step e m t nt ic s))) ic = 1" by (rule r(1))
    show "mSolution (snd (Solve_step e m t nt ic s)) = Some (next_addr s)" by (rule r(2))
    show "next_addr s \<noteq> ic" by (rule Solve_step_success_release(3) [OF i f])
    show "heap_ok (snd (Solve_step e m t nt ic s))" by (rule r(3))
    show "ic' = next_addr s" if "fst (Solve_step e m t nt ic s) = Inr ic'" for ic'
      by (rule r(4) [OF that, THEN conjunct1])
    show "loop_inv ic' (snd (Solve_step e m t nt ic s))"
      if "fst (Solve_step e m t nt ic s) = Inr ic'" for ic'
      by (rule r(4) [OF that, THEN conjunct2])
  qed
next
  show "\<forall>msg. mPrintOutput s \<and> fst (InitialiseWriter e m s) = Inl (Exception msg) \<and>
      distinct (released s) \<and> ic \<notin> set (released s) \<and>
      (\<forall>sv. mpSolver s = Some sv \<longrightarrow> sv \<notin> set (released s) \<and> sv \<noteq> ic) \<longrightarrow>
      fst (open_output e m ic s) = Inl (Exception msg) \<and>
      distinct (released (snd (open_output e m ic s))) \<and>
      mSolution (snd (open_output e m ic s)) = mSolution s \<and>
      count_list (released (snd (open_output e m ic s))) ic =
        (if mSolution s = Some ic then 0 else 1)"
  proof (intro allI impI)
    fix msg
    assume a: "mPrintOutput s \<and> fst (InitialiseWriter e m s) = Inl (Exception msg) \<and>
      distinct (released s) \<and> ic \<notin> set (released s) \<and>
      (\<forall>sv. mpSolver s = Some sv \<longrightarrow> sv \<notin> set (released s) \<and> sv \<noteq> ic)"
    have a1: "mPrintOutput s" and a2: "fst (InitialiseWriter e m s) = Inl (Exception msg)"
      and a3: "distinct (released s)" and a4: "ic \<notin> set (released s)"
      and a5: "\<forall>sv. mpSolver s = Some sv \<longrightarrow> sv \<notin> set (released s) \<and> sv \<noteq> ic"
      using a by blast+
    note r = open_output_writer_failure [OF a1 a2 a3 a4 a5]
    show "fst (open_output e m ic s) = Inl (Exception msg) \<and>
      distinct (released (snd (open_output e m ic s))) \<and>
      mSolution (snd (open_output e m ic s)) = mSolution s \<and>
      count_list (released (snd (open_output e m ic s))) ic =
        (if mSolution s = Some ic then 0 else 1)"
      by (intro conjI r(1) r(2) r(4) r(3))
  qed
qed

theorem Solve_releases_at_most_once_witness:
  "heap_ok one_step_problem \<and> heap_ok (snd (Solve example_env one_step_problem)) \<and>
   (\<exists>ic. fst (Solve_prepare failing_env one_step_problem) = Inr (example_mesh, [3], ic) \<and>
         mSolution one_step_problem = None \<and>
         fst (Solve failing_env one_step_problem) = Inl (Exception ''solver diverged'') \<and>
         count_list (released (snd (Solve failing_env one_step_problem))) ic = 1) \<and>
   heap_ok resumed_problem \<and>
   fst (Solve_prepare failing_env resumed_problem) = Inr (example_mesh, [6, 9, 10], 1) \<and>
   mSolution resumed_problem = Some 1 \<and>
   fst (Solve failing_env resumed_problem) = Inl (Exception ''solver diverged'') \<and>
   count_list (released (snd (Solve failing_env resumed_problem))) 1 = 0 \<and>
   (\<exists>ic. fst (Solve_prepare example_env one_step_problem) = Inr (example_mesh, [3], ic) \<and>
         fst (Solve example_env one_step_problem) = Inr () \<and>
         count_list (released (snd (Solve example_env one_step_problem))) ic = 1) \<and>
   heap_ok conflicting_problem \<and> mSolution conflicting_problem = Some 1 \<and>
   fst (Solve_prepare example_env conflicting_problem) = Inl ResumeConflict \<and>
   mSolution (snd (Solve example_env conflicting_problem)) = Some 1 \<and>
   1 \<notin> set (released (snd (Solve example_env conflicting_problem))) \<and>
   loop_inv 1 (configure_solver (start_modifiers 1
                 (snd (Solve_prepare example_env resumed_problem)))) \<and>
   count_list (released (snd (Solve_step example_env example_mesh 3 6 1
       (configure_solver (start_modifiers 1
          (snd (Solve_prepare example_env resumed_problem))))))) 1 = 1 \<and>
   mSolution (snd (Solve_step example_env example_mesh 3 6 1
       (configure_solver (start_modifiers 1
          (snd (Solve_prepare example_env resumed_problem)))))) = Some 3 \<and>
   count_list (released (snd (Solve_step failing_env example_mesh 3 6 1
       (configure_solver (start_modifiers 1
          (snd (Solve_prepare example_env resumed_problem))))))) 1 = 0 \<and>
   fst (open_output example_env example_mesh 1
          ((default_boundary_conditions example_env conflicting_problem)
             \<lparr>next_addr := 3, mpSolver := Some 2\<rparr>)) = Inl ResumeConflict \<and>
   count_list (released (snd (open_output example_env example_mesh 1
          ((default_boundary_conditions example_env conflicting_problem)
             \<lparr>next_addr := 3, mpSolver := Some 2\<rparr>)))) 1 = 0"
proof -
  let ?o = one_step_problem
  let ?r = resumed_problem
  let ?c = conflicting_problem
  let ?e = example_env
  let ?f = failing_env
  have ho: "heap_ok ?o" by (simp add: heap_ok_def one_step_problem_def example_problem_def)
  have hr: "heap_ok ?r"
    by (simp add: heap_ok_def resumed_problem_def conflicting_problem_def example_problem_def)
  have hc: "heap_ok ?c" by (simp add: heap_ok_def conflicting_problem_def example_problem_def)
  have mo: "mSolution ?o = None" by (simp add: one_step_problem_def example_problem_def)
  have mr: "mSolution ?r = Some 1"
    by (simp add: resumed_problem_def conflicting_problem_def)
  have mc: "mSolution ?c = Some 1" by (simp add: conflicting_problem_def)
  have failing: "\<And>t nt d. solver_Solve ?f t nt d = Inl ''solver diverged''"
    by (simp add: failing_env_def)
  have returning: "\<And>t nt d. solver_Solve ?e t nt d = Inr (map (\<lambda>x. x + 1) d)"
    by (simp add: example_env_def)
  have w1: "heap_ok (snd (Solve ?e ?o))"
    using Solve_releases_at_most_once [where s = ?o and e = ?e, THEN conjunct1] ho by blast
  obtain icf where pf: "fst (Solve_prepare ?f ?o) = Inr (example_mesh, [3], icf)"
    using one_step_prepared [of ?f] by (auto simp: failing_env_def example_env_def)
  note Tf = Solve_releases_at_most_once
              [where s = ?o and e = ?f and m = example_mesh and nt = 3 and rest = "[]"
                 and ic = icf, THEN conjunct2, THEN conjunct1, rule_format,
               OF conjI [OF ho pf], THEN conjunct1, rule_format, OF failing]
  have w2: "fst (Solve ?f ?o) = Inl (Exception ''solver diverged'')"
    "count_list (released (snd (Solve ?f ?o))) icf = 1"
    using Tf mo by simp_all
  have pre: "PreSolveChecks ?r = Inr ()"
    by (rule PreSolveChecks_unit_step [where n = 10])
       (simp_all add: resumed_problem_def conflicting_problem_def example_problem_def
          example_config_def)
  have h: "mpMesh ?r = Some example_mesh" "mpSolver ?r = None" "\<not> mPrintOutput ?r"
    by (simp_all add: resumed_problem_def conflicting_problem_def example_problem_def)
  have pts: "\<And>e. AdditionalStoppingTimes e = [] \<Longrightarrow>
               TimeStepper (mCurrentTime ?r) (SimulationDuration (config ?r))
                 (PrintingTimeStep (config ?r)) (AdditionalStoppingTimes e) = [6, 9, 10]"
    using TimeStepper_example
    by (simp add: resumed_problem_def conflicting_problem_def example_problem_def
          example_config_def)
  have pr: "fst (Solve_prepare ?f ?r) = Inr (example_mesh, [6, 9, 10], 1)"
    using Solve_prepare_no_output [OF pre h mr, of ?f] pts [of ?f]
    by (simp add: failing_env_def example_env_def)
  note Tr = Solve_releases_at_most_once
              [where s = ?r and e = ?f and m = example_mesh and nt = 6 and rest = "[9, 10]"
                 and ic = 1, THEN conjunct2, THEN conjunct1, rule_format,
               OF conjI [OF hr pr], THEN conjunct1, rule_format, OF failing]
  have w3: "fst (Solve ?f ?r) = Inl (Exception ''solver diverged'')"
    "count_list (released (snd (Solve ?f ?r))) 1 = 0"
    using Tr mr by simp_all
  obtain ice where pe: "fst (Solve_prepare ?e ?o) = Inr (example_mesh, [3], ice)"
    using one_step_prepared [of ?e] by (auto simp: example_env_def)
  note Te = Solve_releases_at_most_once
              [where s = ?o and e = ?e and m = example_mesh and nt = 3 and rest = "[]"
                 and ic = ice, THEN conjunct2, THEN conjunct1, rule_format,
               OF conjI [OF ho pe], THEN conjunct2, rule_format, OF one_step_completes]
  have w4: "count_list (released (snd (Solve ?e ?o))) ice = 1" using Te by simp
  have prec: "PreSolveChecks ?c = Inr ()"
    by (rule PreSolveChecks_unit_step [where n = 10])
       (simp_all add: conflicting_problem_def example_problem_def example_config_def)
  have pc: "fst (Solve_prepare ?e ?c) = Inl ResumeConflict"
    by (rule Solve_prepare_resume_conflict [OF prec, where m = example_mesh and v = 1
              and f = later_file])
       (simp_all add: conflicting_problem_def example_problem_def later_file_def)
  note Tc = Solve_releases_at_most_once
              [where s = ?c and e = ?e, THEN conjunct2, THEN conjunct2, THEN conjunct1,
               rule_format, OF conjI [OF hc conjI [OF mc pc]]]
  have w5: "mSolution (snd (Solve ?e ?c)) = Some 1" "1 \<notin> set (released (snd (Solve ?e ?c)))"
    using Tc by simp_all
  let ?s1 = "snd (Solve_prepare ?e ?r)"
  let ?h = "configure_solver (start_modifiers 1 ?s1)"
  have pre_e: "Solve_prepare ?e ?r =
      (Inr (example_mesh, [6, 9, 10], 1),
       (default_boundary_conditions ?e ?r)
         \<lparr>next_addr := Suc (next_addr ?r), mpSolver := Some (next_addr ?r)\<rparr>)"
    using Solve_prepare_no_output [OF pre h mr, of ?e] pts [of ?e]
    by (simp add: example_env_def)
  have "loop_inv 1 ?s1" using Solve_prepare_inv [OF hr, of ?e] pre_e by simp
  moreover have "loop_inv 1 ?h = loop_inv 1 ?s1" by (rule loop_inv_cong) simp_all
  ultimately have ih: "loop_inv 1 ?h" by simp
  have nh: "next_addr ?h = 3" and mh: "mSolution ?h = Some 1"
    unfolding pre_e
    by (simp_all add: resumed_problem_def conflicting_problem_def example_problem_def)
  note Ts = Solve_releases_at_most_once
              [where s = ?h and e = ?e and m = example_mesh and t = 3 and nt = 6 and ic = 1,
               THEN conjunct2, THEN conjunct2, THEN conjunct2, THEN conjunct1, rule_format,
               OF ih, THEN conjunct2, rule_format, OF returning]
  have w6: "count_list (released (snd (Solve_step ?e example_mesh 3 6 1 ?h))) 1 = 1"
    "mSolution (snd (Solve_step ?e example_mesh 3 6 1 ?h)) = Some 3"
    using Ts nh by simp_all
  note Tsf = Solve_releases_at_most_once
              [where s = ?h and e = ?f and m = example_mesh and t = 3 and nt = 6 and ic = 1,
               THEN conjunct2, THEN conjunct2, THEN conjunct2, THEN conjunct1, rule_format,
               OF ih, THEN conjunct1, rule_format, OF failing]
  have w7: "count_list (released (snd (Solve_step ?f example_mesh 3 6 1 ?h))) 1 = 0"
    using Tsf mh by simp
  let ?b = "(default_boundary_conditions ?e ?c)\<lparr>next_addr := 3, mpSolver := Some 2\<rparr>"
  have iw: "InitialiseWriter ?e example_mesh ?b = (Inl ResumeConflict, ?b)"
    by (rule InitialiseWriter_conflict [where v = 1 and f = later_file])
       (simp_all add: conflicting_problem_def example_problem_def later_file_def)
  have hyp: "mPrintOutput ?b \<and>
      fst (InitialiseWriter ?e example_mesh ?b) = Inl (Exception ''Attempting to extend the file with results from the current time, but it already contains results up to a later time. Calling HeartConfig::Instance()->SetOutputDirectory() before Solve() will direct results elsewhere.'') \<and>
      distinct (released ?b) \<and> 1 \<notin> set (released ?b) \<and>
      (\<forall>sv. mpSolver ?b = Some sv \<longrightarrow> sv \<notin> set (released ?b) \<and> sv \<noteq> 1)"
    unfolding iw by (simp add: ResumeConflict_def conflicting_problem_def example_problem_def)
  note Tb = Solve_releases_at_most_once
              [where s = ?b and e = ?e and m = example_mesh and ic = 1,
               THEN conjunct2, THEN conjunct2, THEN conjunct2, THEN conjunct2, rule_format,
               OF hyp]
  have mb: "mSolution ?b = Some 1" by (simp add: conflicting_problem_def)
  have w8: "fst (open_output ?e example_mesh 1 ?b) = Inl ResumeConflict"
    "count_list (released (snd (open_output ?e example_mesh 1 ?b))) 1 = 0"
    using Tb mb by (simp_all add: ResumeConflict_def)
  have x2: "\<exists>ic. fst (Solve_prepare ?f ?o) = Inr (example_mesh, [3], ic) \<and>
         mSolution ?o = None \<and>
         fst (Solve ?f ?o) = Inl (Exception ''solver diverged'') \<and>
         count_list (released (snd (Solve ?f ?o))) ic = 1"
    by (intro exI [of _ icf] conjI pf mo w2)
  have x4: "\<exists>ic. fst (Solve_prepare ?e ?o) = Inr (example_mesh, [3], ic) \<and>
         fst (Solve ?e ?o) = Inr () \<and>
         count_list (released (snd (Solve ?e ?o))) ic = 1"
    by (intro exI [of _ ice] conjI pe one_step_completes w4)
  show ?thesis
    by (intro conjI ho w1 x2 hr pr mr w3 x4 hc mc pc w5 ih w6 w7 w8)
qed
end
